(* ===== verification/Prelude.thy ===== *)
theory Prelude
  imports Main "HOL-Library.AList" "HOL-Library.Char_ord" "HOL-Library.List_Lexorder"
    "HOL-Library.Product_Lexorder"
begin

text \<open>
  Shared vocabulary of the development: fallible computations as sums (\<open>Inl\<close> the Go error,
  \<open>Inr\<close> the result), loops over slices that stop at the first error, Go maps as association
  lists without repeated keys, and the functions of the Go packages \<^verbatim>\<open>strings\<close> and
  \<^verbatim>\<open>strconv\<close> that the modelled code calls. A Go string is a sequence of bytes; Isabelle's
  \<^typ>\<open>char\<close> is a byte, so a Go string is exactly a \<^typ>\<open>string\<close>.
\<close>

named_theorems result_simps \<open>rewriting of fallible computations\<close>
named_theorems string_simps \<open>facts on the Go string functions\<close>

section \<open>Fallible computations\<close>

text \<open>\<^verbatim>\<open>x, err := m; if err != nil { return err }; ...\<close> is \<^verbatim>\<open>andThen m (\<lambda>x. ...)\<close>.\<close>

definition andThen :: "'e + 'a \<Rightarrow> ('a \<Rightarrow> 'e + 'b) \<Rightarrow> 'e + 'b" where
  "andThen m f = (case m of Inl e \<Rightarrow> Inl e | Inr x \<Rightarrow> f x)"

text \<open>\<^verbatim>\<open>fmt.Errorf("...: %w", err)\<close>: the error is wrapped, a result passes through.\<close>

definition mapErr :: "('e \<Rightarrow> 'f) \<Rightarrow> 'e + 'a \<Rightarrow> 'f + 'a" where
  "mapErr g m = (case m of Inl e \<Rightarrow> Inl (g e) | Inr x \<Rightarrow> Inr x)"

text \<open>A \<^verbatim>\<open>for range\<close> loop over a slice whose body updates a state or fails.\<close>

fun foldE :: "('s \<Rightarrow> 'x \<Rightarrow> 'e + 's) \<Rightarrow> 's \<Rightarrow> 'x list \<Rightarrow> 'e + 's" where
  "foldE f s [] = Inr s"
| "foldE f s (x # xs) = andThen (f s x) (\<lambda>s'. foldE f s' xs)"

text \<open>The same loop where each round also appends one value to a result slice.\<close>

fun mapE :: "('s \<Rightarrow> 'x \<Rightarrow> 'e + 'y \<times> 's) \<Rightarrow> 's \<Rightarrow> 'x list \<Rightarrow> 'e + 'y list \<times> 's" where
  "mapE f s [] = Inr ([], s)"
| "mapE f s (x # xs) =
     andThen (f s x) (\<lambda>(y, s'). andThen (mapE f s' xs) (\<lambda>(ys, s''). Inr (y # ys, s'')))"

lemma andThen_Inl [simp, result_simps]: "andThen (Inl e) f = Inl e"
  by (simp add: andThen_def)

lemma andThen_Inr [simp, result_simps]: "andThen (Inr x) f = f x"
  by (simp add: andThen_def)

lemma andThen_eq_Inr [result_simps]:
  "andThen m f = Inr y \<longleftrightarrow> (\<exists>x. m = Inr x \<and> f x = Inr y)"
  by (cases m) auto

lemma andThen_eq_Inl [result_simps]:
  "andThen m f = Inl e \<longleftrightarrow> m = Inl e \<or> (\<exists>x. m = Inr x \<and> f x = Inl e)"
  by (cases m) auto

lemma andThen_cong [fundef_cong]:
  "m = m' \<Longrightarrow> (\<And>x. m' = Inr x \<Longrightarrow> f x = g x) \<Longrightarrow> andThen m f = andThen m' g"
  by (cases m') auto

lemma mapErr_Inl [simp, result_simps]: "mapErr g (Inl e) = Inl (g e)"
  by (simp add: mapErr_def)

lemma mapErr_Inr [simp, result_simps]: "mapErr g (Inr x) = Inr x"
  by (simp add: mapErr_def)

lemma mapErr_eq_Inr [simp, result_simps]: "mapErr g m = Inr x \<longleftrightarrow> m = Inr x"
  by (cases m) auto

lemma mapErr_eq_Inl [result_simps]: "mapErr g m = Inl e \<longleftrightarrow> (\<exists>d. m = Inl d \<and> e = g d)"
  by (cases m) auto

lemma foldE_invariant:
  assumes "foldE f s xs = Inr t" and "I s"
    and "\<And>s x s'. x \<in> set xs \<Longrightarrow> I s \<Longrightarrow> f s x = Inr s' \<Longrightarrow> I s'"
  shows "I t"
  using assms by (induction xs arbitrary: s) (auto simp: andThen_eq_Inr)

lemma foldE_cong [fundef_cong]:
  "s = t \<Longrightarrow> xs = ys \<Longrightarrow> (\<And>s x. x \<in> set ys \<Longrightarrow> f s x = g s x) \<Longrightarrow> foldE f s xs = foldE g t ys"
proof (induction ys arbitrary: s t xs)
  case (Cons y ys)
  then have "f t y = g t y" and "foldE f u ys = foldE g u ys" for u by simp_all
  then show ?case using Cons.prems by (cases "g t y") simp_all
qed simp

lemma foldE_unit: "foldE (\<lambda>_. f) () xs = Inr () \<longleftrightarrow> (\<forall>x \<in> set xs. f x = Inr ())"
  by (induction xs) (auto simp: andThen_eq_Inr)

lemma foldE_append:
  "foldE f s (xs @ ys) = andThen (foldE f s xs) (\<lambda>t. foldE f t ys)"
proof (induction xs arbitrary: s)
  case (Cons x xs)
  then show ?case by (cases "f s x") auto
qed simp

lemma foldE_appends:
  assumes "foldE f s xs = Inr t" 
    and "\<And>s x s'. x \<in> set xs \<Longrightarrow> f s x = Inr s' \<Longrightarrow> g s' = g s @ h x"
  shows "g t = g s @ concat (map h xs)"
  using assms by (induction xs arbitrary: s) (auto simp: andThen_eq_Inr)

lemma mapE_Cons_Inr:
  "mapE f s (x # xs) = Inr (zs, t) \<longleftrightarrow>
     (\<exists>y s' ys. f s x = Inr (y, s') \<and> mapE f s' xs = Inr (ys, t) \<and> zs = y # ys)"
  by (cases "f s x") (auto simp: andThen_eq_Inr)

lemma mapE_invariant:
  assumes "mapE f s xs = Inr (ys, t)" and "I s"
    and step: "\<And>s x y s'. x \<in> set xs \<Longrightarrow> I s \<Longrightarrow> f s x = Inr (y, s') \<Longrightarrow> I s'"
  shows "I t"
  using assms
proof (induction xs arbitrary: s ys)
  case (Cons x xs)
  from Cons.prems(1) obtain y s' ys' where
    "f s x = Inr (y, s')" and rest: "mapE f s' xs = Inr (ys', t)"
    by (auto simp: mapE_Cons_Inr simp del: mapE.simps(2))
  with Cons.prems(2,3) have "I s'" by (meson list.set_intros(1))
  then show ?case using Cons.IH [OF rest] Cons.prems(3) by (meson list.set_intros(2))
qed simp

lemma mapE_length: "mapE f s xs = Inr (ys, t) \<Longrightarrow> length ys = length xs"
  by (induction xs arbitrary: s ys) (auto simp: mapE_Cons_Inr simp del: mapE.simps(2))

section \<open>Maps as association lists\<close>

lemma update_new: "k \<notin> fst ` set al \<Longrightarrow> AList.update k v al = al @ [(k, v)]"
  by (induction al) auto

lemma update_new_map_of: "map_of al k = None \<Longrightarrow> AList.update k v al = al @ [(k, v)]"
  by (simp add: update_new map_of_eq_None_iff)

lemma singleton_map_add [simp]: "m k = None \<Longrightarrow> [k \<mapsto> v] ++ m = m(k \<mapsto> v)"
  by (auto simp: map_add_def fun_eq_iff split: option.splits)

lemma map_of_snoc: "map_of al k = None \<Longrightarrow> map_of (al @ [(k, v)]) = (map_of al)(k \<mapsto> v)"
  by simp

lemma map_of_eqI:
  assumes "\<And>k v. (k, v) \<in> set al \<Longrightarrow> m k = Some v" "\<And>k v. m k = Some v \<Longrightarrow> (k, v) \<in> set al"
  shows "map_of al = m"
proof
  fix k
  show "map_of al k = m k"
  proof (cases "map_of al k")
    case None
    then have "k \<notin> fst ` set al" by (simp add: map_of_eq_None_iff)
    then have "m k = None" using assms(2) [of k] by (cases "m k") force+
    with None show ?thesis by simp
  next
    case (Some v)
    then show ?thesis using assms(1) [of k v] by (simp add: map_of_SomeD)
  qed
qed

lemma map_filter_Some [simp]: "List.map_filter (\<lambda>r. r) (map Some xs) = xs"
  by (induction xs) (simp_all add: map_filter_simps)

lemma list_all2_member: "list_all2 P xs ys \<Longrightarrow> y \<in> set ys \<Longrightarrow> \<exists>x \<in> set xs. P x y"
  by (induction rule: list_all2_induct) auto

end
