(* ===== verification/Go_Strings.thy ===== *)
theory Go_Strings
  imports Prelude
begin

text \<open>
  The functions of the Go packages \<^verbatim>\<open>strings\<close> and \<^verbatim>\<open>strconv\<close> that the repository's code
  calls, on byte strings, with the facts the component theories use: splitting and joining are
  inverse, decimal text parses back to its number, replacement of single bytes is a
  homomorphism.
\<close>

section \<open>Prefixes, suffixes and trimming\<close>

definition HasPrefix :: "string \<Rightarrow> string \<Rightarrow> bool" where
  "HasPrefix s p = (take (length p) s = p)"

definition HasSuffix :: "string \<Rightarrow> string \<Rightarrow> bool" where
  "HasSuffix s p = HasPrefix (rev s) (rev p)"

definition TrimPrefix :: "string \<Rightarrow> string \<Rightarrow> string" where
  "TrimPrefix s p = (if HasPrefix s p then drop (length p) s else s)"

definition TrimSuffix :: "string \<Rightarrow> string \<Rightarrow> string" where
  "TrimSuffix s p = (if HasSuffix s p then take (length s - length p) s else s)"

text \<open>\<^verbatim>\<open>strings.Trim(s, "c")\<close> for a cutset of one ASCII character.\<close>

definition trimChar :: "char \<Rightarrow> string \<Rightarrow> string" where
  "trimChar c s = rev (dropWhile (\<lambda>x. x = c) (rev (dropWhile (\<lambda>x. x = c) s)))"

text \<open>
  \<^verbatim>\<open>strings.TrimSpace\<close>: the UTF-8 encodings of the code points with the Unicode property
  White\_Space. An encoding starts with a byte that no other encoding continues with, so
  removing encodings as byte prefixes and suffixes removes exactly the white-space runes.
\<close>

definition spaceEncodings :: "string list" where
  "spaceEncodings =
     [[CHR 0x09], [CHR 0x0A], [CHR 0x0B], [CHR 0x0C], [CHR 0x0D], [CHR 0x20],
      [CHR 0xC2, CHR 0x85], [CHR 0xC2, CHR 0xA0], [CHR 0xE1, CHR 0x9A, CHR 0x80],
      [CHR 0xE2, CHR 0x80, CHR 0x80], [CHR 0xE2, CHR 0x80, CHR 0x81],
      [CHR 0xE2, CHR 0x80, CHR 0x82], [CHR 0xE2, CHR 0x80, CHR 0x83],
      [CHR 0xE2, CHR 0x80, CHR 0x84], [CHR 0xE2, CHR 0x80, CHR 0x85],
      [CHR 0xE2, CHR 0x80, CHR 0x86], [CHR 0xE2, CHR 0x80, CHR 0x87],
      [CHR 0xE2, CHR 0x80, CHR 0x88], [CHR 0xE2, CHR 0x80, CHR 0x89],
      [CHR 0xE2, CHR 0x80, CHR 0x8A], [CHR 0xE2, CHR 0x80, CHR 0xA8],
      [CHR 0xE2, CHR 0x80, CHR 0xA9], [CHR 0xE2, CHR 0x80, CHR 0xAF],
      [CHR 0xE2, CHR 0x81, CHR 0x9F], [CHR 0xE3, CHR 0x80, CHR 0x80]]"

definition leadingSpace :: "string list \<Rightarrow> string \<Rightarrow> nat" where
  "leadingSpace encs s = (case find (HasPrefix s) encs of None \<Rightarrow> 0 | Some e \<Rightarrow> length e)"

function trimLeading :: "string list \<Rightarrow> string \<Rightarrow> string" where
  "trimLeading encs s =
     (if 0 < leadingSpace encs s \<and> s \<noteq> [] then trimLeading encs (drop (leadingSpace encs s) s)
      else s)"
  by pat_completeness auto
termination
  by (relation "measure (\<lambda>(encs, s). length s)") auto

declare trimLeading.simps [simp del]

definition TrimSpace :: "string \<Rightarrow> string" where
  "TrimSpace s =
     rev (trimLeading (map rev spaceEncodings) (rev (trimLeading spaceEncodings s)))"

section \<open>Splitting, joining, replacing\<close>

text \<open>\<^verbatim>\<open>strings.Split(s, sep)\<close> for a separator of one byte: always at least one segment.\<close>

fun splitOn :: "char \<Rightarrow> string \<Rightarrow> string list" where
  "splitOn c [] = [[]]"
| "splitOn c (x # xs) =
     (if x = c then [] # splitOn c xs
      else (case splitOn c xs of [] \<Rightarrow> [[x]] | w # ws \<Rightarrow> (x # w) # ws))"

fun join :: "string \<Rightarrow> string list \<Rightarrow> string" where
  "join sep [] = []"
| "join sep [w] = w"
| "join sep (w # ws) = w @ sep @ join sep ws"

text \<open>\<^verbatim>\<open>strings.CutLast(s, sep)\<close> for a separator of one byte: what stands before and after
  the last separator, \<open>None\<close> where the separator does not occur.\<close>

definition cutLast :: "char \<Rightarrow> string \<Rightarrow> (string \<times> string) option" where
  "cutLast c s =
     (if c \<in> set s
      then Some (rev (tl (dropWhile (\<lambda>x. x \<noteq> c) (rev s))), rev (takeWhile (\<lambda>x. x \<noteq> c) (rev s)))
      else None)"

text \<open>\<^verbatim>\<open>strings.ReplaceAll(s, old, new)\<close> with a non-empty \<open>old\<close>: from left to right,
  without overlap.\<close>

function replaceAll :: "string \<Rightarrow> string \<Rightarrow> string \<Rightarrow> string" where
  "replaceAll old new [] = []"
| "replaceAll old new (x # xs) =
     (if old \<noteq> [] \<and> HasPrefix (x # xs) old
      then new @ replaceAll old new (drop (length old) (x # xs))
      else x # replaceAll old new xs)"
  by pat_completeness auto
termination
  by (relation "measure (\<lambda>(old, new, s). length s)") auto

text \<open>\<^verbatim>\<open>strings.NewReplacer\<close> with one-byte keys: every byte is replaced on its own.\<close>

definition replaceBytes :: "(char \<Rightarrow> string) \<Rightarrow> string \<Rightarrow> string" where
  "replaceBytes f s = concat (map f s)"

section \<open>Decimal numbers\<close>

definition digitChar :: "nat \<Rightarrow> char" where
  "digitChar d = ''0123456789'' ! d"

fun FormatUint :: "nat \<Rightarrow> string" where
  "FormatUint n = (if n < 10 then [digitChar n] else FormatUint (n div 10) @ [digitChar (n mod 10)])"

declare FormatUint.simps [simp del]

definition FormatInt :: "int \<Rightarrow> string" where
  "FormatInt i = (if i < 0 then CHR ''-'' # FormatUint (nat (- i)) else FormatUint (nat i))"

definition isDigit :: "char \<Rightarrow> bool" where
  "isDigit c = (CHR ''0'' \<le> c \<and> c \<le> CHR ''9'')"

definition digitVal :: "char \<Rightarrow> nat" where
  "digitVal c = of_char c - 48"

definition decimalVal :: "string \<Rightarrow> nat" where
  "decimalVal = foldl (\<lambda>n c. 10 * n + digitVal c) 0"

text \<open>\<^verbatim>\<open>strconv.ParseInt(s, 10, bits)\<close>: an optional sign, at least one digit, nothing else,
  and the value in the range of a signed integer of that width. \<open>None\<close> is an error.\<close>

definition ParseInt :: "nat \<Rightarrow> string \<Rightarrow> int option" where
  "ParseInt bits s =
     (let (neg, ds) = (case s of [] \<Rightarrow> (False, [])
                        | c # cs \<Rightarrow> if c = CHR ''-'' then (True, cs)
                                    else if c = CHR ''+'' then (False, cs) else (False, c # cs));
          v = (if neg then - int (decimalVal ds) else int (decimalVal ds))
      in if ds = [] \<or> \<not> list_all isDigit ds then None
         else if v < - (2 ^ (bits - 1)) \<or> v \<ge> 2 ^ (bits - 1) then None
         else Some v)"

section \<open>Facts\<close>

lemma HasPrefix_append [simp, string_simps]: "HasPrefix (p @ s) p"
  by (simp add: HasPrefix_def)

lemma HasPrefix_Nil [simp, string_simps]: "HasPrefix s []"
  by (simp add: HasPrefix_def)

lemma HasPrefix_iff: "HasPrefix s p \<longleftrightarrow> (\<exists>r. s = p @ r)"
  by (metis HasPrefix_append HasPrefix_def append_take_drop_id)

lemma HasPrefix_Cons [simp, string_simps]:
  "HasPrefix (x # xs) (y # ys) \<longleftrightarrow> x = y \<and> HasPrefix xs ys"
  by (auto simp: HasPrefix_iff)

lemma HasPrefix_empty [simp, string_simps]: "HasPrefix [] p \<longleftrightarrow> p = []"
  by (auto simp: HasPrefix_iff)

lemma HasSuffix_iff: "HasSuffix s p \<longleftrightarrow> (\<exists>r. s = r @ p)"
  unfolding HasSuffix_def HasPrefix_iff by (metis rev_append rev_rev_ident)

lemma TrimPrefix_append [simp, string_simps]: "TrimPrefix (p @ s) p = s"
  by (simp add: TrimPrefix_def)

lemma digitChar_props:
  assumes "d < 10"
  shows "isDigit (digitChar d)" and "digitVal (digitChar d) = d"
proof -
  have "d \<in> {0, 1, 2, 3, 4, 5, 6, 7, 8, 9}" using assms by auto
  then show "isDigit (digitChar d)" and "digitVal (digitChar d) = d"
    by (auto simp: digitChar_def isDigit_def digitVal_def less_eq_char_def)
qed

lemma FormatUint_nonempty [simp, string_simps]: "FormatUint n \<noteq> []"
  by (subst FormatUint.simps) simp

lemma FormatUint_isDigit: "\<forall>c \<in> set (FormatUint n). isDigit c"
proof (induction n rule: FormatUint.induct)
  case (1 n)
  show ?case
  proof (cases "n < 10")
    case True
    then show ?thesis by (subst FormatUint.simps) (simp add: digitChar_props)
  next
    case False
    with "1.IH" have "\<forall>c \<in> set (FormatUint (n div 10)). isDigit c" by simp
    with False show ?thesis by (subst FormatUint.simps) (simp add: digitChar_props)
  qed
qed

lemma decimalVal_snoc: "decimalVal (s @ [c]) = 10 * decimalVal s + digitVal c"
  by (simp add: decimalVal_def)

lemma decimalVal_FormatUint [simp, string_simps]: "decimalVal (FormatUint n) = n"
proof (induction n rule: FormatUint.induct)
  case (1 n)
  show ?case
  proof (cases "n < 10")
    case True
    then show ?thesis
      by (subst FormatUint.simps) (simp add: decimalVal_def digitChar_props)
  next
    case False
    with "1.IH" have "decimalVal (FormatUint (n div 10)) = n div 10" by simp
    with False show ?thesis
      by (subst FormatUint.simps) (simp add: decimalVal_snoc digitChar_props)
  qed
qed

lemma FormatUint_inject [simp]: "FormatUint m = FormatUint n \<longleftrightarrow> m = n"
proof
  assume "FormatUint m = FormatUint n"
  then have "decimalVal (FormatUint m) = decimalVal (FormatUint n)" by (rule arg_cong)
  then show "m = n" by simp
qed simp

lemma isDigit_not_sign: "isDigit c \<Longrightarrow> c \<noteq> CHR ''-'' \<and> c \<noteq> CHR ''+'' \<and> c \<noteq> CHR ''/''"
  by (auto simp: isDigit_def less_eq_char_def)

lemma slash_notin_FormatUint [simp, string_simps]: "CHR ''/'' \<notin> set (FormatUint n)"
  using FormatUint_isDigit isDigit_not_sign by blast

lemma FormatInt_nonneg: "0 \<le> i \<Longrightarrow> FormatInt i = FormatUint (nat i)"
  by (simp add: FormatInt_def)

lemma slash_notin_FormatInt [simp, string_simps]: "CHR ''/'' \<notin> set (FormatInt i)"
  by (simp add: FormatInt_def slash_notin_FormatUint)

lemma ParseInt_FormatUint:
  assumes "int n < 2 ^ (bits - 1)"
  shows "ParseInt bits (FormatUint n) = Some (int n)"
proof -
  obtain c cs where split: "FormatUint n = c # cs"
    by (cases "FormatUint n") auto
  then have "isDigit c" using FormatUint_isDigit [of n] by simp
  then have sign: "c \<noteq> CHR ''-''" "c \<noteq> CHR ''+''" using isDigit_not_sign by auto
  have digits: "list_all isDigit (c # cs)"
    using FormatUint_isDigit [of n] split by (simp add: list_all_iff)
  have "decimalVal (c # cs) = n" using split decimalVal_FormatUint by metis
  moreover have "- (2 ^ (bits - 1)) \<le> int n"
    by (rule order_trans [of _ 0]) simp_all
  ultimately show ?thesis
    using assms sign digits by (simp add: ParseInt_def split Let_def not_less)
qed

lemma ParseInt_FormatInt:
  assumes "0 \<le> i" and "i < 2 ^ (bits - 1)"
  shows "ParseInt bits (FormatInt i) = Some i"
  using assms ParseInt_FormatUint [of "nat i" bits] by (simp add: FormatInt_nonneg)

lemma splitOn_nonempty [simp, string_simps]: "splitOn c s \<noteq> []"
  by (induction s) (auto split: list.splits)

lemma splitOn_none: "c \<notin> set w \<Longrightarrow> splitOn c w = [w]"
  by (induction w) auto

lemma splitOn_append: "c \<notin> set w \<Longrightarrow> splitOn c (w @ c # s) = w # splitOn c s"
  by (induction w) auto

lemma splitOn_snoc:
  "c \<notin> set w \<Longrightarrow> splitOn c (s @ c # w) = splitOn c s @ [w]"
proof (induction s)
  case Nil
  then show ?case by (simp add: splitOn_none)
next
  case (Cons x s)
  then show ?case
    by (cases "splitOn c s") auto
qed

lemma join_splitOn: "join [c] (splitOn c s) = s"
proof (induction s)
  case (Cons x s)
  then show ?case
    by (cases "splitOn c s"; cases "tl (splitOn c s)") auto
qed simp

lemma splitOn_join:
  "ws \<noteq> [] \<Longrightarrow> \<forall>w \<in> set ws. c \<notin> set w \<Longrightarrow> splitOn c (join [c] ws) = ws"
proof (induction ws)
  case (Cons w ws)
  then show ?case by (cases ws) (auto simp: splitOn_none splitOn_append)
qed simp

lemma cutLast_snoc [simp, string_simps]:
  assumes "c \<notin> set w"
  shows "cutLast c (s @ c # w) = Some (s, w)"
proof -
  have ne: "\<And>x. x \<in> set (rev w) \<Longrightarrow> x \<noteq> c" using assms by auto
  have "takeWhile (\<lambda>x. x \<noteq> c) (rev w @ c # rev s) = rev w"
    by (subst takeWhile_append2 [OF ne]) simp_all
  moreover have "dropWhile (\<lambda>x. x \<noteq> c) (rev w @ c # rev s) = c # rev s"
    by (subst dropWhile_append2 [OF ne]) simp_all
  ultimately show ?thesis by (simp add: cutLast_def)
qed

lemma cutLast_none [simp, string_simps]: "c \<notin> set s \<Longrightarrow> cutLast c s = None"
  by (simp add: cutLast_def)

lemma replaceBytes_append [simp, string_simps]:
  "replaceBytes f (s @ t) = replaceBytes f s @ replaceBytes f t"
  by (simp add: replaceBytes_def)

lemma trimChar_ends:
  "trimChar c s = [] \<or> (hd (trimChar c s) \<noteq> c \<and> last (trimChar c s) \<noteq> c)"
proof (cases "trimChar c s = []")
  case False
  define t where "t = dropWhile (\<lambda>x. x = c) s"
  define u where "u = dropWhile (\<lambda>x. x = c) (rev t)"
  have trim: "trimChar c s = rev u" by (simp add: trimChar_def t_def u_def)
  with False have u: "u \<noteq> []" by simp
  then have "hd u \<noteq> c" unfolding u_def by (rule hd_dropWhile)
  then have last: "last (rev u) \<noteq> c" using u by (simp add: last_rev)
  have "rev t = takeWhile (\<lambda>x. x = c) (rev t) @ u" by (simp add: u_def)
  then have t: "t = rev u @ rev (takeWhile (\<lambda>x. x = c) (rev t))"
    by (metis rev_append rev_rev_ident)
  then have "t \<noteq> []" and "hd t = hd (rev u)" using u by (metis append_is_Nil_conv rev_is_Nil_conv)
    (metis u t hd_append2 rev_is_Nil_conv)
  moreover have "hd t \<noteq> c" using \<open>t \<noteq> []\<close> unfolding t_def by (rule hd_dropWhile)
  ultimately show ?thesis using last trim by simp
qed simp

lemma trimChar_id:
  "s = [] \<or> (hd s \<noteq> c \<and> last s \<noteq> c) \<Longrightarrow> trimChar c s = s"
proof (cases "s = []")
  case False
  assume "s = [] \<or> (hd s \<noteq> c \<and> last s \<noteq> c)"
  with False have "hd s \<noteq> c" and "hd (rev s) \<noteq> c" by (auto simp: hd_rev)
  then have "dropWhile (\<lambda>x. x = c) s = s" and "dropWhile (\<lambda>x. x = c) (rev s) = rev s"
    by (simp_all add: dropWhile_eq_self_iff)
  then show ?thesis by (simp add: trimChar_def)
qed (simp add: trimChar_def)

lemma set_trimChar: "set (trimChar c s) \<subseteq> set s"
  unfolding trimChar_def by (auto dest!: set_dropWhileD)

end
