(* ===== verification/Schema_IR.thy ===== *)
theory Schema_IR
  imports Go_Strings
begin

text \<open>
  The logical data schema (\<^verbatim>\<open>go/gen/invariant/data/v1/schema.pb.go\<close>): the messages and enums of
  \<^verbatim>\<open>invariant.data.v1\<close> as the Go code sees them. A pointer to a message is an \<open>option\<close>
  (\<open>None\<close> is nil), also inside a repeated field and inside a oneof wrapper, because the code
  checks for nil in all of these places. The generated getters are total: a getter on a nil
  message returns the zero value. An enum value outside the declared ones is kept with its
  number. \<^verbatim>\<open>int32\<close> values are \<^typ>\<open>int\<close>, \<^verbatim>\<open>uint32\<close> values \<^typ>\<open>nat\<close>.
\<close>

section \<open>Enums\<close>

datatype presence =
    PRESENCE_UNSPECIFIED | PRESENCE_IMPLICIT | PRESENCE_EXPLICIT | PRESENCE_REQUIRED
  | PRESENCE_ONEOF | PRESENCE_REPEATED | PRESENCE_MAP | PRESENCE_NOT_APPLICABLE
  | PRESENCE_number int

datatype synthetic_role =
    SYNTHETIC_ROLE_UNSPECIFIED | SYNTHETIC_ROLE_PROTO_FIELD | SYNTHETIC_ROLE_LIST_ELEMENT
  | SYNTHETIC_ROLE_MAP_KEY | SYNTHETIC_ROLE_MAP_VALUE | SYNTHETIC_ROLE_number int

datatype primitive_kind =
    PRIMITIVE_KIND_UNSPECIFIED | PRIMITIVE_KIND_DOUBLE | PRIMITIVE_KIND_FLOAT
  | PRIMITIVE_KIND_INT64 | PRIMITIVE_KIND_UINT64 | PRIMITIVE_KIND_INT32
  | PRIMITIVE_KIND_FIXED64 | PRIMITIVE_KIND_FIXED32 | PRIMITIVE_KIND_BOOL
  | PRIMITIVE_KIND_STRING | PRIMITIVE_KIND_BYTES | PRIMITIVE_KIND_UINT32
  | PRIMITIVE_KIND_SFIXED32 | PRIMITIVE_KIND_SFIXED64 | PRIMITIVE_KIND_SINT32
  | PRIMITIVE_KIND_SINT64 | PRIMITIVE_KIND_number int

datatype time_unit = TIME_UNIT_UNSPECIFIED | TIME_UNIT_NANOSECOND | TIME_UNIT_number int

datatype json_kind =
    JSON_KIND_UNSPECIFIED | JSON_KIND_ANY | JSON_KIND_STRUCT | JSON_KIND_VALUE
  | JSON_KIND_LIST_VALUE | JSON_KIND_number int

datatype mapping_compatibility =
    MAPPING_COMPATIBILITY_UNSPECIFIED | MAPPING_COMPATIBILITY_LOSSLESS
  | MAPPING_COMPATIBILITY_RANGE_WIDENED | MAPPING_COMPATIBILITY_PRECISION_REDUCED
  | MAPPING_COMPATIBILITY_REPRESENTATION_CHANGED | MAPPING_COMPATIBILITY_UNSUPPORTED
  | MAPPING_COMPATIBILITY_RANGE_REDUCED

section \<open>Messages\<close>

record enum_value =
  ev_name :: string
  ev_number :: int
  ev_description :: string

record enum_type =
  et_full_name :: string
  et_values :: "enum_value option list"
  et_closed :: bool

record decimal_type =
  dec_precision :: nat
  dec_scale :: nat

record timestamp_type =
  ts_unit :: time_unit
  ts_timezone :: string

text \<open>Every member of \<^verbatim>\<open>Field\<close> but its type, which makes fields and types recursive.\<close>

record field_data =
  proto_full_name :: string
  proto_number_path :: "nat list"
  field_name :: string
  stable_id :: int
  field_presence :: presence
  nullable :: bool
  oneof :: string
  description :: string
  synthetic_role_of :: synthetic_role
  has_default :: bool
  protobuf_default :: string
  json_name :: string
  storage_name_source :: string

datatype field = Field (data: field_data) (GetType: "data_type option")
  and data_type = DataType (GetProtobufType: string) (GetKind: type_kind)
  and type_kind =
    Kind_nil
  | DataType_Primitive "primitive_kind option"
  | DataType_Enum "enum_type option"
  | DataType_Struct "field option list option"
  | DataType_List "(field option \<times> nat) option"
  | DataType_Map "(field option \<times> field option) option"
  | DataType_Timestamp "timestamp_type option"
  | DataType_Duration "time_unit option"
  | DataType_Json "json_kind option"
  | DataType_Decimal "decimal_type option"
  | DataType_Uuid "unit option"
  | DataType_FixedBytes "nat option"

record retired_field =
  rf_identity :: string
  rf_stable_id :: int
  rf_proto_full_name :: string
  rf_name :: string
  rf_storage_name_source :: string

record dataset_schema =
  source_message :: string
  ds_name :: string
  ds_description :: string
  ds_fields :: "field option list"
  last_field_id :: int
  retired_fields :: "retired_field option list"

record schema_bundle =
  ir_version :: nat
  mapping_version :: nat
  source_descriptor_sha256 :: string
  datasets :: "dataset_schema option list"

record mapping_diagnostic =
  field_path :: string
  compatibility :: mapping_compatibility
  diag_message :: string

section \<open>Getters\<close>

abbreviation GetName :: "field \<Rightarrow> string" where "GetName f \<equiv> field_name (data f)"
abbreviation GetStableId :: "field \<Rightarrow> int" where "GetStableId f \<equiv> stable_id (data f)"
abbreviation GetPresence :: "field \<Rightarrow> presence" where "GetPresence f \<equiv> field_presence (data f)"
abbreviation GetNullable :: "field \<Rightarrow> bool" where "GetNullable f \<equiv> nullable (data f)"
abbreviation GetOneof :: "field \<Rightarrow> string" where "GetOneof f \<equiv> oneof (data f)"
abbreviation GetDescription :: "field \<Rightarrow> string" where "GetDescription f \<equiv> description (data f)"
abbreviation GetProtoFullName :: "field \<Rightarrow> string" where
  "GetProtoFullName f \<equiv> proto_full_name (data f)"
abbreviation GetProtoNumberPath :: "field \<Rightarrow> nat list" where
  "GetProtoNumberPath f \<equiv> proto_number_path (data f)"
abbreviation GetSyntheticRole :: "field \<Rightarrow> synthetic_role" where
  "GetSyntheticRole f \<equiv> synthetic_role_of (data f)"

text \<open>\<^verbatim>\<open>(*Field)(nil).GetName()\<close> and \<^verbatim>\<open>GetType()\<close> on a field pointer.\<close>

definition nilGetName :: "field option \<Rightarrow> string" where
  "nilGetName f = (case f of None \<Rightarrow> [] | Some g \<Rightarrow> GetName g)"

definition nilGetType :: "field option \<Rightarrow> data_type option" where
  "nilGetType f = (case f of None \<Rightarrow> None | Some g \<Rightarrow> GetType g)"

definition GetPrimitive :: "data_type option \<Rightarrow> primitive_kind option" where
  "GetPrimitive t = (case t of Some (DataType _ (DataType_Primitive p)) \<Rightarrow> p | _ \<Rightarrow> None)"

definition GetEnum :: "data_type option \<Rightarrow> enum_type option" where
  "GetEnum t = (case t of Some (DataType _ (DataType_Enum e)) \<Rightarrow> e | _ \<Rightarrow> None)"

definition GetStruct :: "data_type option \<Rightarrow> field option list option" where
  "GetStruct t = (case t of Some (DataType _ (DataType_Struct s)) \<Rightarrow> s | _ \<Rightarrow> None)"

definition GetList :: "data_type option \<Rightarrow> (field option \<times> nat) option" where
  "GetList t = (case t of Some (DataType _ (DataType_List l)) \<Rightarrow> l | _ \<Rightarrow> None)"

definition GetMap :: "data_type option \<Rightarrow> (field option \<times> field option) option" where
  "GetMap t = (case t of Some (DataType _ (DataType_Map m)) \<Rightarrow> m | _ \<Rightarrow> None)"

definition GetDecimal :: "data_type option \<Rightarrow> decimal_type option" where
  "GetDecimal t = (case t of Some (DataType _ (DataType_Decimal d)) \<Rightarrow> d | _ \<Rightarrow> None)"

definition GetUuid :: "data_type option \<Rightarrow> unit option" where
  "GetUuid t = (case t of Some (DataType _ (DataType_Uuid u)) \<Rightarrow> u | _ \<Rightarrow> None)"

definition GetFixedBytes :: "data_type option \<Rightarrow> nat option" where
  "GetFixedBytes t = (case t of Some (DataType _ (DataType_FixedBytes b)) \<Rightarrow> b | _ \<Rightarrow> None)"

text \<open>Getters on the message inside a kind, zero when it is nil.\<close>

definition PrimitiveGetKind :: "primitive_kind option \<Rightarrow> primitive_kind" where
  "PrimitiveGetKind p = (case p of None \<Rightarrow> PRIMITIVE_KIND_UNSPECIFIED | Some k \<Rightarrow> k)"

definition JsonGetKind :: "json_kind option \<Rightarrow> json_kind" where
  "JsonGetKind j = (case j of None \<Rightarrow> JSON_KIND_UNSPECIFIED | Some k \<Rightarrow> k)"

definition EnumGetClosed :: "enum_type option \<Rightarrow> bool" where
  "EnumGetClosed e = (case e of None \<Rightarrow> False | Some t \<Rightarrow> et_closed t)"

definition EnumGetValues :: "enum_type option \<Rightarrow> enum_value option list" where
  "EnumGetValues e = (case e of None \<Rightarrow> [] | Some t \<Rightarrow> et_values t)"

definition StructGetFields :: "field option list option \<Rightarrow> field option list" where
  "StructGetFields s = (case s of None \<Rightarrow> [] | Some fs \<Rightarrow> fs)"

definition ListGetElement :: "(field option \<times> nat) option \<Rightarrow> field option" where
  "ListGetElement l = (case l of None \<Rightarrow> None | Some (e, _) \<Rightarrow> e)"

definition ListGetFixedLength :: "(field option \<times> nat) option \<Rightarrow> nat" where
  "ListGetFixedLength l = (case l of None \<Rightarrow> 0 | Some (_, n) \<Rightarrow> n)"

definition MapGetKey :: "(field option \<times> field option) option \<Rightarrow> field option" where
  "MapGetKey m = (case m of None \<Rightarrow> None | Some (k, _) \<Rightarrow> k)"

definition MapGetValue :: "(field option \<times> field option) option \<Rightarrow> field option" where
  "MapGetValue m = (case m of None \<Rightarrow> None | Some (_, v) \<Rightarrow> v)"

definition TimestampGetUnit :: "timestamp_type option \<Rightarrow> time_unit" where
  "TimestampGetUnit t = (case t of None \<Rightarrow> TIME_UNIT_UNSPECIFIED | Some x \<Rightarrow> ts_unit x)"

definition TimestampGetTimezone :: "timestamp_type option \<Rightarrow> string" where
  "TimestampGetTimezone t = (case t of None \<Rightarrow> [] | Some x \<Rightarrow> ts_timezone x)"

definition DurationGetUnit :: "time_unit option \<Rightarrow> time_unit" where
  "DurationGetUnit d = (case d of None \<Rightarrow> TIME_UNIT_UNSPECIFIED | Some u \<Rightarrow> u)"

definition DecimalGetPrecision :: "decimal_type option \<Rightarrow> nat" where
  "DecimalGetPrecision d = (case d of None \<Rightarrow> 0 | Some x \<Rightarrow> dec_precision x)"

definition DecimalGetScale :: "decimal_type option \<Rightarrow> nat" where
  "DecimalGetScale d = (case d of None \<Rightarrow> 0 | Some x \<Rightarrow> dec_scale x)"

definition FixedBytesGetByteLength :: "nat option \<Rightarrow> nat" where
  "FixedBytesGetByteLength b = (case b of None \<Rightarrow> 0 | Some n \<Rightarrow> n)"

lemmas getter_defs =
  nilGetName_def nilGetType_def GetPrimitive_def GetEnum_def GetStruct_def GetList_def GetMap_def
  GetDecimal_def GetUuid_def GetFixedBytes_def PrimitiveGetKind_def JsonGetKind_def
  EnumGetClosed_def EnumGetValues_def StructGetFields_def ListGetElement_def
  ListGetFixedLength_def MapGetKey_def MapGetValue_def TimestampGetUnit_def
  TimestampGetTimezone_def DurationGetUnit_def DecimalGetPrecision_def DecimalGetScale_def
  FixedBytesGetByteLength_def

section \<open>The tree of fields below a field\<close>

text \<open>The field pointers directly below a type: struct members, a list's element, a map's key
  and value.\<close>

definition kindChildren :: "type_kind \<Rightarrow> field option list" where
  "kindChildren k = (case k of
       DataType_Struct s \<Rightarrow> StructGetFields s
     | DataType_List l \<Rightarrow> [ListGetElement l]
     | DataType_Map m \<Rightarrow> [MapGetKey m, MapGetValue m]
     | _ \<Rightarrow> [])"

definition typeChildren :: "data_type option \<Rightarrow> field option list" where
  "typeChildren t = (case t of None \<Rightarrow> [] | Some (DataType _ k) \<Rightarrow> kindChildren k)"

lemma size_kindChildren: "Some f \<in> set (kindChildren k) \<Longrightarrow> size f < size k"
proof (cases k)
  case (DataType_Struct s)
  assume "Some f \<in> set (kindChildren k)"
  with DataType_Struct obtain fs where fs: "s = Some fs" "Some f \<in> set fs"
    by (auto simp: kindChildren_def StructGetFields_def split: option.splits)
  then have "size_option size (Some f) \<le> size_list (size_option size) fs"
    by (intro size_list_estimation' [where x = "Some f"]) simp_all
  with DataType_Struct fs show ?thesis by simp
qed (auto simp: kindChildren_def ListGetElement_def MapGetKey_def MapGetValue_def
      split: option.splits)

lemma size_nilGetType:
  assumes "c \<in> set (kindChildren (GetKind t))"
  shows "size_option size (nilGetType c) < Suc (size t)"
proof (cases c)
  case (Some f)
  with assms have "size f < size (GetKind t)" by (auto dest: size_kindChildren)
  then show ?thesis using Some by (cases f; cases t) (auto simp: nilGetType_def)
qed (cases t, simp add: nilGetType_def)

lemma size_typeChildren [termination_simp]:
  "Some f \<in> set (typeChildren t) \<Longrightarrow> size f < Suc (size_option size t)"
  by (auto simp: typeChildren_def split: option.splits data_type.splits dest: size_kindChildren)

lemma field_tree_induct [case_names Field]:
  assumes "\<And>d t. (\<And>f. Some f \<in> set (typeChildren t) \<Longrightarrow> P f) \<Longrightarrow> P (Field d t)"
  shows "P f"
proof (induction f rule: measure_induct_rule [where f = size])
  case (less f)
  obtain d t where f: "f = Field d t" by (cases f)
  have "P (Field d t)"
    by (rule assms, rule less) (simp add: f size_typeChildren)
  with f show ?case by simp
qed

text \<open>Every stable ID in the tree of a field, parents before children.\<close>

function fieldIDs :: "field \<Rightarrow> int list" where
  "fieldIDs (Field d t) =
     stable_id d # concat (map (\<lambda>c. case c of None \<Rightarrow> [] | Some g \<Rightarrow> fieldIDs g) (typeChildren t))"
  by pat_completeness auto
termination
  by (relation "measure size") (auto simp: size_typeChildren)

declare fieldIDs.simps [simp del]

definition fieldsIDs :: "field option list \<Rightarrow> int list" where
  "fieldsIDs fs = concat (map (\<lambda>c. case c of None \<Rightarrow> [] | Some g \<Rightarrow> fieldIDs g) fs)"

lemma fieldIDs_eq: "fieldIDs (Field d t) = stable_id d # fieldsIDs (typeChildren t)"
  by (simp add: fieldIDs.simps fieldsIDs_def)

lemma fieldsIDs_simps [simp]:
  "fieldsIDs [] = []"
  "fieldsIDs (None # fs) = fieldsIDs fs"
  "fieldsIDs (Some f # fs) = fieldIDs f @ fieldsIDs fs"
  by (simp_all add: fieldsIDs_def)

lemma fieldsIDs_append [simp]: "fieldsIDs (fs @ gs) = fieldsIDs fs @ fieldsIDs gs"
  by (simp add: fieldsIDs_def)

end
