(* ===== verification/Descriptors.thy ===== *)
theory Descriptors
  imports Schema_IR
begin

text \<open>
  The protobuf descriptors the data compiler reads. They belong to the package
  \<^verbatim>\<open>google.golang.org/protobuf\<close>, so they are arguments of the model: a descriptor is the record of
  the answers its accessors give (\<^verbatim>\<open>fd.Number()\<close>, \<^verbatim>\<open>md.ReservedNames().Has\<close> and so on), and
  the functions of \<^verbatim>\<open>protoreflect\<close> on names are fields of the environment record below.
  A message-typed field refers to its message by full name; \<^verbatim>\<open>fd.Message()\<close> is a lookup in the
  finite list of messages of the environment, so that recursive messages are representable.
\<close>

section \<open>Reflected messages\<close>

datatype proto_kind =
    BoolKind | EnumKind | Int32Kind | Sint32Kind | Uint32Kind | Int64Kind | Sint64Kind | Uint64Kind
  | Sfixed32Kind | Fixed32Kind | FloatKind | Sfixed64Kind | Fixed64Kind | DoubleKind | StringKind
  | BytesKind | MessageKind | GroupKind | OtherKind

record reflect_field =
  rd_name :: string
  rd_is_map :: bool
  rd_map_value_kind :: proto_kind
  rd_is_list :: bool
  rd_kind :: proto_kind

text \<open>\<^verbatim>\<open>protoreflect.Message\<close>: its unknown bytes and the populated fields in the order
  \<^verbatim>\<open>Range\<close> visits them. A map carries the \<^verbatim>\<open>%v\<close> text of each key.\<close>

datatype reflect_message = ReflectMessage (GetUnknown: string) (Range: "(reflect_field \<times> reflect_value) list")
  and reflect_value =
    ScalarValue
  | MessageValue reflect_message
  | ListValue "reflect_message list"
  | MapValue "(string \<times> reflect_message) list"

datatype unknown_field_error = UnknownFields string string

text \<open>\<^verbatim>\<open>rejectUnknownFields\<close> (bundle.go): the first message of the tree that carries unknown
  bytes is an error with its path.\<close>

function (sequential) rejectUnknownFields :: "reflect_message \<Rightarrow> string \<Rightarrow> string \<Rightarrow> unknown_field_error + unit"
  and rejectUnknownRange ::
    "(reflect_field \<times> reflect_value) list \<Rightarrow> string \<Rightarrow> string \<Rightarrow> unknown_field_error + unit"
  and rejectUnknownMap ::
    "(string \<times> reflect_message) list \<Rightarrow> string \<Rightarrow> string \<Rightarrow> unknown_field_error + unit"
  and rejectUnknownList ::
    "reflect_message list \<Rightarrow> nat \<Rightarrow> string \<Rightarrow> string \<Rightarrow> unknown_field_error + unit"
where
  "rejectUnknownFields (ReflectMessage unknown populated) path unsupported =
     (if unknown \<noteq> [] then Inl (UnknownFields path unsupported)
      else rejectUnknownRange populated path unsupported)"
| "rejectUnknownRange [] path unsupported = Inr ()"
| "rejectUnknownRange ((d, v) # populated) path unsupported =
     andThen
       (if rd_is_map d then
          (if rd_map_value_kind d \<noteq> MessageKind then Inr ()
           else case v of
             MapValue items \<Rightarrow> rejectUnknownMap items (path @ ''.'' @ rd_name d) unsupported
           | _ \<Rightarrow> Inr ())
        else if rd_is_list d then
          (if rd_kind d \<noteq> MessageKind then Inr ()
           else case v of
             ListValue items \<Rightarrow> rejectUnknownList items 0 (path @ ''.'' @ rd_name d) unsupported
           | _ \<Rightarrow> Inr ())
        else if rd_kind d = MessageKind then
          (case v of
             MessageValue m \<Rightarrow> rejectUnknownFields m (path @ ''.'' @ rd_name d) unsupported
           | _ \<Rightarrow> Inr ())
        else Inr ())
       (\<lambda>_. rejectUnknownRange populated path unsupported)"
| "rejectUnknownMap [] path unsupported = Inr ()"
| "rejectUnknownMap ((key, item) # items) path unsupported =
     andThen (rejectUnknownFields item (path @ ''['' @ key @ '']'') unsupported)
       (\<lambda>_. rejectUnknownMap items path unsupported)"
| "rejectUnknownList [] index path unsupported = Inr ()"
| "rejectUnknownList (item # items) index path unsupported =
     andThen (rejectUnknownFields item (path @ ''['' @ FormatUint index @ '']'') unsupported)
       (\<lambda>_. rejectUnknownList items (Suc index) path unsupported)"
  by pat_completeness auto
termination
  by (relation "measure (\<lambda>x. case x of
         Inl (Inl (m, _, _)) \<Rightarrow> size m
       | Inl (Inr (r, _, _)) \<Rightarrow> size_list (size_prod (\<lambda>_. 0) size) r
       | Inr (Inl (xs, _, _)) \<Rightarrow> size_list (size_prod (\<lambda>_. 0) size) xs
       | Inr (Inr (xs, _, _, _)) \<Rightarrow> size_list size xs)") simp_all

section \<open>Field options\<close>

text \<open>The oneof \<^verbatim>\<open>semantic_type\<close> of \<^verbatim>\<open>FieldOptions\<close>, each member behind a pointer.\<close>

datatype semantic_type =
    FieldOptions_Decimal "decimal_type option"
  | FieldOptions_Uuid "unit option"
  | FieldOptions_FixedBytes "nat option"
  | FieldOptions_other

record field_options =
  fo_semantic_type :: "semantic_type option"
  fo_fixed_list :: "nat option"
  fo_reflect :: reflect_message

text \<open>What \<^verbatim>\<open>proto.HasExtension\<close> and \<^verbatim>\<open>proto.GetExtension\<close> answer for a data option.\<close>

datatype 'a extension =
    NoExtension
  | UnexpectedExtensionType string
  | Extension 'a

section \<open>Descriptors\<close>

record source_location =
  LeadingComments :: string
  TrailingComments :: string

record enum_value_descriptor =
  evd_name :: string
  evd_number :: int
  evd_location :: source_location

record enum_descriptor =
  ed_full_name :: string
  ed_values :: "enum_value_descriptor list"
  ed_is_closed :: bool

text \<open>The part of a field descriptor that determines the type of one value; it is all that the
  compiler asks of a map's key and value descriptors.\<close>

record value_descriptor =
  fd_kind :: proto_kind
  fd_enum :: enum_descriptor
  fd_message :: string

record field_descriptor = value_descriptor +
  fd_number :: int
  fd_name :: string
  fd_full_name :: string
  fd_is_map :: bool
  fd_is_list :: bool
  fd_required :: bool
  fd_containing_oneof :: "(string \<times> bool) option"
  fd_has_presence :: bool
  fd_has_default :: bool
  fd_default_value :: string
  fd_json_name :: string
  fd_location :: source_location
  fd_options :: "field_options extension"
  fd_containing_full_name :: string
  fd_containing_reserved :: "string \<Rightarrow> bool"
  fd_map_key :: value_descriptor
  fd_map_value :: value_descriptor

record message_descriptor =
  md_full_name :: string
  md_is_map_entry :: bool
  md_fields :: "field_descriptor list"
  md_reserved_names :: "string \<Rightarrow> bool"
  md_reserved_ranges :: "int \<Rightarrow> bool"
  md_extension_ranges :: nat
  md_dataset_option :: "reflect_message extension"
  md_location :: source_location

text \<open>The messages that \<^verbatim>\<open>fd.Message()\<close> can return, and \<^verbatim>\<open>protoreflect.Name.IsValid\<close>,
  \<^verbatim>\<open>FullName.IsValid\<close>, \<^verbatim>\<open>FullName.Name\<close> and \<^verbatim>\<open>FullName.Append\<close>.\<close>

record proto_env =
  env_messages :: "(string \<times> message_descriptor) list"
  Name_IsValid :: "string \<Rightarrow> bool"
  FullName_IsValid :: "string \<Rightarrow> bool"
  FullName_Name :: "string \<Rightarrow> string"
  FullName_Append :: "string \<Rightarrow> string \<Rightarrow> string"

text \<open>A registry files every message under its own full name.\<close>

definition env_keyed :: "proto_env \<Rightarrow> bool" where
  "env_keyed E = list_all (\<lambda>(n, md). md_full_name md = n) (env_messages E)"

lemma env_keyed_lookup:
  "env_keyed E \<Longrightarrow> map_of (env_messages E) n = Some md \<Longrightarrow> md_full_name md = n"
  by (auto simp: env_keyed_def list_all_iff dest: map_of_SomeD)

end
