(* ===== verification/Storage_Name.thy ===== *)
theory Storage_Name
  imports Descriptors
begin

text \<open>
  Storage names and compiler identities (the last part of \<^verbatim>\<open>go/data/compiler.go\<close>).
  \<^verbatim>\<open>storageName\<close> turns a protobuf name into a snake-case storage name. Its callers give it
  only names that protobuf has accepted, which are ASCII letters, digits, underscores and dots, so
  the model reads one byte per rune and \<^verbatim>\<open>unicode.IsUpper\<close>, \<^verbatim>\<open>IsLower\<close>, \<^verbatim>\<open>IsDigit\<close> and
  \<^verbatim>\<open>ToLower\<close> are their ASCII part. A compiler identity is a path of segments such as
  \<^verbatim>\<open>field:3/map:value/field:1\<close>, the key under which a stable ID is kept for ever.
\<close>

section \<open>Storage names\<close>

definition IsUpper :: "char \<Rightarrow> bool" where
  "IsUpper r = (CHR ''A'' \<le> r \<and> r \<le> CHR ''Z'')"

definition IsLower :: "char \<Rightarrow> bool" where
  "IsLower r = (CHR ''a'' \<le> r \<and> r \<le> CHR ''z'')"

definition ToLower :: "char \<Rightarrow> char" where
  "ToLower r = (if IsUpper r then char_of ((of_char r :: nat) + 32) else r)"

text \<open>The loop over the runes: the rune before the current one, the builder and the runes left.\<close>

fun storageNameLoop :: "char option \<Rightarrow> string \<Rightarrow> string \<Rightarrow> string" where
  "storageNameLoop previous b [] = b"
| "storageNameLoop previous b (r # runes) =
     (if r = CHR ''.'' \<or> r = CHR ''-'' then
        storageNameLoop (Some r) (if b \<noteq> [] \<and> \<not> HasSuffix b ''_'' then b @ ''_'' else b) runes
      else if IsUpper r then
        (let previousIsLowerOrDigit =
               (case previous of None \<Rightarrow> False | Some p \<Rightarrow> IsLower p \<or> isDigit p);
             nextIsLower = (case runes of [] \<Rightarrow> False | n # _ \<Rightarrow> IsLower n);
             previousIsUpper = (case previous of None \<Rightarrow> False | Some p \<Rightarrow> IsUpper p);
             b' = (if b \<noteq> [] \<and> (previousIsLowerOrDigit \<or> previousIsUpper \<and> nextIsLower)
                      \<and> \<not> HasSuffix b ''_''
                   then b @ ''_'' else b)
         in storageNameLoop (Some r) (b' @ [ToLower r]) runes)
      else storageNameLoop (Some r) (b @ [ToLower r]) runes)"

definition storageName :: "string \<Rightarrow> string" where
  "storageName name = trimChar CHR ''_'' (storageNameLoop None [] name)"

section \<open>Compiler identities\<close>

definition fieldIdentitySegment :: "int \<Rightarrow> string" where
  "fieldIdentitySegment number = ''field:'' @ FormatInt number"

definition appendIdentity :: "string \<Rightarrow> string \<Rightarrow> string" where
  "appendIdentity parent segment = (if parent = [] then segment else parent @ ''/'' @ segment)"

definition parentCompilerIdentity :: "string \<Rightarrow> string" where
  "parentCompilerIdentity identity =
     (case cutLast CHR ''/'' identity of Some (parent, _) \<Rightarrow> parent | None \<Rightarrow> [])"

datatype identity_error =
    InvalidSegment string string
  | MustBeginWithField string
  | SyntheticOutsideCollection string
  | DescendsThroughMapKey string

text \<open>The role one segment names; the \<^verbatim>\<open>switch\<close> of \<^verbatim>\<open>compilerIdentityRole\<close>.\<close>

definition segmentRole :: "string \<Rightarrow> synthetic_role option" where
  "segmentRole segment =
     (if segment = ''list:element'' then Some SYNTHETIC_ROLE_LIST_ELEMENT
      else if segment = ''map:key'' then Some SYNTHETIC_ROLE_MAP_KEY
      else if segment = ''map:value'' then Some SYNTHETIC_ROLE_MAP_VALUE
      else case ParseInt 32 (TrimPrefix segment ''field:'') of
        None \<Rightarrow> None
      | Some number \<Rightarrow>
          if \<not> HasPrefix segment ''field:'' \<or> number < 1 \<or> number > 2 ^ 29 - 1
             \<or> fieldIdentitySegment number \<noteq> segment
          then None else Some SYNTHETIC_ROLE_PROTO_FIELD)"

text \<open>One round of the loop: \<open>first\<close> is \<^verbatim>\<open>index == 0\<close>, the state is \<^verbatim>\<open>previous\<close>.\<close>

definition identityRoleStep ::
    "string \<Rightarrow> bool \<Rightarrow> synthetic_role \<Rightarrow> string \<Rightarrow> identity_error + synthetic_role" where
  "identityRoleStep identity first previous segment =
     (case segmentRole segment of
        None \<Rightarrow> Inl (InvalidSegment identity segment)
      | Some role \<Rightarrow>
          if first \<and> role \<noteq> SYNTHETIC_ROLE_PROTO_FIELD then Inl (MustBeginWithField identity)
          else if role \<noteq> SYNTHETIC_ROLE_PROTO_FIELD \<and> previous \<noteq> SYNTHETIC_ROLE_PROTO_FIELD
            then Inl (SyntheticOutsideCollection identity)
          else if previous = SYNTHETIC_ROLE_MAP_KEY then Inl (DescendsThroughMapKey identity)
          else Inr role)"

definition compilerIdentityRole :: "string \<Rightarrow> identity_error + synthetic_role" where
  "compilerIdentityRole identity =
     (case splitOn CHR ''/'' identity of
        [] \<Rightarrow> Inr SYNTHETIC_ROLE_UNSPECIFIED
      | segment # segments \<Rightarrow>
          andThen (identityRoleStep identity True SYNTHETIC_ROLE_UNSPECIFIED segment)
            (\<lambda>role. foldE (identityRoleStep identity False) role segments))"

section \<open>Number paths\<close>

definition appendNumber :: "nat list \<Rightarrow> nat \<Rightarrow> nat list" where
  "appendNumber path number = path @ [number]"

definition equalNumberPath :: "nat list \<Rightarrow> nat list \<Rightarrow> bool" where
  "equalNumberPath left right = (left = right)"

text \<open>The Go conversions \<^verbatim>\<open>uint32(x)\<close> of an \<^verbatim>\<open>int32\<close> and \<^verbatim>\<open>int32(x)\<close> of a \<^verbatim>\<open>uint32\<close>.\<close>

definition toUint32 :: "int \<Rightarrow> nat" where
  "toUint32 i = nat (i mod 2 ^ 32)"

definition toInt32 :: "nat \<Rightarrow> int" where
  "toInt32 n = (int n + 2 ^ 31) mod 2 ^ 32 - 2 ^ 31"

section \<open>Specifications\<close>

text \<open>What a storage name never holds: an upper-case letter, a dot or a dash.\<close>

definition cleanName :: "string \<Rightarrow> bool" where
  "cleanName s = list_all (\<lambda>c. \<not> IsUpper c \<and> c \<noteq> CHR ''.'' \<and> c \<noteq> CHR ''-'') s"

text \<open>A segment of an identity is not empty and has no slash.\<close>

definition segmentOK :: "string \<Rightarrow> bool" where
  "segmentOK s = (s \<noteq> [] \<and> CHR ''/'' \<notin> set s)"

text \<open>The grammar of identities: a path starts with a field number, an element, key or value
  stands directly below a field, and nothing stands below a map key.\<close>

inductive identity_role :: "string \<Rightarrow> synthetic_role \<Rightarrow> bool" where
  top_field: "1 \<le> n \<Longrightarrow> n \<le> 2 ^ 29 - 1 \<Longrightarrow>
     identity_role (fieldIdentitySegment n) SYNTHETIC_ROLE_PROTO_FIELD"
| nested_field: "identity_role p role \<Longrightarrow> role \<noteq> SYNTHETIC_ROLE_MAP_KEY \<Longrightarrow> 1 \<le> n \<Longrightarrow> n \<le> 2 ^ 29 - 1 \<Longrightarrow>
     identity_role (appendIdentity p (fieldIdentitySegment n)) SYNTHETIC_ROLE_PROTO_FIELD"
| list_element: "identity_role p SYNTHETIC_ROLE_PROTO_FIELD \<Longrightarrow>
     identity_role (appendIdentity p ''list:element'') SYNTHETIC_ROLE_LIST_ELEMENT"
| map_key: "identity_role p SYNTHETIC_ROLE_PROTO_FIELD \<Longrightarrow>
     identity_role (appendIdentity p ''map:key'') SYNTHETIC_ROLE_MAP_KEY"
| map_value: "identity_role p SYNTHETIC_ROLE_PROTO_FIELD \<Longrightarrow>
     identity_role (appendIdentity p ''map:value'') SYNTHETIC_ROLE_MAP_VALUE"

section \<open>Properties of storage names\<close>

lemma IsUpper_iff: "IsUpper r \<longleftrightarrow> 65 \<le> (of_char r :: nat) \<and> (of_char r :: nat) \<le> 90"
  by (simp add: IsUpper_def less_eq_char_def)

lemma IsLower_iff: "IsLower r \<longleftrightarrow> 97 \<le> (of_char r :: nat) \<and> (of_char r :: nat) \<le> 122"
  by (simp add: IsLower_def less_eq_char_def)

lemma of_char_ToLower:
  "(of_char (ToLower r) :: nat) = (if IsUpper r then of_char r + 32 else of_char r)"
  by (auto simp: ToLower_def IsUpper_iff)

text \<open>Adding 32 to an upper-case letter sets its sixth bit; this equation evaluates fast.\<close>

lemma ToLower_code [code]:
  "ToLower (Char b0 b1 b2 b3 b4 b5 b6 b7) =
     (if IsUpper (Char b0 b1 b2 b3 b4 b5 b6 b7) then Char b0 b1 b2 b3 b4 True b6 b7
      else Char b0 b1 b2 b3 b4 b5 b6 b7)"
proof (cases "IsUpper (Char b0 b1 b2 b3 b4 b5 b6 b7)")
  case True
  then have "\<not> b5"
    by (cases b0; cases b1; cases b2; cases b3; cases b4; cases b5; cases b6; cases b7)
      (simp_all add: IsUpper_iff of_char_def)
  then have "(of_char (Char b0 b1 b2 b3 b4 b5 b6 b7) :: nat) + 32 = of_char (Char b0 b1 b2 b3 b4 True b6 b7)"
    by (simp add: of_char_def)
  then have "char_of ((of_char (Char b0 b1 b2 b3 b4 b5 b6 b7) :: nat) + 32) = Char b0 b1 b2 b3 b4 True b6 b7"
    by (simp only: char_of_char)
  with True show ?thesis unfolding ToLower_def by (simp only: if_True)
next
  case False
  then show ?thesis unfolding ToLower_def by (simp only: if_False)
qed

lemma not_IsUpper_ToLower [simp]: "\<not> IsUpper (ToLower r)"
  by (auto simp: IsUpper_iff of_char_ToLower)

lemma ToLower_id [simp]: "\<not> IsUpper r \<Longrightarrow> ToLower r = r"
  by (simp add: ToLower_def)

lemma ToLower_eq_punct:
  assumes "c \<in> {CHR ''.'', CHR ''-'', CHR ''_''}"
  shows "ToLower r = c \<longleftrightarrow> r = c"
proof
  assume "ToLower r = c"
  then have "(of_char (ToLower r) :: nat) = of_char c" by simp
  moreover have "\<not> IsUpper r"
  proof
    assume "IsUpper r"
    with \<open>ToLower r = c\<close> assms show False
      by (auto simp: of_char_ToLower IsUpper_iff dest!: arg_cong [where f = "of_char :: char \<Rightarrow> nat"])
  qed
  ultimately show "r = c" using \<open>ToLower r = c\<close> by simp
next
  assume "r = c"
  with assms show "ToLower r = c" by (auto simp: ToLower_def IsUpper_def less_eq_char_def)
qed

lemma cleanName_append [simp]: "cleanName (s @ t) \<longleftrightarrow> cleanName s \<and> cleanName t"
  by (simp add: cleanName_def)

lemma underscore_not_IsUpper [simp]: "\<not> IsUpper CHR ''_''"
  by (simp add: IsUpper_iff)

lemma storageNameLoop_clean: "cleanName b \<Longrightarrow> cleanName (storageNameLoop p b s)"
proof (induction p b s rule: storageNameLoop.induct)
  case (2 p b r s)
  have punct: "ToLower r \<noteq> CHR ''.''" "ToLower r \<noteq> CHR ''-''"
    if "r \<noteq> CHR ''.''" "r \<noteq> CHR ''-''"
    using that ToLower_eq_punct [of "CHR ''.''" r] ToLower_eq_punct [of "CHR ''-''" r] by auto
  show ?case
    using 2 punct by (auto simp: Let_def cleanName_def)
qed simp

lemma storageNameLoop_id: "cleanName s \<Longrightarrow> storageNameLoop p b s = b @ s"
  by (induction s arbitrary: p b) (simp_all add: cleanName_def)

lemma storageNameLoop_letters:
  "filter (\<lambda>c. c \<noteq> CHR ''_'') (storageNameLoop p b s) =
     filter (\<lambda>c. c \<noteq> CHR ''_'') b
     @ map ToLower (filter (\<lambda>r. r \<noteq> CHR ''.'' \<and> r \<noteq> CHR ''-'' \<and> r \<noteq> CHR ''_'') s)"
proof (induction p b s rule: storageNameLoop.induct)
  case (2 p b r s)
  have "ToLower r = CHR ''_'' \<longleftrightarrow> r = CHR ''_''" by (simp add: ToLower_eq_punct)
  with 2 show ?case by (auto simp: Let_def)
qed simp

lemma filter_trimChar: "filter (\<lambda>x. x \<noteq> c) (trimChar c s) = filter (\<lambda>x. x \<noteq> c) s"
proof -
  have d: "filter (\<lambda>x. x \<noteq> c) (dropWhile (\<lambda>x. x = c) s) = filter (\<lambda>x. x \<noteq> c) s" for s
    by (induction s) auto
  show ?thesis by (simp add: trimChar_def d rev_filter [symmetric])
qed

lemma storageName_clean: "cleanName (storageName s)"
  using storageNameLoop_clean [of "[]" None s] set_trimChar [of "CHR ''_''"]
  by (fastforce simp: storageName_def cleanName_def list_all_iff)

lemma storageName_ends:
  "storageName s = [] \<or> hd (storageName s) \<noteq> CHR ''_'' \<and> last (storageName s) \<noteq> CHR ''_''"
  unfolding storageName_def by (rule trimChar_ends)

lemma storageName_idem: "storageName (storageName s) = storageName s"
  using storageNameLoop_id [OF storageName_clean] trimChar_id [OF storageName_ends]
  by (simp add: storageName_def [of "storageName s"])

lemma storageName_letters:
  "filter (\<lambda>c. c \<noteq> CHR ''_'') (storageName s) =
     map ToLower (filter (\<lambda>r. r \<noteq> CHR ''.'' \<and> r \<noteq> CHR ''-'' \<and> r \<noteq> CHR ''_'') s)"
  by (simp add: storageName_def filter_trimChar storageNameLoop_letters)

lemma storageName_eq_Nil:
  "storageName s = [] \<longleftrightarrow> set s \<subseteq> {CHR ''.'', CHR ''-'', CHR ''_''}"
proof -
  have "storageName s = [] \<longleftrightarrow> filter (\<lambda>c. c \<noteq> CHR ''_'') (storageName s) = []"
  proof
    assume "filter (\<lambda>c. c \<noteq> CHR ''_'') (storageName s) = []"
    then have "\<forall>c \<in> set (storageName s). c = CHR ''_''" by (simp add: filter_empty_conv)
    with storageName_ends [of s] show "storageName s = []"
      by (cases "storageName s") auto
  qed simp
  then show ?thesis by (auto simp: storageName_letters filter_empty_conv)
qed

section \<open>Properties of identities\<close>

lemma segmentOK_simps [simp]:
  "segmentOK (fieldIdentitySegment n)" "segmentOK ''list:element''" "segmentOK ''map:key''"
  "segmentOK ''map:value''"
  by (simp_all add: segmentOK_def fieldIdentitySegment_def)

lemma appendIdentity_nonempty [simp]: "segmentOK s \<Longrightarrow> appendIdentity p s \<noteq> []"
  by (simp add: appendIdentity_def segmentOK_def)

lemma parentCompilerIdentity_append [simp]:
  "segmentOK s \<Longrightarrow> parentCompilerIdentity (appendIdentity p s) = p"
  by (simp add: parentCompilerIdentity_def appendIdentity_def segmentOK_def)

lemma appendIdentity_inject:
  assumes "segmentOK s" "segmentOK t"
  shows "appendIdentity p s = appendIdentity q t \<longleftrightarrow> p = q \<and> s = t"
proof
  assume eq: "appendIdentity p s = appendIdentity q t"
  with assms have "p = q" by (metis parentCompilerIdentity_append)
  with eq show "p = q \<and> s = t" by (simp add: appendIdentity_def split: if_splits)
qed simp

lemma FormatInt_inject [simp]: "0 \<le> i \<Longrightarrow> 0 \<le> j \<Longrightarrow> FormatInt i = FormatInt j \<longleftrightarrow> i = j"
  by (auto simp: FormatInt_nonneg)

lemma segmentRole_field:
  assumes "1 \<le> n" "n \<le> 2 ^ 29 - 1"
  shows "segmentRole (fieldIdentitySegment n) = Some SYNTHETIC_ROLE_PROTO_FIELD"
proof -
  have "ParseInt 32 (FormatInt n) = Some n"
    using assms by (intro ParseInt_FormatInt) auto
  then have "ParseInt 32 (TrimPrefix (fieldIdentitySegment n) ''field:'') = Some n"
    unfolding fieldIdentitySegment_def by (simp only: TrimPrefix_append)
  moreover have "HasPrefix (fieldIdentitySegment n) ''field:''"
    unfolding fieldIdentitySegment_def by (rule HasPrefix_append)
  ultimately show ?thesis
    using assms by (simp add: segmentRole_def) (simp add: fieldIdentitySegment_def)
qed

lemma segmentRole_SomeD:
  assumes "segmentRole s = Some role"
  obtains "role = SYNTHETIC_ROLE_LIST_ELEMENT" "s = ''list:element''"
  | "role = SYNTHETIC_ROLE_MAP_KEY" "s = ''map:key''"
  | "role = SYNTHETIC_ROLE_MAP_VALUE" "s = ''map:value''"
  | n where "role = SYNTHETIC_ROLE_PROTO_FIELD" "s = fieldIdentitySegment n"
      "1 \<le> n" "n \<le> 2 ^ 29 - 1"
  using assms unfolding segmentRole_def
  by (auto split: if_splits option.splits)

lemma segmentRole_synthetic [simp]:
  "segmentRole ''list:element'' = Some SYNTHETIC_ROLE_LIST_ELEMENT"
  "segmentRole ''map:key'' = Some SYNTHETIC_ROLE_MAP_KEY"
  "segmentRole ''map:value'' = Some SYNTHETIC_ROLE_MAP_VALUE"
  by (simp_all add: segmentRole_def)

lemma identityRoleStep_Inr:
  "identityRoleStep i first r s = Inr role \<longleftrightarrow>
     segmentRole s = Some role \<and> (first \<longrightarrow> role = SYNTHETIC_ROLE_PROTO_FIELD)
     \<and> (role \<noteq> SYNTHETIC_ROLE_PROTO_FIELD \<longrightarrow> r = SYNTHETIC_ROLE_PROTO_FIELD)
     \<and> r \<noteq> SYNTHETIC_ROLE_MAP_KEY"
  by (auto simp: identityRoleStep_def split: option.splits)

lemma foldE_identityRoleStep_cong:
  "foldE (identityRoleStep i False) r ss = Inr role \<longleftrightarrow>
   foldE (identityRoleStep j False) r ss = Inr role"
  by (induction ss arbitrary: r) (auto simp: andThen_eq_Inr identityRoleStep_Inr)

lemma compilerIdentityRole_top:
  "segmentOK s \<Longrightarrow> compilerIdentityRole s = Inr role \<longleftrightarrow>
     segmentRole s = Some SYNTHETIC_ROLE_PROTO_FIELD \<and> role = SYNTHETIC_ROLE_PROTO_FIELD"
  by (auto simp: compilerIdentityRole_def segmentOK_def splitOn_none andThen_eq_Inr identityRoleStep_Inr)

lemma compilerIdentityRole_append:
  assumes "segmentOK s" "p \<noteq> []"
  shows "compilerIdentityRole (appendIdentity p s) = Inr role \<longleftrightarrow>
    (\<exists>r. compilerIdentityRole p = Inr r \<and> identityRoleStep p False r s = Inr role)"
proof -
  obtain t ts where p: "splitOn CHR ''/'' p = t # ts"
    by (cases "splitOn CHR ''/'' p") auto
  have split: "splitOn CHR ''/'' (appendIdentity p s) = t # ts @ [s]"
    using assms p by (simp add: appendIdentity_def segmentOK_def splitOn_snoc)
  show ?thesis
    unfolding compilerIdentityRole_def split p
    by (auto simp: andThen_eq_Inr foldE_append identityRoleStep_Inr
      foldE_identityRoleStep_cong [of "appendIdentity p s" _ _ _ p])
qed

lemma fieldIdentitySegment_nonempty [simp]: "fieldIdentitySegment n \<noteq> []"
  by (simp add: fieldIdentitySegment_def)

lemma identity_role_nonempty: "identity_role i role \<Longrightarrow> i \<noteq> []"
  by (induction rule: identity_role.induct) simp_all

lemma identity_role_accepted: "identity_role i role \<Longrightarrow> compilerIdentityRole i = Inr role"
proof (induction rule: identity_role.induct)
  case (top_field n)
  then show ?case by (simp add: compilerIdentityRole_top segmentRole_field)
next
  case (nested_field p role n)
  then show ?case using identity_role_nonempty [of p role]
    by (simp add: compilerIdentityRole_append identityRoleStep_Inr segmentRole_field)
qed (simp_all add: compilerIdentityRole_append identity_role_nonempty identityRoleStep_Inr)

lemma identity_role_step:
  assumes "identity_role p r" "identityRoleStep i False r s = Inr role"
  shows "identity_role (appendIdentity p s) role"
  using assms
  by (auto simp: identityRoleStep_Inr elim!: segmentRole_SomeD intro: identity_role.intros)

lemma identity_role_fold:
  "identity_role p r \<Longrightarrow> foldE (identityRoleStep i False) r ss = Inr role \<Longrightarrow>
   identity_role (foldl appendIdentity p ss) role"
  by (induction ss arbitrary: p r) (auto simp: andThen_eq_Inr dest: identity_role_step)

lemma foldl_appendIdentity: "p \<noteq> [] \<Longrightarrow> foldl appendIdentity p ss = join ''/'' (p # ss)"
proof (induction ss arbitrary: p)
  case (Cons s ss)
  have "foldl appendIdentity p (s # ss) = join ''/'' ((p @ ''/'' @ s) # ss)"
    using Cons.IH [of "p @ ''/'' @ s"] Cons.prems by (simp add: appendIdentity_def [of p s])
  also have "\<dots> = join ''/'' (p # s # ss)" by (cases ss) simp_all
  finally show ?case .
qed simp

lemma compilerIdentityRole_sound:
  assumes "compilerIdentityRole i = Inr role"
  shows "identity_role i role"
proof -
  obtain t ts where i: "splitOn CHR ''/'' i = t # ts"
    by (cases "splitOn CHR ''/'' i") auto
  with assms obtain r where first: "identityRoleStep i True SYNTHETIC_ROLE_UNSPECIFIED t = Inr r"
    and rest: "foldE (identityRoleStep i False) r ts = Inr role"
    by (auto simp: compilerIdentityRole_def andThen_eq_Inr)
  from first have t: "identity_role t r"
    by (auto simp: identityRoleStep_Inr elim!: segmentRole_SomeD intro: identity_role.top_field)
  from identity_role_fold [OF t rest] have "identity_role (join ''/'' (splitOn CHR ''/'' i)) role"
    by (simp add: i foldl_appendIdentity identity_role_nonempty [OF t])
  then show ?thesis by (simp add: join_splitOn)
qed

lemma toInt32_toUint32 [simp]: "0 \<le> i \<Longrightarrow> i < 2 ^ 31 \<Longrightarrow> toInt32 (toUint32 i) = i"
  by (simp add: toInt32_def toUint32_def)

lemma toInt32_toUint32_all: "- (2 ^ 31) \<le> i \<Longrightarrow> i < 2 ^ 31 \<Longrightarrow> toInt32 (toUint32 i) = i"
proof (cases "0 \<le> i")
  case False
  assume "- (2 ^ 31) \<le> i" "i < 2 ^ 31"
  with False have "i mod 2 ^ 32 = i + 2 ^ 32"
    using mod_add_self2 [of i "2 ^ 32"] mod_pos_pos_trivial [of "i + 2 ^ 32" "2 ^ 32"] by simp
  moreover have "(i + 2 ^ 32 + 2 ^ 31) mod 2 ^ 32 = i + 2 ^ 31"
    using False \<open>- (2 ^ 31) \<le> i\<close> mod_add_self2 [of "i + 2 ^ 31" "2 ^ 32"]
      mod_pos_pos_trivial [of "i + 2 ^ 31" "2 ^ 32"] by (simp add: algebra_simps)
  ultimately show ?thesis using False \<open>- (2 ^ 31) \<le> i\<close> by (simp add: toInt32_def toUint32_def)
qed simp

end
