(* ===== verification/Stable_IDs.thy ===== *)
theory Stable_IDs
  imports Prelude
begin

text \<open>
  The contract of a stable-ID allocator: a state with a ledger (which key owns an ID), the list of
  the keys allocated so far, an operation that gives a key its ID, and silent steps that leave
  both alone. From the laws of one step follow the facts on whole runs: the ledger only grows,
  and no ID is given to two keys. The compiler state interprets this contract.
\<close>

locale stable_ids =
  fixes inv :: "'s \<Rightarrow> bool"
    and owner :: "'s \<Rightarrow> int \<Rightarrow> 'k option"
    and active :: "'s \<Rightarrow> ('k \<times> int) list"
    and alloc :: "'s \<Rightarrow> 'k \<Rightarrow> 'e + int \<times> 's"
    and silent :: "'s \<Rightarrow> 's \<Rightarrow> bool"
  assumes alloc_inv: "inv s \<Longrightarrow> alloc s k = Inr (n, s') \<Longrightarrow> inv s'"
    and alloc_owner: "inv s \<Longrightarrow> alloc s k = Inr (n, s') \<Longrightarrow> owner s' n = Some k \<and> owner s \<subseteq>\<^sub>m owner s'"
    and alloc_active: "alloc s k = Inr (n, s') \<Longrightarrow> active s' = active s @ [(k, n)]"
    and active_once: "inv s \<Longrightarrow> distinct (map fst (active s))"
    and active_owner: "inv s \<Longrightarrow> (k, n) \<in> set (active s) \<Longrightarrow> owner s n = Some k"
    and silent_inv: "inv s \<Longrightarrow> silent s s' \<Longrightarrow> inv s'"
    and silent_owner: "silent s s' \<Longrightarrow> owner s' = owner s"
    and silent_active: "silent s s' \<Longrightarrow> active s' = active s"
begin

inductive run :: "'s \<Rightarrow> ('k \<times> int) list \<Rightarrow> 's \<Rightarrow> bool" where
  stop: "run s [] s"
| silent_step: "silent s s1 \<Longrightarrow> run s1 es s2 \<Longrightarrow> run s es s2"
| alloc_step: "alloc s k = Inr (n, s1) \<Longrightarrow> run s1 es s2 \<Longrightarrow> run s ((k, n) # es) s2"

lemma run_append: "run s es s1 \<Longrightarrow> run s1 es' s2 \<Longrightarrow> run s (es @ es') s2"
  by (induction rule: run.induct) (auto intro: run.intros)

lemma run_inv: "run s es s' \<Longrightarrow> inv s \<Longrightarrow> inv s'"
  by (induction rule: run.induct) (blast intro: alloc_inv silent_inv)+

lemma run_active: "run s es s' \<Longrightarrow> active s' = active s @ es"
  by (induction rule: run.induct) (simp_all add: silent_active alloc_active)

lemma run_owner: "run s es s' \<Longrightarrow> inv s \<Longrightarrow> owner s \<subseteq>\<^sub>m owner s'"
proof (induction rule: run.induct)
  case (silent_step s s1 es s2)
  then show ?case by (metis silent_inv silent_owner)
next
  case (alloc_step s k n s1 es s2)
  then show ?case by (meson alloc_inv alloc_owner map_le_trans)
qed simp

lemma active_ids_distinct:
  assumes "inv s"
  shows "distinct (map snd (active s))"
proof -
  have "inj_on snd (set (active s))"
  proof (rule inj_onI)
    fix x y
    assume "x \<in> set (active s)" "y \<in> set (active s)" "snd x = snd y"
    then have "owner s (snd x) = Some (fst x)" "owner s (snd x) = Some (fst y)"
      by (metis active_owner [OF assms] prod.collapse)+
    with \<open>snd x = snd y\<close> show "x = y" by (simp add: prod_eq_iff)
  qed
  moreover have "distinct (active s)" using active_once [OF assms] by (simp add: distinct_map)
  ultimately show ?thesis by (simp add: distinct_map)
qed

lemma run_ids_distinct: "run s es s' \<Longrightarrow> inv s \<Longrightarrow> distinct (map snd (active s @ es))"
  using active_ids_distinct [OF run_inv] run_active by metis

lemma run_ids_owned: "run s es s' \<Longrightarrow> inv s \<Longrightarrow> (k, n) \<in> set es \<Longrightarrow> owner s' n = Some k"
  using active_owner [OF run_inv] by (simp add: run_active)

end

end
