(* ===== verification/Compiler_State.thy ===== *)
theory Compiler_State
  imports Storage_Name Stable_IDs
begin

text \<open>
  The state of the data compiler (\<^verbatim>\<open>datasetCompiler\<close> in \<^verbatim>\<open>go/data/compiler.go\<close>): the stable IDs
  of the previous schema, its tombstones, the IDs handed out in this run, and the storage names
  each scope has ever used. A Go map is an association list with one entry per key, written with
  \<^const>\<open>AList.update\<close>, which keeps insertion order; the nested map \<^verbatim>\<open>historicalNames\<close> is one
  list keyed by scope and name. This theory holds the state, the operations that read a previous
  schema into it, the allocation of stable IDs, and the ledger invariant they keep.
\<close>

definition maxStableID :: int where
  "maxStableID = 2147483447"

record dataset_compiler =
  previousActive :: "(string \<times> int) list"
  previousFields :: "(string \<times> field) list"
  retired :: "(string \<times> retired_field) list"
  currentActive :: "(string \<times> int) list"
  currentContainers :: "(string \<times> message_descriptor) list"
  historicalNames :: "((string \<times> string) \<times> string) list"
  reservedIDs :: "(int \<times> string) list"
  firstTopLevelIDs :: "(string \<times> int) list"
  lastID :: int

section \<open>Errors\<close>

datatype stable_id_error = StableIDOutside int

datatype name_error =
    NameIdentity identity_error
  | EmptyProtoFullName
  | EmptyStorageName
  | NotAFieldName string
  | InvalidStorageNameSource string
  | NonCanonicalName string string string
  | ListElementName
  | MapKeyName
  | MapValueName
  | NoFieldRole string

datatype previous_error =
    WrongSourceMessage string string
  | NonCanonicalDatasetName string string string
  | LastFieldIDOutside int
  | NilRetiredField
  | EmptyRetiredIdentity
  | RetiredStableID string stable_id_error
  | RetiredDuplicated string
  | StableIDShared int string string
  | RetiredName string name_error
  | NameShared string string string string
  | NilPreviousField
  | UnexpectedRole string synthetic_role synthetic_role
  | InvalidNumberPath synthetic_role string "nat list"
  | InvalidRole string
  | FieldStableID string stable_id_error
  | ActiveAndRetired string
  | ActiveDuplicated string
  | FieldName string name_error
  | NoLogicalType string
  | NoListElement string
  | NoMapKeyOrValue string
  | LastFieldIDMismatch int int

datatype allocation_error =
    IdentityTwice string
  | ReusesRetired string int
  | BeyondMaxStableID
  | AlreadyReserved int string

section \<open>Checks on names and IDs\<close>

definition validateStableID :: "int \<Rightarrow> stable_id_error + unit" where
  "validateStableID i = (if i < 1 \<or> i > maxStableID then Inl (StableIDOutside i) else Inr ())"

definition exactProtoFieldName :: "proto_env \<Rightarrow> string \<Rightarrow> name_error + string" where
  "exactProtoFieldName E fullName =
     (if \<not> FullName_IsValid E fullName \<or> \<not> Name_IsValid E (FullName_Name E fullName)
      then Inl (NotAFieldName fullName) else Inr (FullName_Name E fullName))"

definition validateCompilerOwnedName ::
    "proto_env \<Rightarrow> string \<Rightarrow> string \<Rightarrow> string \<Rightarrow> string \<Rightarrow> name_error + unit" where
  "validateCompilerOwnedName E identity protoFullName name storageSource =
     andThen (mapErr NameIdentity (compilerIdentityRole identity)) (\<lambda>role.
     if protoFullName = [] then Inl EmptyProtoFullName
     else if name = [] then Inl EmptyStorageName
     else case role of
       SYNTHETIC_ROLE_PROTO_FIELD \<Rightarrow>
         andThen (exactProtoFieldName E protoFullName) (\<lambda>_.
         if storageSource = [] \<or> \<not> Name_IsValid E storageSource
         then Inl (InvalidStorageNameSource storageSource)
         else if name \<noteq> storageName storageSource
         then Inl (NonCanonicalName name (storageName storageSource) storageSource)
         else Inr ())
     | SYNTHETIC_ROLE_LIST_ELEMENT \<Rightarrow>
         if name \<noteq> ''element'' \<or> storageSource \<noteq> [] then Inl ListElementName else Inr ()
     | SYNTHETIC_ROLE_MAP_KEY \<Rightarrow>
         if name \<noteq> ''key'' \<or> storageSource \<noteq> [] then Inl MapKeyName else Inr ()
     | SYNTHETIC_ROLE_MAP_VALUE \<Rightarrow>
         if name \<noteq> ''value'' \<or> storageSource \<noteq> [] then Inl MapValueName else Inr ()
     | _ \<Rightarrow> Inl (NoFieldRole identity))"

section \<open>Historical names\<close>

definition registerHistoricalName ::
    "dataset_compiler \<Rightarrow> string \<Rightarrow> string \<Rightarrow> previous_error + dataset_compiler" where
  "registerHistoricalName c identity name =
     (let scope = parentCompilerIdentity identity;
          register =
            Inr (c\<lparr>historicalNames := AList.update (scope, name) identity (historicalNames c)\<rparr>)
      in case map_of (historicalNames c) (scope, name) of
           Some owner \<Rightarrow>
             if owner \<noteq> identity then Inl (NameShared name scope owner identity) else register
         | None \<Rightarrow> register)"

definition historicalNameOwner :: "dataset_compiler \<Rightarrow> string \<Rightarrow> string \<Rightarrow> string" where
  "historicalNameOwner c scope name =
     (case map_of (historicalNames c) (scope, name) of Some owner \<Rightarrow> owner | None \<Rightarrow> [])"

section \<open>Reading the previous schema\<close>

text \<open>One round of the loop over \<^verbatim>\<open>previous.GetRetiredFields()\<close>.\<close>

definition indexRetiredField ::
    "proto_env \<Rightarrow> dataset_compiler \<Rightarrow> retired_field option \<Rightarrow> previous_error + dataset_compiler" where
  "indexRetiredField E c field =
     (case field of
        None \<Rightarrow> Inl NilRetiredField
      | Some r \<Rightarrow>
          if rf_identity r = [] then Inl EmptyRetiredIdentity
          else
            andThen (mapErr (RetiredStableID (rf_identity r)) (validateStableID (rf_stable_id r))) (\<lambda>_.
            if map_of (retired c) (rf_identity r) \<noteq> None then Inl (RetiredDuplicated (rf_identity r))
            else case map_of (reservedIDs c) (rf_stable_id r) of
              Some owner \<Rightarrow> Inl (StableIDShared (rf_stable_id r) owner (rf_identity r))
            | None \<Rightarrow>
                andThen (mapErr (RetiredName (rf_identity r))
                  (validateCompilerOwnedName E (rf_identity r) (rf_proto_full_name r) (rf_name r)
                    (rf_storage_name_source r))) (\<lambda>_.
                andThen (registerHistoricalName c (rf_identity r) (rf_name r)) (\<lambda>c.
                Inr (c\<lparr>retired := AList.update (rf_identity r) r (retired c),
                       reservedIDs := AList.update (rf_stable_id r) (rf_identity r) (reservedIDs c)\<rparr>)))))"

text \<open>The part of \<^verbatim>\<open>indexPreviousField\<close> that checks the role and the number path and builds the
  identity.\<close>

definition previousIdentity ::
    "field \<Rightarrow> nat list \<Rightarrow> string \<Rightarrow> synthetic_role \<Rightarrow> previous_error + string" where
  "previousIdentity f parentPath parentIdentity expectedRole =
     (let path = GetProtoNumberPath f;
          synthetic = (\<lambda>segment.
            if \<not> equalNumberPath path parentPath
            then Inl (InvalidNumberPath expectedRole (GetProtoFullName f) path)
            else Inr (appendIdentity parentIdentity segment))
      in if GetSyntheticRole f \<noteq> expectedRole
         then Inl (UnexpectedRole (GetProtoFullName f) (GetSyntheticRole f) expectedRole)
         else case expectedRole of
           SYNTHETIC_ROLE_PROTO_FIELD \<Rightarrow>
             if length path \<noteq> length parentPath + 1
                \<or> \<not> equalNumberPath (take (length parentPath) path) parentPath
             then Inl (InvalidNumberPath expectedRole (GetProtoFullName f) path)
             else Inr (appendIdentity parentIdentity
               (fieldIdentitySegment (toInt32 (path ! (length path - 1)))))
         | SYNTHETIC_ROLE_LIST_ELEMENT \<Rightarrow> synthetic ''list:element''
         | SYNTHETIC_ROLE_MAP_KEY \<Rightarrow> synthetic ''map:key''
         | SYNTHETIC_ROLE_MAP_VALUE \<Rightarrow> synthetic ''map:value''
         | _ \<Rightarrow> Inl (InvalidRole (GetProtoFullName f)))"

text \<open>The part that checks the identity, the ID and the name, and enters them into the state.\<close>

definition indexPreviousEntry ::
    "proto_env \<Rightarrow> dataset_compiler \<Rightarrow> field \<Rightarrow> string \<Rightarrow> previous_error + dataset_compiler" where
  "indexPreviousEntry E c f identity =
     andThen (mapErr (FieldStableID (GetProtoFullName f)) (validateStableID (GetStableId f))) (\<lambda>_.
     if map_of (retired c) identity \<noteq> None then Inl (ActiveAndRetired identity)
     else if map_of (previousActive c) identity \<noteq> None then Inl (ActiveDuplicated identity)
     else case map_of (reservedIDs c) (GetStableId f) of
       Some owner \<Rightarrow> Inl (StableIDShared (GetStableId f) owner identity)
     | None \<Rightarrow>
         andThen (mapErr (FieldName (GetProtoFullName f))
           (validateCompilerOwnedName E identity (GetProtoFullName f) (GetName f)
             (storage_name_source (data f)))) (\<lambda>_.
         andThen (registerHistoricalName c identity (GetName f)) (\<lambda>c.
         Inr (c\<lparr>previousActive := AList.update identity (GetStableId f) (previousActive c),
                previousFields := AList.update identity f (previousFields c),
                reservedIDs := AList.update (GetStableId f) identity (reservedIDs c)\<rparr>))))"

text \<open>The children the final \<^verbatim>\<open>switch\<close> descends into, each with the role it must have.\<close>

definition previousChildren ::
    "field \<Rightarrow> previous_error + (field option \<times> synthetic_role) list" where
  "previousChildren f =
     (case GetType f of
        None \<Rightarrow> Inl (NoLogicalType (GetProtoFullName f))
      | Some typ \<Rightarrow>
          (case GetStruct (Some typ) of
             Some s \<Rightarrow> Inr (map (\<lambda>child. (child, SYNTHETIC_ROLE_PROTO_FIELD)) (StructGetFields (Some s)))
           | None \<Rightarrow>
               (case GetList (Some typ) of
                  Some l \<Rightarrow>
                    if ListGetElement (Some l) = None then Inl (NoListElement (GetProtoFullName f))
                    else Inr [(ListGetElement (Some l), SYNTHETIC_ROLE_LIST_ELEMENT)]
                | None \<Rightarrow>
                    (case GetMap (Some typ) of
                       Some m \<Rightarrow>
                         if MapGetKey (Some m) = None \<or> MapGetValue (Some m) = None
                         then Inl (NoMapKeyOrValue (GetProtoFullName f))
                         else Inr [(MapGetKey (Some m), SYNTHETIC_ROLE_MAP_KEY),
                                   (MapGetValue (Some m), SYNTHETIC_ROLE_MAP_VALUE)]
                     | None \<Rightarrow> Inr []))))"

text \<open>A child is smaller than its parent, so the walk over the previous fields ends.\<close>

lemma previousChildren_typeChildren:
  "previousChildren f = Inr cs \<Longrightarrow> (Some g, role) \<in> set cs \<Longrightarrow> Some g \<in> set (typeChildren (GetType f))"
  by (auto simp: previousChildren_def typeChildren_def kindChildren_def GetStruct_def GetList_def
      GetMap_def split: option.splits data_type.splits type_kind.splits if_splits)

lemma size_previousChildren:
  assumes "previousChildren f = Inr cs" and "(Some g, role) \<in> set cs"
  shows "size g < size f"
  using size_typeChildren [OF previousChildren_typeChildren [OF assms]] by (cases f) simp

function (sequential) indexPreviousField ::
    "proto_env \<Rightarrow> dataset_compiler \<Rightarrow> field option \<Rightarrow> nat list \<Rightarrow> string \<Rightarrow> synthetic_role
     \<Rightarrow> previous_error + dataset_compiler" where
  "indexPreviousField E c None parentPath parentIdentity expectedRole = Inl NilPreviousField"
| "indexPreviousField E c (Some f) parentPath parentIdentity expectedRole =
     andThen (previousIdentity f parentPath parentIdentity expectedRole) (\<lambda>identity.
     andThen (indexPreviousEntry E c f identity) (\<lambda>c.
     andThen (previousChildren f) (\<lambda>children.
     foldE (\<lambda>c (child, role).
         indexPreviousField E c child (GetProtoNumberPath f) identity role) c children)))"
  by pat_completeness auto
termination
proof (relation "measure (\<lambda>(_, _, f, _, _, _). size_option size f)", goal_cases)
  case (2 E c f parentPath parentIdentity expectedRole identity c' children c'' child g role)
  then show ?case using size_previousChildren [of f children] by (cases f; cases g) auto
qed simp

declare indexPreviousField.simps [simp del]

definition emptyCompiler :: "message_descriptor \<Rightarrow> dataset_compiler" where
  "emptyCompiler md = \<lparr>previousActive = [], previousFields = [], retired = [], currentActive = [],
     currentContainers = [([], md)], historicalNames = [], reservedIDs = [], firstTopLevelIDs = [],
     lastID = 0\<rparr>"

text \<open>The loop that finds the highest reserved ID.\<close>

definition highestID :: "(int \<times> string) list \<Rightarrow> int" where
  "highestID ids = foldl (\<lambda>highest (i, _). if i > highest then i else highest) 0 ids"

definition newDatasetCompiler ::
    "proto_env \<Rightarrow> message_descriptor \<Rightarrow> dataset_schema option \<Rightarrow> previous_error + dataset_compiler" where
  "newDatasetCompiler E md previous =
     (case previous of
        None \<Rightarrow> Inr (emptyCompiler md)
      | Some p \<Rightarrow>
          let canonicalDatasetName = storageName (source_message p) in
          if source_message p \<noteq> md_full_name md
          then Inl (WrongSourceMessage (source_message p) (md_full_name md))
          else if ds_name p \<noteq> canonicalDatasetName
          then Inl (NonCanonicalDatasetName (ds_name p) canonicalDatasetName (source_message p))
          else if last_field_id p < 0 \<or> last_field_id p > maxStableID
          then Inl (LastFieldIDOutside (last_field_id p))
          else
            andThen (foldE (indexRetiredField E) ((emptyCompiler md)\<lparr>lastID := last_field_id p\<rparr>)
              (retired_fields p)) (\<lambda>c.
            andThen (foldE (\<lambda>c f. indexPreviousField E c f [] [] SYNTHETIC_ROLE_PROTO_FIELD) c
              (ds_fields p)) (\<lambda>c.
            if lastID c \<noteq> highestID (reservedIDs c)
            then Inl (LastFieldIDMismatch (lastID c) (highestID (reservedIDs c)))
            else Inr c)))"

section \<open>Allocation\<close>

definition allocate :: "dataset_compiler \<Rightarrow> string \<Rightarrow> allocation_error + int \<times> dataset_compiler" where
  "allocate c identity =
     (if map_of (currentActive c) identity \<noteq> None then Inl (IdentityTwice identity)
      else case map_of (retired c) identity of
        Some r \<Rightarrow> Inl (ReusesRetired identity (rf_stable_id r))
      | None \<Rightarrow>
      (case map_of (previousActive c) identity of
        Some i \<Rightarrow> Inr (i, c\<lparr>currentActive := AList.update identity i (currentActive c)\<rparr>)
      | None \<Rightarrow>
      (case map_of (firstTopLevelIDs c) identity of
        Some i \<Rightarrow> Inr (i, c\<lparr>currentActive := AList.update identity i (currentActive c)\<rparr>)
      | None \<Rightarrow>
         if lastID c = maxStableID then Inl BeyondMaxStableID
         else
           let i = lastID c + 1 in
           case map_of (reservedIDs c) i of
             Some owner \<Rightarrow> Inl (AlreadyReserved i owner)
           | None \<Rightarrow> Inr (i, c\<lparr>lastID := i,
                 reservedIDs := AList.update i identity (reservedIDs c),
                 currentActive := AList.update identity i (currentActive c)\<rparr>))))"

text \<open>The loop of \<^verbatim>\<open>CompileMessage\<close> that reserves the top-level numbers of a first compilation;
  the error carries the field's full name.\<close>

definition reserveTopLevel ::
    "dataset_compiler \<Rightarrow> field_descriptor \<Rightarrow> (string \<times> stable_id_error) + dataset_compiler" where
  "reserveTopLevel c fd =
     (let i = fd_number fd; identity = appendIdentity [] (fieldIdentitySegment (fd_number fd)) in
      andThen (mapErr (Pair (fd_full_name fd)) (validateStableID i)) (\<lambda>_.
      Inr (c\<lparr>firstTopLevelIDs := AList.update identity i (firstTopLevelIDs c),
             reservedIDs := AList.update i identity (reservedIDs c),
             lastID := (if i > lastID c then i else lastID c)\<rparr>)))"

section \<open>Specifications\<close>

text \<open>The ledger of stable IDs: which identity owns an ID.\<close>

definition ledger :: "dataset_compiler \<Rightarrow> int \<Rightarrow> string option" where
  "ledger c = map_of (reservedIDs c)"

text \<open>Every identity the state knows owns the ID it is listed with, and every ID is in range.\<close>

definition ledger_agrees :: "dataset_compiler \<Rightarrow> bool" where
  "ledger_agrees c \<longleftrightarrow>
     (\<forall>i n. map_of (previousActive c) i = Some n \<longrightarrow> ledger c n = Some i) \<and>
     (\<forall>i n. map_of (firstTopLevelIDs c) i = Some n \<longrightarrow> ledger c n = Some i) \<and>
     (\<forall>i n. map_of (currentActive c) i = Some n \<longrightarrow> ledger c n = Some i) \<and>
     (\<forall>i r. map_of (retired c) i = Some r \<longrightarrow> rf_identity r = i \<and> ledger c (rf_stable_id r) = Some i) \<and>
     (\<forall>n i. ledger c n = Some i \<longrightarrow> 1 \<le> n \<and> n \<le> maxStableID)"

text \<open>Every ID of the ledger belongs to an identity the state knows.\<close>

definition ledger_covered :: "dataset_compiler \<Rightarrow> bool" where
  "ledger_covered c \<longleftrightarrow> (\<forall>n i. ledger c n = Some i \<longrightarrow>
     map_of (previousActive c) i = Some n \<or> map_of (firstTopLevelIDs c) i = Some n \<or>
     map_of (currentActive c) i = Some n \<or>
     (\<exists>r. map_of (retired c) i = Some r \<and> rf_stable_id r = n))"

text \<open>A tombstone is never active.\<close>

definition active_not_retired :: "dataset_compiler \<Rightarrow> bool" where
  "active_not_retired c \<longleftrightarrow>
     (\<forall>i r. map_of (retired c) i = Some r \<longrightarrow>
        map_of (previousActive c) i = None \<and> map_of (currentActive c) i = None)"

text \<open>\<^verbatim>\<open>lastID\<close> is the highest ID of the ledger, zero when there is none.\<close>

definition last_is_highest :: "dataset_compiler \<Rightarrow> bool" where
  "last_is_highest c \<longleftrightarrow> 0 \<le> lastID c \<and> lastID c \<le> maxStableID \<and>
     (\<forall>n i. ledger c n = Some i \<longrightarrow> n \<le> lastID c) \<and>
     (lastID c = 0 \<or> (\<exists>i. ledger c (lastID c) = Some i))"

text \<open>The two maps of the previous fields agree, and no identity is listed twice.\<close>

definition previous_indexed :: "dataset_compiler \<Rightarrow> bool" where
  "previous_indexed c \<longleftrightarrow>
     (\<forall>i. map_option GetStableId (map_of (previousFields c) i) = map_of (previousActive c) i) \<and>
     distinct (map fst (previousActive c)) \<and> distinct (map fst (retired c))"

text \<open>The invariant of a compiler that is ready to allocate.\<close>

definition compiler_inv :: "dataset_compiler \<Rightarrow> bool" where
  "compiler_inv c \<longleftrightarrow> ledger_agrees c \<and> ledger_covered c \<and> active_not_retired c
     \<and> last_is_highest c \<and> previous_indexed c \<and> distinct (map fst (currentActive c))"

lemmas inv_defs = compiler_inv_def ledger_agrees_def ledger_covered_def active_not_retired_def
  last_is_highest_def previous_indexed_def

text \<open>The invariant while the previous schema is read, before \<^verbatim>\<open>lastID\<close> is compared.\<close>

definition indexing_inv :: "dataset_compiler \<Rightarrow> bool" where
  "indexing_inv c \<longleftrightarrow> ledger_agrees c \<and> ledger_covered c \<and> active_not_retired c
     \<and> previous_indexed c \<and> currentActive c = [] \<and> firstTopLevelIDs c = []"

text \<open>The invariant while a first compilation reserves its top-level numbers.\<close>

definition top_level_inv :: "dataset_compiler \<Rightarrow> bool" where
  "top_level_inv c \<longleftrightarrow> compiler_inv c \<and> previousActive c = [] \<and> retired c = [] \<and> currentActive c = []
     \<and> (\<forall>n i. ledger c n = Some i \<longrightarrow> i = fieldIdentitySegment n)"

text \<open>The identity a field has below a parent, and the entries (identity and ID) of a whole field
  tree, parents before children.\<close>

definition fieldIdentity :: "string \<Rightarrow> field \<Rightarrow> string" where
  "fieldIdentity parentIdentity f = appendIdentity parentIdentity
     (case GetSyntheticRole f of
        SYNTHETIC_ROLE_LIST_ELEMENT \<Rightarrow> ''list:element''
      | SYNTHETIC_ROLE_MAP_KEY \<Rightarrow> ''map:key''
      | SYNTHETIC_ROLE_MAP_VALUE \<Rightarrow> ''map:value''
      | _ \<Rightarrow> fieldIdentitySegment (toInt32 (last (GetProtoNumberPath f))))"

function fieldEntries :: "string \<Rightarrow> field \<Rightarrow> (string \<times> int) list" where
  "fieldEntries parentIdentity (Field d t) =
     (let identity = fieldIdentity parentIdentity (Field d t) in
      (identity, stable_id d) #
      concat (map (\<lambda>c. case c of None \<Rightarrow> [] | Some g \<Rightarrow> fieldEntries identity g) (typeChildren t)))"
  by pat_completeness auto
termination
  by (relation "measure (\<lambda>(_, f). size f)") (auto simp: size_typeChildren)

declare fieldEntries.simps [simp del]

definition fieldsEntries :: "string \<Rightarrow> field option list \<Rightarrow> (string \<times> int) list" where
  "fieldsEntries identity fs =
     concat (map (\<lambda>c. case c of None \<Rightarrow> [] | Some g \<Rightarrow> fieldEntries identity g) fs)"

text \<open>The other step of a compilation: a message is entered into \<^verbatim>\<open>currentContainers\<close>.\<close>

definition enters_container :: "dataset_compiler \<Rightarrow> dataset_compiler \<Rightarrow> bool" where
  "enters_container c c' \<longleftrightarrow> c' = c\<lparr>currentContainers := currentContainers c'\<rparr>"

section \<open>Allocation keeps the ledger\<close>

lemma allocate_effect:
  assumes "allocate c i = Inr (n, c')"
  shows "currentActive c' = currentActive c @ [(i, n)]" "map_of (currentActive c) i = None"
    "map_of (retired c) i = None"
    "previousActive c' = previousActive c" "previousFields c' = previousFields c"
    "retired c' = retired c" "firstTopLevelIDs c' = firstTopLevelIDs c"
    "currentContainers c' = currentContainers c" "historicalNames c' = historicalNames c"
  using assms unfolding allocate_def
  by (auto simp: Let_def update_new_map_of split: if_splits option.splits)

lemma allocate_cases:
  assumes "allocate c i = Inr (n, c')"
  obtains (retained) "map_of (previousActive c) i = Some n \<or> map_of (firstTopLevelIDs c) i = Some n"
      "reservedIDs c' = reservedIDs c" "lastID c' = lastID c"
  | (fresh) "map_of (previousActive c) i = None" "map_of (firstTopLevelIDs c) i = None"
      "n = lastID c + 1" "lastID c \<noteq> maxStableID"
      "ledger c n = None" "ledger c' = (ledger c)(n \<mapsto> i)" "lastID c' = n"
  using assms unfolding allocate_def
  by (auto simp: Let_def update_conv' ledger_def split: if_splits option.splits)

lemma allocate_map_of:
  "allocate c i = Inr (n, c') \<Longrightarrow> map_of (currentActive c') = (map_of (currentActive c))(i \<mapsto> n)"
  using allocate_effect(1,2) [of c i n c'] map_of_snoc [of "currentActive c" i n] by metis

lemma allocate_distinct:
  "allocate c i = Inr (n, c') \<Longrightarrow> distinct (map fst (currentActive c)) \<Longrightarrow>
     distinct (map fst (currentActive c'))"
  using allocate_effect(1,2) [of c i n c'] by (simp add: map_of_eq_None_iff)

lemma compiler_invD:
  assumes "compiler_inv c"
  shows "ledger_agrees c" "ledger_covered c" "active_not_retired c" "last_is_highest c"
    "previous_indexed c" "distinct (map fst (currentActive c))"
  using assms by (auto simp: compiler_inv_def)

lemma allocate_owner:
  assumes inv: "compiler_inv c" and alloc: "allocate c i = Inr (n, c')"
  shows "ledger c' n = Some i \<and> ledger c \<subseteq>\<^sub>m ledger c'"
  using alloc
proof (cases rule: allocate_cases)
  case retained
  then have "ledger c' = ledger c" by (simp add: ledger_def)
  with retained(1) compiler_invD(1) [OF inv] show ?thesis
    by (auto simp: ledger_agrees_def)
next
  case fresh
  then show ?thesis by (auto simp: map_le_def)
qed

lemma allocate_inv:
  assumes inv: "compiler_inv c" and alloc: "allocate c i = Inr (n, c')"
  shows "compiler_inv c'"
proof -
  note old = compiler_invD [OF inv] and own = conjunct1 [OF allocate_owner [OF inv alloc]] conjunct2 [OF allocate_owner [OF inv alloc]]
  note eff = allocate_map_of [OF alloc] allocate_effect(2-7) [OF alloc]
  have keep: "ledger c' m = Some j" if "ledger c m = Some j" for m j
    using own(2) that by (metis domI map_le_def)
  have led: "ledger c m = Some j \<or> m = n \<and> j = i" if "ledger c' m = Some j" for m j
    using alloc that by (cases rule: allocate_cases) (auto simp: ledger_def split: if_splits)
  have range: "1 \<le> n \<and> n \<le> maxStableID \<and> n \<le> lastID c' \<and> lastID c \<le> lastID c'
      \<and> (lastID c' = lastID c \<or> lastID c' = n)"
    using alloc
  proof (cases rule: allocate_cases)
    case retained
    with own(1) old(1,4) show ?thesis
      by (auto simp: ledger_agrees_def last_is_highest_def ledger_def)
  next
    case fresh
    with old(4) show ?thesis by (auto simp: last_is_highest_def)
  qed
  have "ledger_agrees c'"
    using old(1) own(1) eff range unfolding ledger_agrees_def by (auto dest!: led intro: keep)
  moreover have "ledger_covered c'"
    unfolding ledger_covered_def
  proof (intro allI impI)
    fix m j
    assume "ledger c' m = Some j"
    from led [OF this] old(2) [unfolded ledger_covered_def, rule_format, of m j] eff
    show "map_of (previousActive c') j = Some m \<or> map_of (firstTopLevelIDs c') j = Some m \<or>
      map_of (currentActive c') j = Some m \<or>
      (\<exists>r. map_of (retired c') j = Some r \<and> rf_stable_id r = m)"
      by (cases "j = i") auto
  qed
  moreover have "active_not_retired c'" "previous_indexed c'"
    using old(3,5) eff by (auto simp: active_not_retired_def previous_indexed_def)
  moreover have "last_is_highest c'"
  proof -
    have "m \<le> lastID c'" if "ledger c' m = Some j" for m j
      using led [OF that] old(4) [unfolded last_is_highest_def] range order_trans by blast
    moreover have "lastID c' = 0 \<or> (\<exists>j. ledger c' (lastID c') = Some j)"
      using old(4) [unfolded last_is_highest_def] own(1) range keep by metis
    ultimately show ?thesis
      using old(4) range unfolding last_is_highest_def by (metis order_trans)
  qed
  ultimately show ?thesis using old(6) allocate_distinct [OF alloc] by (simp add: compiler_inv_def)
qed

lemma allocate_never_reserved:
  "compiler_inv c \<Longrightarrow> allocate c i \<noteq> Inl (AlreadyReserved n own)"
  using compiler_invD(4) [of c]
  by (auto simp: allocate_def Let_def last_is_highest_def ledger_def split: if_splits option.splits)

section \<open>Entries of a field tree\<close>

lemma fieldEntries_eq:
  "fieldEntries p f = (fieldIdentity p f, GetStableId f) # fieldsEntries (fieldIdentity p f) (typeChildren (GetType f))"
  by (cases f) (simp add: fieldEntries.simps fieldsEntries_def Let_def)

lemma fieldsEntries_simps [simp]:
  "fieldsEntries p [] = []"
  "fieldsEntries p (None # fs) = fieldsEntries p fs"
  "fieldsEntries p (Some f # fs) = fieldEntries p f @ fieldsEntries p fs"
  by (simp_all add: fieldsEntries_def)

lemma fieldsEntries_append [simp]: "fieldsEntries p (fs @ gs) = fieldsEntries p fs @ fieldsEntries p gs"
  by (simp add: fieldsEntries_def)

lemma fieldsEntries_ids_aux:
  "(\<And>f. Some f \<in> set fs \<Longrightarrow> map snd (fieldEntries p f) = fieldIDs f) \<Longrightarrow>
   map snd (fieldsEntries p fs) = fieldsIDs fs"
proof (induction fs)
  case (Cons f fs)
  then show ?case by (cases f) simp_all
qed simp

lemma fieldEntries_ids [simp]: "map snd (fieldEntries p f) = fieldIDs f"
proof (induction f arbitrary: p rule: field_tree_induct)
  case (Field d t)
  then show ?case by (simp add: fieldEntries_eq fieldIDs_eq fieldsEntries_ids_aux)
qed

lemma fieldsEntries_ids [simp]: "map snd (fieldsEntries p fs) = fieldsIDs fs"
  by (rule fieldsEntries_ids_aux) simp

lemma registerHistoricalName_effect:
  "registerHistoricalName c i name = Inr c' \<Longrightarrow>
     c' = c\<lparr>historicalNames := AList.update (parentCompilerIdentity i, name) i (historicalNames c)\<rparr> \<and>
     map_of (historicalNames c) (parentCompilerIdentity i, name) \<in> {None, Some i}"
  by (auto simp: registerHistoricalName_def Let_def split: option.splits if_splits)

lemma indexRetiredField_effect:
  assumes "indexRetiredField E c rf = Inr c'"
  obtains r where "rf = Some r" "map_of (retired c) (rf_identity r) = None"
    "ledger c (rf_stable_id r) = None" "1 \<le> rf_stable_id r" "rf_stable_id r \<le> maxStableID"
    "validateCompilerOwnedName E (rf_identity r) (rf_proto_full_name r) (rf_name r)
       (rf_storage_name_source r) = Inr ()"
    "retired c' = retired c @ [(rf_identity r, r)]"
    "ledger c' = (ledger c)(rf_stable_id r \<mapsto> rf_identity r)"
    "previousActive c' = previousActive c" "previousFields c' = previousFields c"
    "currentActive c' = currentActive c" "firstTopLevelIDs c' = firstTopLevelIDs c"
    "currentContainers c' = currentContainers c" "lastID c' = lastID c"
    "historicalNames c' = AList.update (parentCompilerIdentity (rf_identity r), rf_name r)
       (rf_identity r) (historicalNames c)"
    "map_of (historicalNames c) (parentCompilerIdentity (rf_identity r), rf_name r) \<in> {None, Some (rf_identity r)}"
  using assms unfolding indexRetiredField_def
  by (auto simp: andThen_eq_Inr validateStableID_def update_conv' ledger_def update_new_map_of
      split: option.splits if_splits dest!: registerHistoricalName_effect)

lemma indexPreviousEntry_effect:
  assumes "indexPreviousEntry E c f i = Inr c'"
  shows "map_of (retired c) i = None" "map_of (previousActive c) i = None"
    "ledger c (GetStableId f) = None" "1 \<le> GetStableId f" "GetStableId f \<le> maxStableID"
    "validateCompilerOwnedName E i (GetProtoFullName f) (GetName f) (storage_name_source (data f)) = Inr ()"
    "previousActive c' = previousActive c @ [(i, GetStableId f)]"
    "map_of (previousFields c') = (map_of (previousFields c))(i \<mapsto> f)"
    "ledger c' = (ledger c)(GetStableId f \<mapsto> i)" "retired c' = retired c"
    "currentActive c' = currentActive c" "firstTopLevelIDs c' = firstTopLevelIDs c"
    "currentContainers c' = currentContainers c" "lastID c' = lastID c"
    "historicalNames c' = AList.update (parentCompilerIdentity i, GetName f) i (historicalNames c)"
    "map_of (historicalNames c) (parentCompilerIdentity i, GetName f) \<in> {None, Some i}"
  using assms unfolding indexPreviousEntry_def
  by (auto simp: andThen_eq_Inr validateStableID_def update_conv' ledger_def update_new_map_of
      split: option.splits if_splits dest!: registerHistoricalName_effect)

lemma indexRetiredField_inv:
  assumes "indexing_inv c \<and> previousActive c = []" "indexRetiredField E c rf = Inr c'"
  shows "indexing_inv c' \<and> previousActive c' = []"
  using assms(2)
proof (cases rule: indexRetiredField_effect)
  case (1 r)
  note ret = map_of_snoc [OF 1(2), of r]
  have free: "ledger c m = Some j \<Longrightarrow> m \<noteq> rf_stable_id r" for m j using 1(3) by auto
  from assms(1) have old: "ledger_agrees c" "ledger_covered c" "previous_indexed c"
    "currentActive c = []" "firstTopLevelIDs c = []" "previousActive c = []"
    by (auto simp: indexing_inv_def)
  have "ledger_agrees c'"
    using old 1(4,5,7-12) ret free unfolding ledger_agrees_def by (auto split: if_splits)
  moreover have "ledger_covered c'"
    using old 1(2,8-12) ret unfolding ledger_covered_def 1(7) by (auto split: if_splits) (metis option.distinct(1))+
  moreover have "distinct (map fst (retired c'))"
    using old(3) 1(2,7) by (simp add: previous_indexed_def map_of_eq_None_iff)
  ultimately show ?thesis using old 1(9-12)
    by (auto simp: indexing_inv_def active_not_retired_def previous_indexed_def)
qed

lemma indexPreviousEntry_inv:
  assumes "indexing_inv c" and entry: "indexPreviousEntry E c f i = Inr c'"
  shows "indexing_inv c'"
proof -
  note eff = indexPreviousEntry_effect [OF entry]
  note act = map_of_snoc [OF eff(2), of "GetStableId f"]
  have free: "ledger c m = Some j \<Longrightarrow> m \<noteq> GetStableId f" for m j using eff(3) by auto
  from assms(1) have old: "ledger_agrees c" "ledger_covered c" "active_not_retired c" "previous_indexed c"
    "currentActive c = []" "firstTopLevelIDs c = []"
    by (auto simp: indexing_inv_def)
  have "ledger_agrees c'"
    using old eff(4,5,7,9-12) act free unfolding ledger_agrees_def by (auto split: if_splits)
  moreover have "ledger_covered c'"
    using old(2,5,6) eff(2,9-12) act unfolding ledger_covered_def eff(7) by (auto split: if_splits) (metis option.distinct(1))+
  moreover have "active_not_retired c'"
    using old(3,5) eff(1,10,11) act unfolding active_not_retired_def eff(7) by (auto split: if_splits)
  moreover have "distinct (map fst (previousActive c'))"
    using old(4) eff(2,7) by (simp add: previous_indexed_def map_of_eq_None_iff)
  then have "previous_indexed c'"
    using old(4) eff(8,10) act unfolding previous_indexed_def eff(7) by simp
  ultimately show ?thesis using old eff by (simp add: indexing_inv_def)
qed

lemma indexPreviousField_invariant:
  assumes step: "\<And>c f i c'. I c \<Longrightarrow> indexPreviousEntry E c f i = Inr c' \<Longrightarrow> I c'"
  shows "I c \<Longrightarrow> indexPreviousField E c f path i role = Inr c' \<Longrightarrow> I c'"
proof (induction E\<equiv>E c f path i role arbitrary: c' rule: indexPreviousField.induct)
  case (2 c f path i role)
  from 2(3) obtain i' c1 cs where id: "previousIdentity f path i role = Inr i'"
    and entry: "indexPreviousEntry E c f i' = Inr c1" and cs: "previousChildren f = Inr cs"
    and fold: "foldE (\<lambda>c (child, role). indexPreviousField E c child (GetProtoNumberPath f) i' role) c1 cs = Inr c'"
    by (auto simp: indexPreviousField.simps andThen_eq_Inr)
  have "I c1" using step [OF 2(2) entry] .
  show ?case
  proof (rule foldE_invariant [OF fold, of I, OF \<open>I c1\<close>])
    fix s x s'
    assume x: "x \<in> set cs" and "I s"
      and run: "(\<lambda>(child, role). indexPreviousField E s child (GetProtoNumberPath f) i' role) x = Inr s'"
    obtain child r where "x = (child, r)" by (cases x)
    with x run \<open>I s\<close> show "I s'" using 2(1) [OF id entry cs x] by auto
  qed
qed (simp add: indexPreviousField.simps)


lemma previousIdentity_eq:
  "previousIdentity f path i role = Inr i' \<Longrightarrow> i' = fieldIdentity i f \<and> GetSyntheticRole f = role"
proof -
  have "length xs = Suc n \<Longrightarrow> last xs = xs ! n" for xs :: "nat list" and n
    by (metis Zero_not_Suc diff_Suc_1 last_conv_nth list.size(3))
  then show "previousIdentity f path i role = Inr i' \<Longrightarrow> i' = fieldIdentity i f \<and> GetSyntheticRole f = role"
    by (auto simp: previousIdentity_def fieldIdentity_def Let_def split: if_splits synthetic_role.splits)
qed

lemma previousChildren_entries:
  "previousChildren f = Inr cs \<Longrightarrow> fieldsEntries i (map fst cs) = fieldsEntries i (typeChildren (GetType f))"
  by (auto simp: previousChildren_def typeChildren_def kindChildren_def getter_defs comp_def
      split: option.splits data_type.splits type_kind.splits if_splits)

lemma indexPreviousField_entries:
  "indexPreviousField E c f path i role = Inr c' \<Longrightarrow>
   previousActive c' = previousActive c @ fieldsEntries i [f]"
proof (induction E c f path i role arbitrary: c' rule: indexPreviousField.induct)
  case (2 E c f path i role)
  from 2(2) obtain i' c1 cs where id: "previousIdentity f path i role = Inr i'"
    and entry: "indexPreviousEntry E c f i' = Inr c1" and cs: "previousChildren f = Inr cs"
    and fold: "foldE (\<lambda>c (child, role). indexPreviousField E c child (GetProtoNumberPath f) i' role) c1 cs = Inr c'"
    by (auto simp: indexPreviousField.simps andThen_eq_Inr)
  have "previousActive c' = previousActive c1 @ concat (map (\<lambda>x. fieldsEntries i' [fst x]) cs)"
    by (rule foldE_appends [OF fold]) (use 2(1) [OF id entry cs] in auto)
  also have "concat (map (\<lambda>x. fieldsEntries i' [fst x]) cs) = fieldsEntries i' (map fst cs)"
    by (induction cs) (auto simp: fieldsEntries_def)
  finally show ?case
    using previousIdentity_eq [OF id] indexPreviousEntry_effect(7) [OF entry]
      previousChildren_entries [OF cs, of i']
    by (simp add: fieldEntries_eq)
qed (simp add: indexPreviousField.simps)

lemma highestID_ge: "i \<in> fst ` set ids \<Longrightarrow> i \<le> highestID ids"
  and highestID_nonneg: "0 \<le> highestID ids"
  and highestID_in: "highestID ids = 0 \<or> highestID ids \<in> fst ` set ids"
proof -
  define h where "h = (\<lambda>highest (i, _ :: string). if i > highest then i else highest :: int)"
  have mono: "m \<le> foldl h m ids" for m and ids :: "(int \<times> string) list"
  proof (induction ids arbitrary: m)
    case (Cons x ids)
    have "m \<le> h m x" by (cases x) (simp add: h_def)
    with Cons [of "h m x"] show ?case by simp
  qed simp
  have ge: "i \<in> fst ` set ids \<Longrightarrow> i \<le> foldl h m ids" for i m and ids :: "(int \<times> string) list"
  proof (induction ids arbitrary: m)
    case (Cons x ids)
    then show ?case using mono [of "h m x" ids] by (cases x) (auto simp: h_def split: if_splits)
  qed simp
  have mem: "foldl h m ids = m \<or> foldl h m ids \<in> fst ` set ids" for m and ids :: "(int \<times> string) list"
  proof (induction ids arbitrary: m)
    case (Cons x ids)
    then show ?case using Cons.IH [of "h m x"] by (cases x) (auto simp: h_def split: if_splits)
  qed simp
  have eq: "highestID = foldl h 0" by (simp add: highestID_def h_def fun_eq_iff)
  show "i \<in> fst ` set ids \<Longrightarrow> i \<le> highestID ids" "0 \<le> highestID ids"
    "highestID ids = 0 \<or> highestID ids \<in> fst ` set ids"
    using ge mono mem unfolding eq by auto
qed

lemma indexing_inv_start:
  "indexing_inv ((emptyCompiler md)\<lparr>lastID := n\<rparr>) \<and> previousActive ((emptyCompiler md)\<lparr>lastID := n\<rparr>) = []"
  by (simp add: indexing_inv_def emptyCompiler_def ledger_agrees_def ledger_covered_def ledger_def
      active_not_retired_def previous_indexed_def)

lemma foldE_indexRetired_inv:
  assumes "foldE (indexRetiredField E) c rs = Inr c'" "indexing_inv c \<and> previousActive c = []"
  shows "indexing_inv c' \<and> previousActive c' = []"
  by (rule foldE_invariant [where I = "\<lambda>c. indexing_inv c \<and> previousActive c = []", OF assms])
    (rule indexRetiredField_inv)

lemma foldE_indexPrevious_inv:
  assumes "foldE (\<lambda>c f. indexPreviousField E c f path i role) c fs = Inr c'" "indexing_inv c"
  shows "indexing_inv c'"
  by (rule foldE_invariant [where I = indexing_inv, OF assms])
    (rule indexPreviousField_invariant [where I = indexing_inv, OF indexPreviousEntry_inv])

lemma indexRetiredField_frame:
  "indexRetiredField E c rf = Inr c' \<Longrightarrow> lastID c' = lastID c \<and> currentContainers c' = currentContainers c
     \<and> retired c' = retired c @ (case rf of None \<Rightarrow> [] | Some r \<Rightarrow> [(rf_identity r, r)])"
  by (erule indexRetiredField_effect) simp

lemma newDatasetCompiler_cases:
  assumes "newDatasetCompiler E md (Some p) = Inr c"
  obtains c0 c1 where
    "source_message p = md_full_name md" "ds_name p = storageName (md_full_name md)"
    "0 \<le> last_field_id p" "last_field_id p \<le> maxStableID"
    "c0 = (emptyCompiler md)\<lparr>lastID := last_field_id p\<rparr>"
    "foldE (indexRetiredField E) c0 (retired_fields p) = Inr c1"
    "foldE (\<lambda>c f. indexPreviousField E c f [] [] SYNTHETIC_ROLE_PROTO_FIELD) c1 (ds_fields p) = Inr c"
    "lastID c = highestID (reservedIDs c)"
  using assms unfolding newDatasetCompiler_def
  by (auto simp: Let_def andThen_eq_Inr split: if_splits)

lemma compiler_inv_empty: "compiler_inv (emptyCompiler md)"
  by (auto simp: compiler_inv_def emptyCompiler_def ledger_agrees_def ledger_covered_def ledger_def
      active_not_retired_def previous_indexed_def last_is_highest_def maxStableID_def)

lemma newDatasetCompiler_inv:
  assumes "newDatasetCompiler E md previous = Inr c"
  shows "compiler_inv c"
proof (cases previous)
  case None
  with assms compiler_inv_empty [of md] show ?thesis by (simp add: newDatasetCompiler_def)
next
  case (Some p)
  from assms [unfolded Some] show ?thesis
  proof (cases rule: newDatasetCompiler_cases)
    case (1 c0 c1)
    have "indexing_inv c0 \<and> previousActive c0 = []" unfolding 1(5) by (rule indexing_inv_start)
    with 1(6) have "indexing_inv c1" by (blast dest: foldE_indexRetired_inv)
    with 1(7) have ind: "indexing_inv c" by (blast dest: foldE_indexPrevious_inv)
    have last: "lastID c = 0 \<or> (\<exists>i. ledger c (lastID c) = Some i)"
      using highestID_in [of "reservedIDs c"] unfolding 1(8) ledger_def
      by (metis map_of_eq_None_iff not_None_eq)
    have "n \<le> lastID c" if "ledger c n = Some i" for n i
      using that highestID_ge [of n "reservedIDs c"] unfolding 1(8) ledger_def
      by (metis map_of_eq_None_iff option.distinct(1))
    moreover have "lastID c \<le> maxStableID"
      using last ind by (auto simp: indexing_inv_def ledger_agrees_def maxStableID_def)
    ultimately have "last_is_highest c"
      using last highestID_nonneg [of "reservedIDs c"] 1(8) by (simp add: last_is_highest_def)
    with ind show ?thesis by (simp add: compiler_inv_def indexing_inv_def)
  qed
qed


lemma newDatasetCompiler_previous:
  assumes "newDatasetCompiler E md (Some p) = Inr c"
  shows "previousActive c = fieldsEntries [] (ds_fields p) \<and>
    retired c = map (\<lambda>r. (rf_identity r, r)) (List.map_filter (\<lambda>r. r) (retired_fields p)) \<and>
    currentActive c = [] \<and> firstTopLevelIDs c = [] \<and> currentContainers c = [([], md)] \<and>
    lastID c = last_field_id p"
  using assms
proof (cases rule: newDatasetCompiler_cases)
  case (1 c0 c1)
  define F where "F c \<longleftrightarrow> currentActive c = [] \<and> firstTopLevelIDs c = [] \<and>
      currentContainers c = [([], md)] \<and> lastID c = last_field_id p" for c :: dataset_compiler
  have c0: "previousActive c0 = [] \<and> F c0" "retired c0 = []"
    by (simp_all add: F_def 1(5) emptyCompiler_def)
  have c1: "previousActive c1 = [] \<and> F c1"
    by (rule foldE_invariant [where I = "\<lambda>c. previousActive c = [] \<and> F c", OF 1(6) c0(1)])
      (erule indexRetiredField_effect, simp add: F_def)
  have "retired c1 = retired c0 @ concat (map (\<lambda>rf. case rf of None \<Rightarrow> [] | Some r \<Rightarrow> [(rf_identity r, r)]) (retired_fields p))"
    by (rule foldE_appends [OF 1(6)]) (simp add: indexRetiredField_frame)
  also have "concat (map (\<lambda>rf. case rf of None \<Rightarrow> [] | Some r \<Rightarrow> [(rf_identity r, r)]) rs)
    = map (\<lambda>r. (rf_identity r, r)) (List.map_filter (\<lambda>r. r) rs)" for rs
    by (induction rs) (auto simp: map_filter_simps split: option.splits)
  finally have ret: "retired c1 = map (\<lambda>r. (rf_identity r, r)) (List.map_filter (\<lambda>r. r) (retired_fields p))"
    using c0 by simp
  have step: "retired c'' = retired c1 \<and> F c''"
    if "retired c' = retired c1 \<and> F c'" "indexPreviousEntry E c' f i = Inr c''" for c' c'' f i
    using that by (simp add: F_def indexPreviousEntry_effect)
  have frame: "retired c = retired c1 \<and> F c"
    by (rule foldE_invariant [where I = "\<lambda>c. retired c = retired c1 \<and> F c", OF 1(7)])
      (use c1 in simp, rule indexPreviousField_invariant [where I = "\<lambda>c. retired c = retired c1 \<and> F c", OF step])
  have "previousActive c = previousActive c1 @ concat (map (\<lambda>f. fieldsEntries [] [f]) (ds_fields p))"
    by (rule foldE_appends [OF 1(7)]) (rule indexPreviousField_entries)
  also have "concat (map (\<lambda>f. fieldsEntries [] [f]) (ds_fields p)) = fieldsEntries [] (ds_fields p)"
    by (simp add: fieldsEntries_def comp_def)
  finally show ?thesis using ret frame c1 by (simp add: F_def)
qed

lemma reserveTopLevel_inv:
  assumes "top_level_inv c" and run: "reserveTopLevel c fd = Inr c'"
  shows "top_level_inv c'"
proof -
  define n where "n = fd_number fd"
  let ?i = "fieldIdentitySegment n"
  from run have n: "1 \<le> n" "n \<le> maxStableID"
    and first: "map_of (firstTopLevelIDs c') = (map_of (firstTopLevelIDs c))(?i \<mapsto> n)"
    and led: "ledger c' = (ledger c)(n \<mapsto> ?i)"
    and last: "lastID c' = max (lastID c) n"
    and frame: "previousActive c' = previousActive c" "previousFields c' = previousFields c"
      "retired c' = retired c" "currentActive c' = currentActive c"
    by (auto simp: reserveTopLevel_def Let_def andThen_eq_Inr validateStableID_def n_def update_conv'
      ledger_def appendIdentity_def max_def split: if_splits)
  from assms(1) have old: "ledger_agrees c" "ledger_covered c" "last_is_highest c" "previous_indexed c"
    "previousActive c = []" "retired c = []" "currentActive c = []"
    "\<And>m i. ledger c m = Some i \<Longrightarrow> i = fieldIdentitySegment m"
    by (auto simp: top_level_inv_def compiler_inv_def)
  have inj: "fieldIdentitySegment m = ?i \<longleftrightarrow> m = n" if "1 \<le> m" for m
    using that n by (simp add: fieldIdentitySegment_def)
  have "ledger c' m = Some i" if "map_of (firstTopLevelIDs c') i = Some m" for i m
  proof (cases "i = ?i")
    case True
    with that show ?thesis by (simp add: first led)
  next
    case False
    with that have "ledger c m = Some i" using old(1) by (simp add: first ledger_agrees_def)
    with False old(8) [of m i] show ?thesis by (auto simp: led)
  qed
  moreover have "1 \<le> m \<and> m \<le> maxStableID" if "ledger c' m = Some i" for i m
    using that n old(1) by (auto simp: led ledger_agrees_def split: if_splits)
  ultimately have "ledger_agrees c'" using old(5-7) frame by (simp add: ledger_agrees_def)
  moreover have "ledger_covered c'"
    unfolding ledger_covered_def
  proof (intro allI impI)
    fix m j
    assume "ledger c' m = Some j"
    then consider "m = n" "j = ?i" | "m \<noteq> n" "ledger c m = Some j"
      unfolding led by (auto split: if_splits)
    then have "map_of (firstTopLevelIDs c') j = Some m"
    proof cases
      case 2
      have "1 \<le> m" using old(1) 2(2) by (auto simp: ledger_agrees_def)
      with 2(1) inj [of m] old(8) [OF 2(2)] have "j \<noteq> ?i" by simp
      moreover have "map_of (firstTopLevelIDs c) j = Some m"
        using old(2) [unfolded ledger_covered_def, rule_format, OF 2(2)] old(5-7) by simp
      ultimately show ?thesis by (simp add: first)
    qed (simp add: first)
    then show "map_of (previousActive c') j = Some m \<or> map_of (firstTopLevelIDs c') j = Some m \<or>
      map_of (currentActive c') j = Some m \<or>
      (\<exists>r. map_of (retired c') j = Some r \<and> rf_stable_id r = m)" by simp
  qed
  moreover have "last_is_highest c'"
    using old(3) n unfolding last_is_highest_def led last by (auto simp: max_def)
  moreover have "active_not_retired c'" "previous_indexed c'"
    using old frame by (auto simp: active_not_retired_def previous_indexed_def)
  ultimately show ?thesis
    using old frame led by (auto simp: top_level_inv_def compiler_inv_def)
qed

section \<open>Runs of the allocator\<close>

lemma enters_container_simps:
  assumes "enters_container c c'"
  shows "previousActive c' = previousActive c" "previousFields c' = previousFields c"
    "retired c' = retired c" "currentActive c' = currentActive c"
    "historicalNames c' = historicalNames c" "reservedIDs c' = reservedIDs c"
    "firstTopLevelIDs c' = firstTopLevelIDs c" "lastID c' = lastID c"
  by (subst assms [unfolded enters_container_def], simp)+

lemma enters_container_inv:
  assumes "compiler_inv c" and "enters_container c c'"
  shows "compiler_inv c'"
  using assms(1) unfolding inv_defs ledger_def enters_container_simps [OF assms(2)] .

interpretation ids: stable_ids compiler_inv ledger currentActive allocate enters_container
proof (unfold_locales, goal_cases)
  case (1 c k n c') then show ?case by (rule allocate_inv)
next
  case (2 c k n c') then show ?case by (rule allocate_owner)
next
  case (3 c k n c') then show ?case by (rule allocate_effect)
next
  case (4 c) then show ?case by (rule compiler_invD)
next
  case (5 c k n) then show ?case
    using compiler_invD(1,6) [OF 5(1)] by (simp add: ledger_agrees_def)
next
  case (6 c c') then show ?case by (rule enters_container_inv)
next
  case (7 c c') then show ?case by (simp add: enters_container_simps ledger_def)
next
  case (8 c c') then show ?case by (rule enters_container_simps)
qed

lemma run_frame:
  "ids.run c es c' \<Longrightarrow> previousActive c' = previousActive c \<and> previousFields c' = previousFields c
     \<and> retired c' = retired c \<and> historicalNames c' = historicalNames c
     \<and> firstTopLevelIDs c' = firstTopLevelIDs c"
  by (induction rule: ids.run.induct) (simp_all add: enters_container_simps allocate_effect)

lemma run_last: "ids.run c es c' \<Longrightarrow> lastID c \<le> lastID c'"
proof (induction rule: ids.run.induct)
  case (alloc_step c k n c1 es c2)
  from alloc_step(1) have "lastID c \<le> lastID c1" by (cases rule: allocate_cases) simp_all
  with alloc_step show ?case by simp
qed (simp_all add: enters_container_simps)

lemma run_retained:
  "ids.run c es c' \<Longrightarrow> (i, n) \<in> set es \<Longrightarrow> map_of (previousActive c) i = Some m \<Longrightarrow> n = m"
proof (induction rule: ids.run.induct)
  case (alloc_step c k m' c1 es c2)
  from alloc_step(1) have "k = i \<Longrightarrow> m' = m"
    using alloc_step.prems(2) by (auto simp: allocate_def Let_def split: if_splits option.splits)
  with alloc_step show ?case by (auto simp: allocate_effect)
qed (simp_all add: enters_container_simps)

lemma run_not_retired:
  "ids.run c es c' \<Longrightarrow> (i, n) \<in> set es \<Longrightarrow> map_of (retired c) i = None"
  by (induction rule: ids.run.induct) (auto simp: enters_container_simps allocate_effect)

lemma run_fresh:
  "ids.run c es c' \<Longrightarrow> (i, n) \<in> set es \<Longrightarrow> map_of (previousActive c) i = None \<Longrightarrow>
   map_of (firstTopLevelIDs c) i = None \<Longrightarrow> lastID c < n"
proof (induction rule: ids.run.induct)
  case (alloc_step c k m c1 es c2)
  have "lastID c \<le> lastID c1" "k = i \<Longrightarrow> lastID c < m"
    using alloc_step(1) alloc_step.prems(2,3) by (cases rule: allocate_cases; auto)+
  with alloc_step show ?case by (auto simp: allocate_effect)
qed (simp_all add: enters_container_simps)

lemma run_first:
  "ids.run c es c' \<Longrightarrow> (i, n) \<in> set es \<Longrightarrow> map_of (previousActive c) i = None \<Longrightarrow>
   map_of (firstTopLevelIDs c) i = Some m \<Longrightarrow> n = m"
proof (induction rule: ids.run.induct)
  case (alloc_step c k m' c1 es c2)
  from alloc_step(1) have "k = i \<Longrightarrow> m' = m"
    using alloc_step.prems(2,3) by (auto simp: allocate_def Let_def split: if_splits option.splits)
  with alloc_step show ?case by (auto simp: allocate_effect)
qed (simp_all add: enters_container_simps)

end
