(* ===== verification/Compiler.thy ===== *)
theory Compiler
  imports Compiler_State
begin

text \<open>
  The compilation of one message (\<^verbatim>\<open>go/data/compiler.go\<close>): \<^verbatim>\<open>compileProtoField\<close> and the functions
  it calls, and \<^verbatim>\<open>CompileMessage\<close>. The Go methods recurse through the members of nested messages;
  here each takes the function that compiles the members of a message as its argument
  \<open>members\<close>, and \<open>compileMembers\<close> ties the knot with fuel. Each level of nesting adds a
  message to the stack and a message on the stack is rejected, so the number of messages bounds
  the depth; the theorems below show that the fuel chosen in \<open>CompileMessage\<close> never runs out.
\<close>

definition maxFixedBytesLength :: int where
  "maxFixedBytesLength = 2147483647"

definition maxFixedListLength :: int where
  "maxFixedListLength = 2147483647"

section \<open>Errors\<close>

datatype option_error =
    UnexpectedOptionType string
  | UnknownOptionField unknown_field_error

datatype refinement_error =
    DecimalCarrier proto_kind | DecimalMissing | DecimalPrecision nat | DecimalScale nat nat
  | UuidCarrier proto_kind | UuidMissing
  | FixedBytesCarrier proto_kind | FixedBytesMissing | FixedBytesZero | FixedBytesTooLong nat
  | NoSemanticType | UnsupportedSemanticType
  | FixedListNotRepeated | FixedListWithSemanticType | FixedListCarrier proto_kind
  | FixedListZero | FixedListTooLong nat
  | RefinedPresence presence | RefinedDefault | RefinedMap

datatype evolution_error =
    PresenceChanged int | OneofChanged int | DefaultChanged int | ShapeChanged int

datatype rename_error =
    PreviousFullName name_error
  | NotInContainer string string
  | RenameNotReserved string string
  | SourceNotReserved string
  | NameOwned string string string

datatype collision_error =
    NormalizesToEmpty string string
  | NamesCollide string string string string

datatype field_error =
    InField string field_error
  | ListElement field_error
  | MapKey field_error
  | MapValue field_error
  | Allocation allocation_error
  | Rename rename_error
  | Options option_error
  | Refinement refinement_error
  | Evolution evolution_error
  | Collision collision_error
  | MessageMissing
  | ExtensionRanges string
  | RecursiveMessage string
  | UnsupportedKind proto_kind
  | OutOfFuel

datatype reservation_error =
    RetiredIdentity string identity_error
  | RetiredFullName string name_error
  | RetiredOutside string string string
  | NumberNotReserved string int string
  | NameNotReserved string string string
  | OriginalNotReserved string string string

datatype message_error =
    NilDescriptor
  | MapEntryDataset string
  | EmptyDatasetName string
  | DatasetExtensions string string
  | PreviousSchema string previous_error
  | TopLevelNumber string "string \<times> stable_id_error"
  | FieldFailed string field_error
  | TopLevelCollision string collision_error
  | Reservation string reservation_error

type_synonym members_compiler =
  "dataset_compiler \<Rightarrow> field_descriptor list \<Rightarrow> nat list \<Rightarrow> string \<Rightarrow> string list
   \<Rightarrow> field_error + field list \<times> dataset_compiler"

section \<open>Helpers\<close>

definition descriptorComment :: "source_location \<Rightarrow> string" where
  "descriptorComment location =
     (let comment = TrimSpace (LeadingComments location) in
      if comment \<noteq> [] then comment else TrimSpace (TrailingComments location))"

definition sortedFields :: "field_descriptor list \<Rightarrow> field_descriptor list" where
  "sortedFields flds = sort_key fd_number flds"

definition rejectExtensionRanges :: "message_descriptor \<Rightarrow> string + unit" where
  "rejectExtensionRanges md =
     (if md_extension_ranges md = 0 then Inr () else Inl (md_full_name md))"

definition fieldPresence :: "field_descriptor \<Rightarrow> presence \<times> bool \<times> string" where
  "fieldPresence fd =
     (if fd_is_map fd then (PRESENCE_MAP, False, [])
      else if fd_is_list fd then (PRESENCE_REPEATED, False, [])
      else if fd_required fd then (PRESENCE_REQUIRED, False, [])
      else case fd_containing_oneof fd of
        Some (name, False) \<Rightarrow> (PRESENCE_ONEOF, True, name)
      | _ \<Rightarrow>
          if fd_has_presence fd then (PRESENCE_EXPLICIT, True, [])
          else (PRESENCE_IMPLICIT, False, []))"

fun primitiveKind :: "proto_kind \<Rightarrow> primitive_kind option" where
  "primitiveKind DoubleKind = Some PRIMITIVE_KIND_DOUBLE"
| "primitiveKind FloatKind = Some PRIMITIVE_KIND_FLOAT"
| "primitiveKind Int64Kind = Some PRIMITIVE_KIND_INT64"
| "primitiveKind Uint64Kind = Some PRIMITIVE_KIND_UINT64"
| "primitiveKind Int32Kind = Some PRIMITIVE_KIND_INT32"
| "primitiveKind Fixed64Kind = Some PRIMITIVE_KIND_FIXED64"
| "primitiveKind Fixed32Kind = Some PRIMITIVE_KIND_FIXED32"
| "primitiveKind BoolKind = Some PRIMITIVE_KIND_BOOL"
| "primitiveKind StringKind = Some PRIMITIVE_KIND_STRING"
| "primitiveKind BytesKind = Some PRIMITIVE_KIND_BYTES"
| "primitiveKind Uint32Kind = Some PRIMITIVE_KIND_UINT32"
| "primitiveKind Sfixed32Kind = Some PRIMITIVE_KIND_SFIXED32"
| "primitiveKind Sfixed64Kind = Some PRIMITIVE_KIND_SFIXED64"
| "primitiveKind Sint32Kind = Some PRIMITIVE_KIND_SINT32"
| "primitiveKind Sint64Kind = Some PRIMITIVE_KIND_SINT64"
| "primitiveKind _ = None"

definition primitiveType :: "primitive_kind \<Rightarrow> data_type" where
  "primitiveType k = DataType [] (DataType_Primitive (Some k))"

definition wrapperType :: "string \<Rightarrow> primitive_kind \<Rightarrow> data_type" where
  "wrapperType name k = DataType name (GetKind (primitiveType k))"

definition jsonType :: "string \<Rightarrow> json_kind \<Rightarrow> data_type" where
  "jsonType name k = DataType name (DataType_Json (Some k))"

definition wellKnownType :: "string \<Rightarrow> data_type option" where
  "wellKnownType name =
     (if name = ''google.protobuf.DoubleValue'' then Some (wrapperType name PRIMITIVE_KIND_DOUBLE)
      else if name = ''google.protobuf.FloatValue'' then Some (wrapperType name PRIMITIVE_KIND_FLOAT)
      else if name = ''google.protobuf.Int64Value'' then Some (wrapperType name PRIMITIVE_KIND_INT64)
      else if name = ''google.protobuf.UInt64Value'' then Some (wrapperType name PRIMITIVE_KIND_UINT64)
      else if name = ''google.protobuf.Int32Value'' then Some (wrapperType name PRIMITIVE_KIND_INT32)
      else if name = ''google.protobuf.UInt32Value'' then Some (wrapperType name PRIMITIVE_KIND_UINT32)
      else if name = ''google.protobuf.BoolValue'' then Some (wrapperType name PRIMITIVE_KIND_BOOL)
      else if name = ''google.protobuf.StringValue'' then Some (wrapperType name PRIMITIVE_KIND_STRING)
      else if name = ''google.protobuf.BytesValue'' then Some (wrapperType name PRIMITIVE_KIND_BYTES)
      else if name = ''google.protobuf.Timestamp'' then
        Some (DataType name (DataType_Timestamp
          (Some \<lparr>ts_unit = TIME_UNIT_NANOSECOND, ts_timezone = ''UTC''\<rparr>)))
      else if name = ''google.protobuf.Duration'' then
        Some (DataType name (DataType_Duration (Some TIME_UNIT_NANOSECOND)))
      else if name = ''google.protobuf.Any'' then Some (jsonType name JSON_KIND_ANY)
      else if name = ''google.protobuf.Struct'' then Some (jsonType name JSON_KIND_STRUCT)
      else if name = ''google.protobuf.Value'' then Some (jsonType name JSON_KIND_VALUE)
      else if name = ''google.protobuf.ListValue'' then Some (jsonType name JSON_KIND_LIST_VALUE)
      else None)"

section \<open>Evolution of a field\<close>

definition compatibleEnumEvolution :: "enum_type option \<Rightarrow> enum_type option \<Rightarrow> bool" where
  "compatibleEnumEvolution previous current =
     (case (previous, current) of
        (Some p, Some c) \<Rightarrow>
          et_full_name p = et_full_name c \<and> et_closed p = et_closed c \<and>
          (let identity = (\<lambda>v. case v of None \<Rightarrow> ([], 0) | Some x \<Rightarrow> (ev_name x, ev_number x)) in
           list_all (\<lambda>v. identity v \<in> set (map identity (et_values c))) (et_values p))
      | _ \<Rightarrow> previous = None \<and> current = None)"

definition sameLogicalShape :: "data_type option \<Rightarrow> data_type option \<Rightarrow> bool" where
  "sameLogicalShape previous current =
     (case (previous, current) of
        (Some p, Some c) \<Rightarrow>
          (case GetKind p of
             DataType_Primitive pk \<Rightarrow>
               (case GetKind c of
                  DataType_Primitive ck \<Rightarrow>
                    GetProtobufType p = GetProtobufType c \<and> PrimitiveGetKind pk = PrimitiveGetKind ck
                | _ \<Rightarrow> False)
           | DataType_Enum pe \<Rightarrow>
               (case GetKind c of DataType_Enum ce \<Rightarrow> compatibleEnumEvolution pe ce | _ \<Rightarrow> False)
           | DataType_Struct _ \<Rightarrow>
               (case GetKind c of
                  DataType_Struct _ \<Rightarrow> GetProtobufType p = GetProtobufType c
                | _ \<Rightarrow> False)
           | DataType_List pl \<Rightarrow>
               (case GetKind c of
                  DataType_List cl \<Rightarrow>
                    pl \<noteq> None \<and> cl \<noteq> None \<and> ListGetFixedLength pl = ListGetFixedLength cl
                | _ \<Rightarrow> False)
           | DataType_Map _ \<Rightarrow> (case GetKind c of DataType_Map _ \<Rightarrow> True | _ \<Rightarrow> False)
           | DataType_Timestamp pt \<Rightarrow>
               (case GetKind c of
                  DataType_Timestamp ct \<Rightarrow>
                    GetProtobufType p = GetProtobufType c \<and>
                    TimestampGetUnit pt = TimestampGetUnit ct \<and>
                    TimestampGetTimezone pt = TimestampGetTimezone ct
                | _ \<Rightarrow> False)
           | DataType_Duration pd \<Rightarrow>
               (case GetKind c of
                  DataType_Duration cd \<Rightarrow>
                    GetProtobufType p = GetProtobufType c \<and> DurationGetUnit pd = DurationGetUnit cd
                | _ \<Rightarrow> False)
           | DataType_Json pj \<Rightarrow>
               (case GetKind c of
                  DataType_Json cj \<Rightarrow>
                    GetProtobufType p = GetProtobufType c \<and> JsonGetKind pj = JsonGetKind cj
                | _ \<Rightarrow> False)
           | DataType_Decimal pd \<Rightarrow>
               (case GetKind c of
                  DataType_Decimal cd \<Rightarrow>
                    pd \<noteq> None \<and> cd \<noteq> None \<and> DecimalGetPrecision pd = DecimalGetPrecision cd \<and>
                    DecimalGetScale pd = DecimalGetScale cd
                | _ \<Rightarrow> False)
           | DataType_Uuid pu \<Rightarrow>
               (case GetKind c of DataType_Uuid cu \<Rightarrow> pu \<noteq> None \<and> cu \<noteq> None | _ \<Rightarrow> False)
           | DataType_FixedBytes pb \<Rightarrow>
               (case GetKind c of
                  DataType_FixedBytes cb \<Rightarrow>
                    pb \<noteq> None \<and> cb \<noteq> None \<and>
                    FixedBytesGetByteLength pb = FixedBytesGetByteLength cb
                | _ \<Rightarrow> False)
           | Kind_nil \<Rightarrow> False)
      | _ \<Rightarrow> previous = None \<and> current = None)"

definition validateEvolution :: "dataset_compiler \<Rightarrow> string \<Rightarrow> field \<Rightarrow> evolution_error + unit" where
  "validateEvolution c identity current =
     (case map_of (previousFields c) identity of
        None \<Rightarrow> Inr ()
      | Some previous \<Rightarrow>
          if GetPresence previous \<noteq> GetPresence current \<or> GetNullable previous \<noteq> GetNullable current
          then Inl (PresenceChanged (GetStableId current))
          else if GetOneof previous \<noteq> GetOneof current
          then Inl (OneofChanged (GetStableId current))
          else if has_default (data previous) \<noteq> has_default (data current)
             \<or> protobuf_default (data previous) \<noteq> protobuf_default (data current)
          then Inl (DefaultChanged (GetStableId current))
          else if \<not> sameLogicalShape (GetType previous) (GetType current)
          then Inl (ShapeChanged (GetStableId current))
          else Inr ())"

definition storageFieldName ::
    "proto_env \<Rightarrow> dataset_compiler \<Rightarrow> string \<Rightarrow> string \<Rightarrow> field_descriptor
     \<Rightarrow> rename_error + string \<times> string" where
  "storageFieldName E c identity parentIdentity fd =
     andThen
       (case map_of (previousFields c) identity of
          None \<Rightarrow> Inr (fd_name fd)
        | Some previous \<Rightarrow>
            andThen (mapErr PreviousFullName (exactProtoFieldName E (GetProtoFullName previous)))
              (\<lambda>previousSource.
            if GetProtoFullName previous \<noteq> FullName_Append E (fd_containing_full_name fd) previousSource
            then Inl (NotInContainer (GetProtoFullName previous) (fd_containing_full_name fd))
            else if previousSource \<noteq> fd_name fd \<and> \<not> fd_containing_reserved fd previousSource
            then Inl (RenameNotReserved previousSource (fd_name fd))
            else if storage_name_source (data previous) \<noteq> fd_name fd
               \<and> \<not> fd_containing_reserved fd (storage_name_source (data previous))
            then Inl (SourceNotReserved (storage_name_source (data previous)))
            else Inr (storage_name_source (data previous))))
       (\<lambda>storageSource.
          let name = storageName storageSource; owner = historicalNameOwner c parentIdentity name in
          if owner \<noteq> [] \<and> owner \<noteq> identity then Inl (NameOwned name owner identity)
          else Inr (name, storageSource))"

definition validateStorageNameCollisions :: "string \<Rightarrow> field list \<Rightarrow> collision_error + unit" where
  "validateStorageNameCollisions scope flds =
     andThen
       (foldE (\<lambda>owners f.
          if GetName f = [] then Inl (NormalizesToEmpty (GetProtoFullName f) scope)
          else case map_of owners (GetName f) of
            Some owner \<Rightarrow> Inl (NamesCollide (GetName f) scope owner (GetProtoFullName f))
          | None \<Rightarrow> Inr (AList.update (GetName f) (GetProtoFullName f) owners)) [] flds)
       (\<lambda>_. Inr ())"

section \<open>Types\<close>

definition dataFieldOptions :: "field_descriptor \<Rightarrow> option_error + field_options option" where
  "dataFieldOptions fd =
     (case fd_options fd of
        NoExtension \<Rightarrow> Inr None
      | UnexpectedExtensionType t \<Rightarrow> Inl (UnexpectedOptionType t)
      | Extension options \<Rightarrow>
          andThen (mapErr UnknownOptionField
            (rejectUnknownFields (fo_reflect options) ''field option'' ''unsupported by this compiler''))
            (\<lambda>_. Inr (Some options)))"

definition enumDataType :: "enum_descriptor \<Rightarrow> data_type" where
  "enumDataType ed = DataType (ed_full_name ed) (DataType_Enum (Some
     \<lparr>et_full_name = ed_full_name ed,
      et_values = map (\<lambda>v. Some \<lparr>ev_name = evd_name v, ev_number = evd_number v,
        ev_description = descriptorComment (evd_location v)\<rparr>) (ed_values ed),
      et_closed = ed_is_closed ed\<rparr>))"

definition compileValueType ::
    "members_compiler \<Rightarrow> proto_env \<Rightarrow> dataset_compiler \<Rightarrow> 'a value_descriptor_scheme \<Rightarrow> nat list
     \<Rightarrow> string \<Rightarrow> string list \<Rightarrow> field_error + data_type \<times> dataset_compiler" where
  "compileValueType members E c fd path identity stack =
     (case primitiveKind (fd_kind fd) of
        Some primitive \<Rightarrow> Inr (primitiveType primitive, c)
      | None \<Rightarrow>
          if fd_kind fd = EnumKind then Inr (enumDataType (fd_enum fd), c)
          else if fd_kind fd = MessageKind \<or> fd_kind fd = GroupKind then
            (case map_of (env_messages E) (fd_message fd) of
               None \<Rightarrow> Inl MessageMissing
             | Some md \<Rightarrow>
                 andThen (mapErr ExtensionRanges (rejectExtensionRanges md)) (\<lambda>_.
                 case wellKnownType (md_full_name md) of
                   Some typ \<Rightarrow> Inr (typ, c)
                 | None \<Rightarrow>
                     let c = c\<lparr>currentContainers := AList.update identity md (currentContainers c)\<rparr> in
                     if md_full_name md \<in> set stack then Inl (RecursiveMessage (md_full_name md))
                     else
                       andThen (members c (sortedFields (md_fields md)) path identity
                         (md_full_name md # stack)) (\<lambda>(children, c).
                       andThen (mapErr Collision
                         (validateStorageNameCollisions (md_full_name md) children)) (\<lambda>_.
                       Inr (DataType (md_full_name md) (DataType_Struct (Some (map Some children))), c)))))
          else Inl (UnsupportedKind (fd_kind fd)))"

definition refinedType :: "proto_kind \<Rightarrow> semantic_type option \<Rightarrow> refinement_error + data_type" where
  "refinedType kind semanticType =
     (case semanticType of
        Some (FieldOptions_Decimal decimal) \<Rightarrow>
          if kind \<noteq> StringKind then Inl (DecimalCarrier kind)
          else (case decimal of
            None \<Rightarrow> Inl DecimalMissing
          | Some d \<Rightarrow>
              if dec_precision d < 1 \<or> dec_precision d > 38 then Inl (DecimalPrecision (dec_precision d))
              else if dec_scale d > dec_precision d
              then Inl (DecimalScale (dec_scale d) (dec_precision d))
              else Inr (DataType [] (DataType_Decimal
                (Some \<lparr>dec_precision = dec_precision d, dec_scale = dec_scale d\<rparr>))))
      | Some (FieldOptions_Uuid uuid) \<Rightarrow>
          if kind \<noteq> StringKind then Inl (UuidCarrier kind)
          else if uuid = None then Inl UuidMissing
          else Inr (DataType [] (DataType_Uuid (Some ())))
      | Some (FieldOptions_FixedBytes fixedBytes) \<Rightarrow>
          if kind \<noteq> BytesKind then Inl (FixedBytesCarrier kind)
          else (case fixedBytes of
            None \<Rightarrow> Inl FixedBytesMissing
          | Some n \<Rightarrow>
              if n = 0 then Inl FixedBytesZero
              else if int n > maxFixedBytesLength then Inl (FixedBytesTooLong n)
              else Inr (DataType [] (DataType_FixedBytes (Some n))))
      | None \<Rightarrow> Inl NoSemanticType
      | Some FieldOptions_other \<Rightarrow> Inl UnsupportedSemanticType)"

definition compileRefinedValueType ::
    "members_compiler \<Rightarrow> proto_env \<Rightarrow> dataset_compiler \<Rightarrow> 'a value_descriptor_scheme \<Rightarrow> nat list
     \<Rightarrow> string \<Rightarrow> string list \<Rightarrow> field_options option \<Rightarrow> field_error + data_type \<times> dataset_compiler" where
  "compileRefinedValueType members E c fd path identity stack options =
     (case options of
        None \<Rightarrow> compileValueType members E c fd path identity stack
      | Some opts \<Rightarrow>
          andThen (mapErr Refinement (refinedType (fd_kind fd) (fo_semantic_type opts)))
            (\<lambda>typ. Inr (typ, c)))"

definition compileSyntheticField ::
    "members_compiler \<Rightarrow> proto_env \<Rightarrow> dataset_compiler \<Rightarrow> 'a value_descriptor_scheme \<Rightarrow> string \<Rightarrow> string
     \<Rightarrow> nat list \<Rightarrow> string \<Rightarrow> synthetic_role \<Rightarrow> string list \<Rightarrow> field_options option
     \<Rightarrow> field_error + field \<times> dataset_compiler" where
  "compileSyntheticField members E c fd name protoFullName path identity role stack options =
     andThen (mapErr Allocation (allocate c identity)) (\<lambda>(i, c).
     andThen (compileRefinedValueType members E c fd path identity stack options) (\<lambda>(typ, c).
     let f = Field
           \<lparr>proto_full_name = protoFullName, proto_number_path = path, field_name = name,
            stable_id = i, field_presence = PRESENCE_NOT_APPLICABLE, nullable = False, oneof = [],
            description = [], synthetic_role_of = role, has_default = False,
            protobuf_default = [], json_name = [], storage_name_source = []\<rparr> (Some typ) in
     andThen (mapErr Evolution (validateEvolution c identity f)) (\<lambda>_. Inr (f, c))))"

definition compileListType ::
    "members_compiler \<Rightarrow> proto_env \<Rightarrow> dataset_compiler \<Rightarrow> field_descriptor \<Rightarrow> nat list \<Rightarrow> string
     \<Rightarrow> string list \<Rightarrow> field_options option \<Rightarrow> field_error + data_type \<times> dataset_compiler" where
  "compileListType members E c fd path identity stack options =
     (let fixedList = (case options of None \<Rightarrow> None | Some opts \<Rightarrow> fo_fixed_list opts);
          fixedLength = (case fixedList of None \<Rightarrow> 0 | Some n \<Rightarrow> n);
          elementOptions = (case fixedList of None \<Rightarrow> options | Some _ \<Rightarrow> None) in
      andThen (mapErr ListElement
        (compileSyntheticField members E c fd ''element'' (fd_full_name fd @ ''[]'') path
          (appendIdentity identity ''list:element'') SYNTHETIC_ROLE_LIST_ELEMENT stack elementOptions))
        (\<lambda>(element, c). Inr (DataType [] (DataType_List (Some (Some element, fixedLength))), c)))"

definition compileMapType ::
    "members_compiler \<Rightarrow> proto_env \<Rightarrow> dataset_compiler \<Rightarrow> field_descriptor \<Rightarrow> nat list \<Rightarrow> string
     \<Rightarrow> string list \<Rightarrow> field_error + data_type \<times> dataset_compiler" where
  "compileMapType members E c fd path identity stack =
     andThen (mapErr MapKey
       (compileSyntheticField members E c (fd_map_key fd) ''key'' (fd_full_name fd @ ''.key'') path
         (appendIdentity identity ''map:key'') SYNTHETIC_ROLE_MAP_KEY stack None)) (\<lambda>(key, c).
     andThen (mapErr MapValue
       (compileSyntheticField members E c (fd_map_value fd) ''value'' (fd_full_name fd @ ''.value'') path
         (appendIdentity identity ''map:value'') SYNTHETIC_ROLE_MAP_VALUE stack None)) (\<lambda>(val, c).
     Inr (DataType [] (DataType_Map (Some (Some key, Some val))), c)))"

section \<open>Fields\<close>

text \<open>The checks of \<^verbatim>\<open>compileProtoField\<close> on the options of a field.\<close>

definition checkFieldOptions ::
    "field_descriptor \<Rightarrow> presence \<Rightarrow> field_options option \<Rightarrow> refinement_error + unit" where
  "checkFieldOptions fd presence options =
     (case options of
        None \<Rightarrow> Inr ()
      | Some opts \<Rightarrow>
          andThen
            (case fo_fixed_list opts of
               None \<Rightarrow> Inr ()
             | Some len \<Rightarrow>
                 if fd_is_map fd \<or> \<not> fd_is_list fd then Inl FixedListNotRepeated
                 else if fo_semantic_type opts \<noteq> None then Inl FixedListWithSemanticType
                 else if fd_kind fd \<noteq> FloatKind \<and> fd_kind fd \<noteq> DoubleKind
                 then Inl (FixedListCarrier (fd_kind fd))
                 else if len = 0 then Inl FixedListZero
                 else if int len > maxFixedListLength then Inl (FixedListTooLong len)
                 else Inr ())
            (\<lambda>_.
               if \<not> fd_is_list fd \<and> \<not> fd_is_map fd then
                 (if presence \<noteq> PRESENCE_EXPLICIT \<and> presence \<noteq> PRESENCE_ONEOF
                  then Inl (RefinedPresence presence)
                  else if fd_has_default fd then Inl RefinedDefault
                  else Inr ())
               else Inr ()))"

definition compileFieldType ::
    "members_compiler \<Rightarrow> proto_env \<Rightarrow> dataset_compiler \<Rightarrow> field_descriptor \<Rightarrow> nat list \<Rightarrow> string
     \<Rightarrow> string list \<Rightarrow> field_options option \<Rightarrow> field_error + data_type \<times> dataset_compiler" where
  "compileFieldType members E c fd path identity stack options =
     (if fd_is_map fd then
        (if options \<noteq> None then Inl (Refinement RefinedMap)
         else compileMapType members E c fd path identity stack)
      else if fd_is_list fd then compileListType members E c fd path identity stack options
      else compileRefinedValueType members E c fd path identity stack options)"

definition compileProtoField ::
    "members_compiler \<Rightarrow> proto_env \<Rightarrow> dataset_compiler \<Rightarrow> field_descriptor \<Rightarrow> nat list \<Rightarrow> string
     \<Rightarrow> string list \<Rightarrow> field_error + field \<times> dataset_compiler" where
  "compileProtoField members E c fd parentPath parentIdentity stack =
     mapErr (InField (fd_full_name fd))
       (let path = appendNumber parentPath (toUint32 (fd_number fd));
            identity = appendIdentity parentIdentity (fieldIdentitySegment (fd_number fd));
            (presence, isNullable, oneofName) = fieldPresence fd in
        andThen (mapErr Allocation (allocate c identity)) (\<lambda>(i, c).
        andThen (mapErr Rename (storageFieldName E c identity parentIdentity fd)) (\<lambda>(name, source).
        andThen (mapErr Options (dataFieldOptions fd)) (\<lambda>options.
        andThen (mapErr Refinement (checkFieldOptions fd presence options)) (\<lambda>_.
        andThen (compileFieldType members E c fd path identity stack options) (\<lambda>(typ, c).
        let f = Field
              \<lparr>proto_full_name = fd_full_name fd, proto_number_path = path, field_name = name,
               stable_id = i, field_presence = presence, nullable = isNullable, oneof = oneofName,
               description = descriptorComment (fd_location fd),
               synthetic_role_of = SYNTHETIC_ROLE_PROTO_FIELD, has_default = fd_has_default fd,
               protobuf_default = (if fd_has_default fd then fd_default_value fd else []),
               json_name = fd_json_name fd, storage_name_source = source\<rparr> (Some typ) in
        andThen (mapErr Evolution (validateEvolution c identity f)) (\<lambda>_. Inr (f, c))))))))"

text \<open>The loop over the members of a message, with the knot of the recursion tied by fuel.\<close>

primrec compileMembers :: "nat \<Rightarrow> proto_env \<Rightarrow> members_compiler" where
  "compileMembers 0 E c flds path identity stack = Inl OutOfFuel"
| "compileMembers (Suc n) E c flds path identity stack =
     mapE (\<lambda>c fd. compileProtoField (compileMembers n E) E c fd path identity stack) c flds"

section \<open>Tombstones\<close>

definition validateRetiredReservation ::
    "proto_env \<Rightarrow> dataset_compiler \<Rightarrow> string \<Rightarrow> retired_field \<Rightarrow> reservation_error + unit" where
  "validateRetiredReservation E c identity r =
     andThen (mapErr (RetiredIdentity identity) (compilerIdentityRole identity)) (\<lambda>role.
     if role \<noteq> SYNTHETIC_ROLE_PROTO_FIELD then Inr ()
     else case map_of (currentContainers c) (parentCompilerIdentity identity) of
       None \<Rightarrow> Inr ()
     | Some container \<Rightarrow>
         andThen (mapErr (RetiredFullName identity) (exactProtoFieldName E (rf_proto_full_name r)))
           (\<lambda>previousName.
         if rf_proto_full_name r \<noteq> FullName_Append E (md_full_name container) previousName
         then Inl (RetiredOutside identity (rf_proto_full_name r) (md_full_name container))
         else
           let segment = (case cutLast CHR ''/'' identity of None \<Rightarrow> identity | Some (_, s) \<Rightarrow> s);
               fieldNumber = (case ParseInt 32 (TrimPrefix segment ''field:'') of
                 None \<Rightarrow> 0 | Some number \<Rightarrow> number) in
           if \<not> md_reserved_ranges container fieldNumber
           then Inl (NumberNotReserved (rf_proto_full_name r) fieldNumber (md_full_name container))
           else if \<not> md_reserved_names container previousName
           then Inl (NameNotReserved (rf_proto_full_name r) previousName (md_full_name container))
           else if rf_storage_name_source r \<noteq> previousName
              \<and> \<not> md_reserved_names container (rf_storage_name_source r)
           then Inl (OriginalNotReserved (rf_proto_full_name r) (rf_storage_name_source r)
             (md_full_name container))
           else Inr ()))"

text \<open>The tombstone of a removed field; \<^verbatim>\<open>previousField\<close> is nil when the map has no entry.\<close>

definition tombstone :: "string \<Rightarrow> field option \<Rightarrow> retired_field" where
  "tombstone identity previousField =
     (case previousField of
        None \<Rightarrow> \<lparr>rf_identity = identity, rf_stable_id = 0, rf_proto_full_name = [], rf_name = [],
                 rf_storage_name_source = []\<rparr>
      | Some f \<Rightarrow> \<lparr>rf_identity = identity, rf_stable_id = GetStableId f,
                    rf_proto_full_name = GetProtoFullName f, rf_name = GetName f,
                    rf_storage_name_source = storage_name_source (data f)\<rparr>)"

text \<open>The two loops of \<^verbatim>\<open>CompileMessage\<close> that fill the map of retired fields: the old tombstones,
  then one for every previous field that is not active any more.\<close>

definition mergeRetired :: "dataset_compiler \<Rightarrow> (string \<times> retired_field) list" where
  "mergeRetired c =
     foldl (\<lambda>m (identity, _).
        if map_of (currentActive c) identity \<noteq> None then m
        else AList.update identity (tombstone identity (map_of (previousFields c) identity)) m)
       (retired c) (previousActive c)"

definition sortRetired :: "(string \<times> retired_field) list \<Rightarrow> retired_field list" where
  "sortRetired m = sort_key (\<lambda>r. (rf_stable_id r, rf_identity r)) (map snd m)"

section \<open>Messages\<close>

definition compileFuel :: "proto_env \<Rightarrow> nat" where
  "compileFuel E = Suc (length (env_messages E))"

text \<open>The compiler before the first field: the previous schema read or, on a first compilation, the
  top-level field numbers reserved as stable IDs.\<close>

definition startCompiler ::
    "proto_env \<Rightarrow> message_descriptor \<Rightarrow> dataset_schema option \<Rightarrow> message_error + dataset_compiler" where
  "startCompiler E md previous =
     andThen (mapErr (PreviousSchema (md_full_name md)) (newDatasetCompiler E md previous)) (\<lambda>c.
     if previous = None
     then mapErr (TopLevelNumber (md_full_name md)) (foldE reserveTopLevel c (sortedFields (md_fields md)))
     else Inr c)"

definition CompileMessage ::
    "proto_env \<Rightarrow> message_descriptor option \<Rightarrow> dataset_schema option \<Rightarrow> message_error + dataset_schema" where
  "CompileMessage E descriptor previous =
     (case descriptor of
        None \<Rightarrow> Inl NilDescriptor
      | Some md \<Rightarrow>
          let name = md_full_name md; datasetName = storageName name; flds = sortedFields (md_fields md) in
          if md_is_map_entry md then Inl (MapEntryDataset name)
          else if datasetName = [] then Inl (EmptyDatasetName name)
          else
            andThen (mapErr (DatasetExtensions name) (rejectExtensionRanges md)) (\<lambda>_.
            andThen (startCompiler E md previous) (\<lambda>c.
            andThen (mapErr (FieldFailed name) (compileMembers (compileFuel E) E c flds [] [] [name]))
              (\<lambda>(compiled, c).
            andThen (mapErr (TopLevelCollision name) (validateStorageNameCollisions name compiled)) (\<lambda>_.
            let retiredFields = sortRetired (mergeRetired c) in
            andThen (mapErr (Reservation name)
              (foldE (\<lambda>_ r. validateRetiredReservation E c (rf_identity r) r) () retiredFields)) (\<lambda>_.
            Inr \<lparr>source_message = name, ds_name = datasetName,
                 ds_description = descriptorComment (md_location md),
                 ds_fields = map Some compiled, last_field_id = lastID c,
                 retired_fields = map Some retiredFields\<rparr>))))))"

end
