(* ===== verification/Compiler_Runs.thy ===== *)
theory Compiler_Runs
  imports Compiler
begin

text \<open>
  Every function of the compiler is a run of the stable-ID allocator: when it succeeds, the state
  has allocated exactly the identities of the field tree it returns, parents before children, with
  the IDs written into that tree. Field numbers are Go \<^verbatim>\<open>int32\<close> values, which the
  predicate \<open>int32_numbers\<close> states of the model's integers.
\<close>

definition int32_numbers :: "field_descriptor list \<Rightarrow> bool" where
  "int32_numbers flds = list_all (\<lambda>fd. - (2 ^ 31) \<le> fd_number fd \<and> fd_number fd < 2 ^ 31) flds"

definition env_int32 :: "proto_env \<Rightarrow> bool" where
  "env_int32 E = list_all (\<lambda>(_, md). int32_numbers (md_fields md)) (env_messages E)"

definition members_run :: "members_compiler \<Rightarrow> bool" where
  "members_run members \<longleftrightarrow> (\<forall>c flds path i stack fs c'. int32_numbers flds \<longrightarrow>
     members c flds path i stack = Inr (fs, c') \<longrightarrow> ids.run c (fieldsEntries i (map Some fs)) c')"

lemma int32_sorted [simp]: "int32_numbers (sortedFields flds) = int32_numbers flds"
  by (simp add: int32_numbers_def sortedFields_def list_all_iff)

lemma env_int32_lookup: "env_int32 E \<Longrightarrow> map_of (env_messages E) n = Some md \<Longrightarrow> int32_numbers (md_fields md)"
  by (auto simp: env_int32_def list_all_iff dest: map_of_SomeD)

lemma typeChildren_leaf [simp]:
  "typeChildren (Some (primitiveType k)) = []" "typeChildren (Some (enumDataType ed)) = []"
  by (simp_all add: typeChildren_def kindChildren_def primitiveType_def enumDataType_def)

lemma typeChildren_wellKnown: "wellKnownType n = Some t \<Longrightarrow> typeChildren (Some t) = []"
  by (auto simp: wellKnownType_def typeChildren_def kindChildren_def wrapperType_def primitiveType_def
      jsonType_def split: if_splits)

lemma typeChildren_refined: "refinedType k s = Inr t \<Longrightarrow> typeChildren (Some t) = []"
  by (auto simp: refinedType_def typeChildren_def kindChildren_def split: if_splits option.splits semantic_type.splits)

lemma run_enter: "ids.run (c\<lparr>currentContainers := X\<rparr>) es c' \<Longrightarrow> ids.run c es c'"
  by (rule ids.silent_step [of _ "c\<lparr>currentContainers := X\<rparr>"]) (simp_all add: enters_container_def)

lemma compileValueType_run:
  assumes "members_run members" "env_int32 E"
    and "compileValueType members E c fd path i stack = Inr (t, c')"
  shows "ids.run c (fieldsEntries i (typeChildren (Some t))) c'"
proof -
  have "ids.run c (fieldsEntries i (typeChildren (Some t))) c'"
    if "map_of (env_messages E) (fd_message fd) = Some md"
      "members (c\<lparr>currentContainers := X\<rparr>) (sortedFields (md_fields md)) path i st = Inr (fs, c')"
      "t = DataType n (DataType_Struct (Some (map Some fs)))" for md X st fs n
  proof -
    have "int32_numbers (sortedFields (md_fields md))"
      using env_int32_lookup [OF assms(2) that(1)] by simp
    with assms(1) that(2) have "ids.run (c\<lparr>currentContainers := X\<rparr>) (fieldsEntries i (map Some fs)) c'"
      unfolding members_run_def by blast
    then show ?thesis
      by (simp add: that(3) typeChildren_def kindChildren_def StructGetFields_def run_enter)
  qed
  with assms(3) show ?thesis
    unfolding compileValueType_def
    by (auto simp: andThen_eq_Inr Let_def typeChildren_wellKnown
        split: option.splits if_splits intro: ids.stop)
qed

lemma compileRefinedValueType_run:
  assumes "members_run members" "env_int32 E"
    and "compileRefinedValueType members E c fd path i stack options = Inr (t, c')"
  shows "ids.run c (fieldsEntries i (typeChildren (Some t))) c'"
  using assms(3) compileValueType_run [OF assms(1,2)] unfolding compileRefinedValueType_def
  by (auto simp: andThen_eq_Inr typeChildren_refined split: option.splits intro: ids.stop)

lemma compileSyntheticField_run:
  assumes "members_run members" "env_int32 E"
    and "compileSyntheticField members E c fd name full path i role stack options = Inr (f, c')"
  shows "ids.run c ((i, GetStableId f) # fieldsEntries i (typeChildren (GetType f))) c' \<and>
    GetSyntheticRole f = role"
  using assms(3) unfolding compileSyntheticField_def
  by (auto simp: andThen_eq_Inr Let_def intro!: ids.alloc_step
      intro: compileRefinedValueType_run [OF assms(1,2)])

lemma compileListType_run:
  assumes "members_run members" "env_int32 E"
    and "compileListType members E c fd path i stack options = Inr (t, c')"
  shows "ids.run c (fieldsEntries i (typeChildren (Some t))) c'"
  using assms(3) unfolding compileListType_def
  by (auto simp: andThen_eq_Inr Let_def typeChildren_def kindChildren_def ListGetElement_def
      fieldEntries_eq [of i] fieldIdentity_def dest!: compileSyntheticField_run [OF assms(1,2)])

lemma compileMapType_run:
  assumes "members_run members" "env_int32 E"
    and "compileMapType members E c fd path i stack = Inr (t, c')"
  shows "ids.run c (fieldsEntries i (typeChildren (Some t))) c'"
  using assms(3) unfolding compileMapType_def
  by (auto simp: andThen_eq_Inr typeChildren_def kindChildren_def MapGetKey_def MapGetValue_def
      fieldEntries_eq [of i] fieldIdentity_def dest!: compileSyntheticField_run [OF assms(1,2)]
      dest: ids.run_append)

lemma compileFieldType_run:
  assumes "members_run members" "env_int32 E"
    and "compileFieldType members E c fd path i stack options = Inr (t, c')"
  shows "ids.run c (fieldsEntries i (typeChildren (Some t))) c'"
  using assms(3) unfolding compileFieldType_def
  by (auto split: if_splits intro: compileMapType_run [OF assms(1,2)] compileListType_run [OF assms(1,2)]
      compileRefinedValueType_run [OF assms(1,2)])

lemma compileProtoField_run:
  assumes "members_run members" "env_int32 E" "- (2 ^ 31) \<le> fd_number fd" "fd_number fd < 2 ^ 31"
    and "compileProtoField members E c fd path i stack = Inr (f, c')"
  shows "ids.run c (fieldEntries i f) c'"
  using assms(5) unfolding compileProtoField_def
  by (auto simp: andThen_eq_Inr Let_def fieldEntries_eq [of i] fieldIdentity_def appendNumber_def
      toInt32_toUint32_all [OF assms(3,4)] split: prod.splits intro!: ids.alloc_step
      intro: compileFieldType_run [OF assms(1,2)])

lemma mapE_compile_run:
  assumes "members_run members" "env_int32 E"
  shows "int32_numbers flds \<Longrightarrow>
    mapE (\<lambda>c fd. compileProtoField members E c fd path i stack) c flds = Inr (fs, c') \<Longrightarrow>
    ids.run c (fieldsEntries i (map Some fs)) c'"
proof (induction flds arbitrary: c fs)
  case (Cons fd flds)
  then obtain f c1 gs where "compileProtoField members E c fd path i stack = Inr (f, c1)"
    "mapE (\<lambda>c fd. compileProtoField members E c fd path i stack) c1 flds = Inr (gs, c')" "fs = f # gs"
    by (auto simp: mapE_Cons_Inr simp del: mapE.simps(2))
  moreover from this(1) Cons.prems(1) have "ids.run c (fieldEntries i f) c1"
    by (intro compileProtoField_run [OF assms]) (simp_all add: int32_numbers_def)
  ultimately show ?case
    using Cons.IH [of c1 gs] Cons.prems(1) ids.run_append by (simp add: int32_numbers_def)
qed (simp add: ids.stop)

lemma compileMembers_run: "env_int32 E \<Longrightarrow> members_run (compileMembers n E)"
proof (induction n)
  case 0
  then show ?case by (simp add: members_run_def)
next
  case (Suc n)
  then show ?case using mapE_compile_run [OF Suc.IH] by (auto simp: members_run_def)
qed

end
