(* ===== verification/Compiler_Ledger.thy ===== *)
theory Compiler_Ledger
  imports Compiler_Runs
begin

text \<open>
  The ledger of a compiled schema: the identities and stable IDs of its fields and of its
  tombstones. A compilation extends the ledger of the schema it starts from, so an ID, once
  given to an identity, stays with it through every later version.
\<close>

section \<open>The ledger of a schema\<close>

definition schemaEntries :: "dataset_schema \<Rightarrow> (string \<times> int) list" where
  "schemaEntries ds = fieldsEntries [] (ds_fields ds)"

definition retiredEntries :: "dataset_schema \<Rightarrow> (string \<times> int) list" where
  "retiredEntries ds =
     map (\<lambda>r. (rf_identity r, rf_stable_id r)) (List.map_filter (\<lambda>r. r) (retired_fields ds))"

definition schemaLedger :: "dataset_schema \<Rightarrow> int \<Rightarrow> string option" where
  "schemaLedger ds = map_of (map (\<lambda>(i, n). (n, i)) (schemaEntries ds @ retiredEntries ds))"

text \<open>The field numbers of the descriptors are \<^verbatim>\<open>int32\<close> values.\<close>

definition well_typed :: "proto_env \<Rightarrow> message_descriptor option \<Rightarrow> bool" where
  "well_typed E descriptor \<longleftrightarrow> env_int32 E \<and>
     (case descriptor of None \<Rightarrow> True | Some md \<Rightarrow> int32_numbers (md_fields md))"

section \<open>What a successful compilation did\<close>

lemma CompileMessage_cases:
  assumes "CompileMessage E descriptor previous = Inr ds"
  obtains md c1 fs c where
    "descriptor = Some md" "\<not> md_is_map_entry md" "storageName (md_full_name md) \<noteq> []"
    "md_extension_ranges md = 0"
    "startCompiler E md previous = Inr c1"
    "compileMembers (compileFuel E) E c1 (sortedFields (md_fields md)) [] [] [md_full_name md] = Inr (fs, c)"
    "validateStorageNameCollisions (md_full_name md) fs = Inr ()"
    "foldE (\<lambda>_ r. validateRetiredReservation E c (rf_identity r) r) () (sortRetired (mergeRetired c)) = Inr ()"
    "ds = \<lparr>source_message = md_full_name md, ds_name = storageName (md_full_name md),
       ds_description = descriptorComment (md_location md), ds_fields = map Some fs,
       last_field_id = lastID c, retired_fields = map Some (sortRetired (mergeRetired c))\<rparr>"
  using assms unfolding CompileMessage_def
  by (auto simp: Let_def andThen_eq_Inr rejectExtensionRanges_def split: option.splits if_splits)

lemma top_level_inv_empty: "top_level_inv (emptyCompiler md)"
  using compiler_inv_empty [of md] by (simp add: top_level_inv_def emptyCompiler_def ledger_def)

lemma reserve_loop:
  assumes "foldE reserveTopLevel c flds = Inr c'" "top_level_inv c"
  shows "top_level_inv c'"
  by (rule foldE_invariant [where I = top_level_inv, OF assms]) (rule reserveTopLevel_inv)

lemma reserve_loop_first:
  assumes "foldE reserveTopLevel c flds = Inr c'"
    and "map_of (firstTopLevelIDs c') i \<noteq> None"
  shows "map_of (firstTopLevelIDs c) i \<noteq> None \<or>
    (\<exists>fd \<in> set flds. i = appendIdentity [] (fieldIdentitySegment (fd_number fd)))"
  using assms
proof (induction flds arbitrary: c)
  case (Cons fd flds)
  from Cons.prems(1) obtain c1 where step: "reserveTopLevel c fd = Inr c1"
    and rest: "foldE reserveTopLevel c1 flds = Inr c'" by (auto simp: andThen_eq_Inr)
  from step have "map_of (firstTopLevelIDs c1) i = (if i = appendIdentity [] (fieldIdentitySegment (fd_number fd))
      then Some (fd_number fd) else map_of (firstTopLevelIDs c) i)"
    by (auto simp: reserveTopLevel_def Let_def andThen_eq_Inr update_conv')
  with Cons.IH [OF rest Cons.prems(2)] show ?case by (auto split: if_splits)
qed simp

lemma startCompiler_inv:
  assumes "startCompiler E md previous = Inr c"
  shows "compiler_inv c \<and> currentActive c = []"
proof (cases previous)
  case None
  with assms have "foldE reserveTopLevel (emptyCompiler md) (sortedFields (md_fields md)) = Inr c"
    by (simp add: startCompiler_def newDatasetCompiler_def)
  then have "top_level_inv c" using reserve_loop top_level_inv_empty by blast
  then show ?thesis by (simp add: top_level_inv_def)
next
  case (Some p)
  with assms have "newDatasetCompiler E md (Some p) = Inr c"
    by (auto simp: startCompiler_def andThen_eq_Inr)
  then show ?thesis using newDatasetCompiler_inv newDatasetCompiler_previous by blast
qed

text \<open>Every member of the list is compiled under its own identity.\<close>

lemma compileProtoField_identity:
  assumes "compileProtoField members E c fd path i stack = Inr (f, c')"
    "- (2 ^ 31) \<le> fd_number fd" "fd_number fd < 2 ^ 31"
  shows "fieldIdentity i f = appendIdentity i (fieldIdentitySegment (fd_number fd))"
  using assms(1) unfolding compileProtoField_def
  by (auto simp: andThen_eq_Inr Let_def fieldIdentity_def appendNumber_def
      toInt32_toUint32_all [OF assms(2,3)] split: prod.splits)

lemma mapE_compile_identities:
  "int32_numbers flds \<Longrightarrow>
   mapE (\<lambda>c fd. compileProtoField members E c fd path i stack) c flds = Inr (fs, c') \<Longrightarrow>
   map (fieldIdentity i) fs = map (\<lambda>fd. appendIdentity i (fieldIdentitySegment (fd_number fd))) flds"
proof (induction flds arbitrary: c fs)
  case (Cons fd flds)
  then obtain f c1 gs where f: "compileProtoField members E c fd path i stack = Inr (f, c1)"
    and gs: "mapE (\<lambda>c fd. compileProtoField members E c fd path i stack) c1 flds = Inr (gs, c')" "fs = f # gs"
    by (auto simp: mapE_Cons_Inr simp del: mapE.simps(2))
  from Cons.prems(1) have n: "- (2 ^ 31) \<le> fd_number fd" "fd_number fd < 2 ^ 31" "int32_numbers flds"
    by (simp_all add: int32_numbers_def)
  show ?case using compileProtoField_identity [OF f n(1,2)] Cons.IH [OF n(3) gs(1)] gs(2) by simp
qed simp

lemma compileMembers_identities:
  "int32_numbers flds \<Longrightarrow> compileMembers n E c flds path i stack = Inr (fs, c') \<Longrightarrow>
   map (fieldIdentity i) fs = map (\<lambda>fd. appendIdentity i (fieldIdentitySegment (fd_number fd))) flds"
  by (cases n) (auto dest: mapE_compile_identities)

lemma fieldsEntries_member: "f \<in> set fs \<Longrightarrow> (fieldIdentity i f, GetStableId f) \<in> set (fieldsEntries i (map Some fs))"
  using fieldEntries_eq [of i f] by (induction fs) auto

lemma map_of_mergeRetired:
  assumes "distinct (map fst (previousActive c))"
  shows "map_of (mergeRetired c) i =
    (if map_of (previousActive c) i \<noteq> None \<and> map_of (currentActive c) i = None
     then Some (tombstone i (map_of (previousFields c) i)) else map_of (retired c) i)"
proof -
  have "map_of (foldl (\<lambda>m (identity, _).
        if map_of (currentActive c) identity \<noteq> None then m
        else AList.update identity (tombstone identity (map_of (previousFields c) identity)) m) m prev) i =
    (if map_of prev i \<noteq> None \<and> map_of (currentActive c) i = None
     then Some (tombstone i (map_of (previousFields c) i)) else map_of m i)" for m and prev :: "(string \<times> int) list"
    by (induction prev arbitrary: m) (auto simp: update_conv')
  then show ?thesis by (simp add: mergeRetired_def)
qed

lemma distinct_mergeRetired:
  assumes "distinct (map fst (retired c))"
  shows "distinct (map fst (mergeRetired c))"
proof -
  have "distinct (map fst m) \<Longrightarrow> distinct (map fst (foldl (\<lambda>m (identity, _).
        if map_of (currentActive c) identity \<noteq> None then m
        else AList.update identity (tombstone identity (map_of (previousFields c) identity)) m) m prev))"
    for m and prev :: "(string \<times> int) list"
    by (induction prev arbitrary: m) (auto simp: distinct_update)
  with assms show ?thesis by (simp add: mergeRetired_def)
qed

lemma rf_identity_mergeRetired:
  assumes "\<And>i r. map_of (retired c) i = Some r \<Longrightarrow> rf_identity r = i" "distinct (map fst (previousActive c))"
    "distinct (map fst (retired c))" "(i, r) \<in> set (mergeRetired c)"
  shows "rf_identity r = i \<and> map_of (mergeRetired c) i = Some r"
proof -
  have m: "map_of (mergeRetired c) i = Some r"
    using distinct_mergeRetired [OF assms(3)] assms(4) by simp
  then have "rf_identity r = i"
    using assms(1) [of i r] map_of_mergeRetired [OF assms(2), of i]
    by (auto simp: tombstone_def split: if_splits option.splits)
  with m show ?thesis by simp
qed

lemma retired_in_merge:
  assumes inv: "compiler_inv c"
  shows "(\<exists>r. map_of (mergeRetired c) i = Some r \<and> rf_stable_id r = n) \<longleftrightarrow>
    map_of (currentActive c) i = None \<and>
    (map_of (previousActive c) i = Some n \<or> (\<exists>r. map_of (retired c) i = Some r \<and> rf_stable_id r = n))"
proof -
  note old = compiler_invD [OF inv]
  have prev: "map_of (previousFields c) i = Some f \<Longrightarrow> map_of (previousActive c) i = Some (GetStableId f)"
    "map_of (previousActive c) i = Some m \<Longrightarrow> \<exists>f. map_of (previousFields c) i = Some f \<and> GetStableId f = m" for f m
    using old(5) [unfolded previous_indexed_def, THEN conjunct1, rule_format, of i] by auto
  have dist: "distinct (map fst (previousActive c))" using old(5) by (simp add: previous_indexed_def)
  have excl: "map_of (retired c) i = Some r \<Longrightarrow> map_of (previousActive c) i = None \<and> map_of (currentActive c) i = None" for r
    using old(3) by (simp add: active_not_retired_def)
  show ?thesis
  proof (cases "map_of (previousActive c) i")
    case None
    then show ?thesis using excl by (auto simp: map_of_mergeRetired [OF dist])
  next
    case (Some m)
    from prev(2) [OF Some] obtain f where f: "map_of (previousFields c) i = Some f" "GetStableId f = m" by blast
    have "map_of (retired c) i = None" using excl Some by (cases "map_of (retired c) i") auto
    then show ?thesis using Some f by (auto simp: map_of_mergeRetired [OF dist] tombstone_def)
  qed
qed

lemma mergeRetired_facts:
  assumes inv: "compiler_inv c"
  shows "distinct (map rf_identity (sortRetired (mergeRetired c)))"
    and "r \<in> set (sortRetired (mergeRetired c)) \<longleftrightarrow> map_of (mergeRetired c) (rf_identity r) = Some r"
proof -
  note old = compiler_invD [OF inv]
  have id: "rf_identity r = i \<and> map_of (mergeRetired c) i = Some r" if "(i, r) \<in> set (mergeRetired c)" for i r
    by (rule rf_identity_mergeRetired [OF _ _ _ that])
      (use old in \<open>simp_all add: previous_indexed_def ledger_agrees_def\<close>)
  have dist: "distinct (map fst (mergeRetired c))"
    using old(5) by (intro distinct_mergeRetired) (simp add: previous_indexed_def)
  have "map rf_identity (map snd (mergeRetired c)) = map fst (mergeRetired c)"
    using id by (auto simp: comp_def)
  with dist have "distinct (map rf_identity (map snd (mergeRetired c)))" by (simp only:)
  then show "distinct (map rf_identity (sortRetired (mergeRetired c)))"
    by (simp only: sortRetired_def distinct_map distinct_sort set_sort simp_thms)
  have "set (sortRetired (mergeRetired c)) = snd ` set (mergeRetired c)" by (simp add: sortRetired_def)
  moreover have "map_of (mergeRetired c) (rf_identity r) = Some r" if "(i, r) \<in> set (mergeRetired c)" for i
    using id [OF that] by simp
  moreover have "r \<in> snd ` set (mergeRetired c)" if "map_of (mergeRetired c) (rf_identity r) = Some r"
    using map_of_SomeD [OF that] by (rule rev_image_eqI) simp
  ultimately show "r \<in> set (sortRetired (mergeRetired c)) \<longleftrightarrow> map_of (mergeRetired c) (rf_identity r) = Some r"
    by force
qed

lemma CompileMessage_run:
  assumes "CompileMessage E descriptor previous = Inr ds" and typed: "well_typed E descriptor"
  obtains md c1 c where "descriptor = Some md" "startCompiler E md previous = Inr c1"
    "ids.run c1 (schemaEntries ds) c" "compiler_inv c1" "currentActive c1 = []" "compiler_inv c"
    "currentActive c = schemaEntries ds"
    "retired_fields ds = map Some (sortRetired (mergeRetired c))"
    "last_field_id ds = lastID c"
    "\<And>fd. fd \<in> set (md_fields md) \<Longrightarrow> map_of (currentActive c) (fieldIdentitySegment (fd_number fd)) \<noteq> None"
  using assms(1)
proof (cases rule: CompileMessage_cases)
  case (1 md c1 fs c)
  have numbers: "env_int32 E" "int32_numbers (sortedFields (md_fields md))"
    using typed 1(1) by (simp_all add: well_typed_def)
  have entries: "schemaEntries ds = fieldsEntries [] (map Some fs)" by (simp add: schemaEntries_def 1(9))
  have run: "ids.run c1 (schemaEntries ds) c"
    using compileMembers_run [OF numbers(1)] numbers(2) 1(6) unfolding entries members_run_def by blast
  have start: "compiler_inv c1" "currentActive c1 = []" using startCompiler_inv [OF 1(5)] by auto
  have active: "currentActive c = schemaEntries ds" using ids.run_active [OF run] start(2) by simp
  have "map_of (currentActive c) (fieldIdentitySegment (fd_number fd)) \<noteq> None" if "fd \<in> set (md_fields md)" for fd
  proof -
    have "fieldIdentitySegment (fd_number fd) \<in> set (map (fieldIdentity []) fs)"
      using compileMembers_identities [OF numbers(2) 1(6)] that by (auto simp: sortedFields_def appendIdentity_def)
    then obtain f where "f \<in> set fs" "fieldIdentity [] f = fieldIdentitySegment (fd_number fd)" by auto
    with fieldsEntries_member [of f fs "[]"] show ?thesis
      unfolding active entries map_of_eq_None_iff by force
  qed
  then show thesis
    using that [OF 1(1) 1(5) run start ids.run_inv [OF run start(1)] active] 1(9) by simp
qed

lemma CompileMessage_ledger:
  assumes "CompileMessage E descriptor previous = Inr ds" "descriptor = Some md"
    and start: "startCompiler E md previous = Inr c1" and run: "ids.run c1 (schemaEntries ds) c"
    and inv: "compiler_inv c" and active: "currentActive c = schemaEntries ds"
    and ret: "retired_fields ds = map Some (sortRetired (mergeRetired c))"
    and top: "\<And>fd. fd \<in> set (md_fields md) \<Longrightarrow> map_of (currentActive c) (fieldIdentitySegment (fd_number fd)) \<noteq> None"
  shows "(i, n) \<in> set (schemaEntries ds @ retiredEntries ds) \<longleftrightarrow> ledger c n = Some i"
proof -
  note old = compiler_invD [OF inv]
  have act: "(i, n) \<in> set (schemaEntries ds) \<longleftrightarrow> map_of (currentActive c) i = Some n"
    using old(6) unfolding active by simp
  have rets: "(i, n) \<in> set (retiredEntries ds) \<longleftrightarrow> (\<exists>r. map_of (mergeRetired c) i = Some r \<and> rf_stable_id r = n)"
    using mergeRetired_facts(2) [OF inv] rf_identity_mergeRetired [of c i] old
    by (auto simp: retiredEntries_def ret ledger_agrees_def previous_indexed_def dest: map_of_SomeD intro!: rev_image_eqI)
  have first: "map_of (currentActive c) i = Some m" if "map_of (firstTopLevelIDs c) i = Some m" for m
  proof (cases previous)
    case None
    with start have loop: "foldE reserveTopLevel (emptyCompiler md) (sortedFields (md_fields md)) = Inr c1"
      by (simp add: startCompiler_def newDatasetCompiler_def)
    from reserve_loop_first [OF this, of i] that run_frame [OF run] top
    obtain k where k: "map_of (currentActive c) i = Some k"
      by (auto simp: emptyCompiler_def sortedFields_def appendIdentity_def)
    have "previousActive c1 = []"
      using reserve_loop [OF loop top_level_inv_empty] by (simp add: top_level_inv_def)
    then have "k = m" using run_first [OF run, of i k m] k that run_frame [OF run] old(6) by (simp add: active)
    with k show ?thesis by simp
  next
    case (Some p)
    with start have "newDatasetCompiler E md (Some p) = Inr c1" by (auto simp: startCompiler_def andThen_eq_Inr)
    with that run_frame [OF run] newDatasetCompiler_previous show ?thesis by fastforce
  qed
  have own: "ledger c n = Some i" if "map_of (currentActive c) i = Some n \<or> map_of (previousActive c) i = Some n
      \<or> (\<exists>r. map_of (retired c) i = Some r \<and> rf_stable_id r = n)"
    using that old(1) by (auto simp: ledger_agrees_def)
  have uniq: "m = n" if "ledger c n = Some i" "map_of (currentActive c) i = Some m" "map_of (previousActive c) i = Some n" for m
    using run_retained [OF run, of i m n] that run_frame [OF run] old(6) by (simp add: active)
  show ?thesis
  proof
    assume "(i, n) \<in> set (schemaEntries ds @ retiredEntries ds)"
    then show "ledger c n = Some i" using own act rets retired_in_merge [OF inv, of i n] by auto
  next
    assume led: "ledger c n = Some i"
    from old(2) [unfolded ledger_covered_def, rule_format, OF led]
    consider "map_of (currentActive c) i = Some n"
      | m where "map_of (currentActive c) i = Some m" "map_of (previousActive c) i = Some n"
      | "map_of (currentActive c) i = None" "map_of (previousActive c) i = Some n"
      | r where "map_of (currentActive c) i = None" "map_of (retired c) i = Some r" "rf_stable_id r = n"
      using first [of n] old(3) [unfolded active_not_retired_def]
      by (cases "map_of (currentActive c) i") auto
    then have "map_of (currentActive c) i = Some n \<or> map_of (currentActive c) i = None \<and>
      (map_of (previousActive c) i = Some n \<or> (\<exists>r. map_of (retired c) i = Some r \<and> rf_stable_id r = n))"
      using uniq [OF led] by cases auto
    then show "(i, n) \<in> set (schemaEntries ds @ retiredEntries ds)"
      using act rets retired_in_merge [OF inv, of i n] by auto
  qed
qed

section \<open>From one schema to the next\<close>

lemma start_ledger:
  assumes start: "startCompiler E md (Some p) = Inr c"
  shows "ledger c = schemaLedger p" and "previousActive c = schemaEntries p"
    and "lastID c = last_field_id p"
    and "set (retiredEntries p) = {(i, n). \<exists>r. map_of (retired c) i = Some r \<and> rf_stable_id r = n}"
proof -
  from start have new: "newDatasetCompiler E md (Some p) = Inr c"
    by (auto simp: startCompiler_def andThen_eq_Inr)
  note prev = newDatasetCompiler_previous [OF new]
  note inv = compiler_invD [OF newDatasetCompiler_inv [OF new]]
  show pa: "previousActive c = schemaEntries p" and "lastID c = last_field_id p"
    using prev by (simp_all add: schemaEntries_def)
  have dist: "distinct (map fst (retired c))" "distinct (map fst (previousActive c))"
    using inv(5) by (simp_all add: previous_indexed_def)
  show ret: "set (retiredEntries p) = {(i, n). \<exists>r. map_of (retired c) i = Some r \<and> rf_stable_id r = n}"
  proof -
    have "map_of (retired c) i = Some r \<longleftrightarrow> (i, r) \<in> set (retired c)" for i r
      using dist(1) by simp
    then show ?thesis using prev by (auto simp: retiredEntries_def)
  qed
  have act: "(i, n) \<in> set (schemaEntries p) \<longleftrightarrow> map_of (previousActive c) i = Some n" for i n
    using dist(2) by (simp add: pa)
  have "map_of (map (\<lambda>(i, n). (n, i)) (schemaEntries p @ retiredEntries p)) = ledger c"
  proof (rule map_of_eqI)
    fix n i
    assume "(n, i) \<in> set (map (\<lambda>(i, n). (n, i)) (schemaEntries p @ retiredEntries p))"
    then have "(i, n) \<in> set (schemaEntries p) \<union> set (retiredEntries p)" by auto
    then show "ledger c n = Some i" using inv(1) unfolding act ret Un_iff by (auto simp: ledger_agrees_def)
  next
    fix n i
    assume "ledger c n = Some i"
    from inv(2) [unfolded ledger_covered_def, rule_format, OF this] prev
    have "(i, n) \<in> set (schemaEntries p) \<union> set (retiredEntries p)" unfolding act ret Un_iff by auto
    then show "(n, i) \<in> set (map (\<lambda>(i, n). (n, i)) (schemaEntries p @ retiredEntries p))" by force
  qed
  then show "ledger c = schemaLedger p" by (simp add: schemaLedger_def)
qed

lemma compiled_ledger:
  assumes "CompileMessage E descriptor previous = Inr ds" "well_typed E descriptor"
  shows "(i, n) \<in> set (schemaEntries ds @ retiredEntries ds) \<longleftrightarrow> schemaLedger ds n = Some i"
    and "distinct (map snd (schemaEntries ds @ retiredEntries ds))"
    and "distinct (map fst (schemaEntries ds @ retiredEntries ds))"
    and "schemaLedger ds n = Some i \<Longrightarrow> 1 \<le> n \<and> n \<le> last_field_id ds"
    and "last_field_id ds = 0 \<or> schemaLedger ds (last_field_id ds) \<noteq> None"
    and "0 \<le> last_field_id ds \<and> last_field_id ds \<le> maxStableID"
proof -
  obtain md c1 c where md: "descriptor = Some md" and start: "startCompiler E md previous = Inr c1"
    and run: "ids.run c1 (schemaEntries ds) c" and inv: "compiler_inv c"
    and active: "currentActive c = schemaEntries ds"
    and ret: "retired_fields ds = map Some (sortRetired (mergeRetired c))"
    and last: "last_field_id ds = lastID c"
    and top: "\<And>fd. fd \<in> set (md_fields md) \<Longrightarrow> map_of (currentActive c) (fieldIdentitySegment (fd_number fd)) \<noteq> None"
    using CompileMessage_run [OF assms] by metis
  note old = compiler_invD [OF inv]
  have led: "(i, n) \<in> set (schemaEntries ds @ retiredEntries ds) \<longleftrightarrow> ledger c n = Some i" for i n
    using assms(1) md start run inv active ret top by (rule CompileMessage_ledger)
  have eq: "schemaLedger ds = ledger c"
    unfolding schemaLedger_def
    by (rule map_of_eqI) (use led in force)+
  show "(i, n) \<in> set (schemaEntries ds @ retiredEntries ds) \<longleftrightarrow> schemaLedger ds n = Some i"
    using led eq by simp
  have rids: "map fst (retiredEntries ds) = map rf_identity (sortRetired (mergeRetired c))"
    by (simp add: retiredEntries_def ret comp_def)
  have disj: "i \<notin> set (map fst (retiredEntries ds))" if "i \<in> set (map fst (schemaEntries ds))" for i
  proof
    assume "i \<in> set (map fst (retiredEntries ds))"
    then obtain r where "r \<in> set (sortRetired (mergeRetired c))" "rf_identity r = i" unfolding rids by auto
    then have "\<exists>r. map_of (mergeRetired c) i = Some r \<and> rf_stable_id r = rf_stable_id r"
      using mergeRetired_facts(2) [OF inv] by auto
    then have "map_of (currentActive c) i = None" using retired_in_merge [OF inv] by blast
    with that show False unfolding active map_of_eq_None_iff by simp
  qed
  show dist: "distinct (map fst (schemaEntries ds @ retiredEntries ds))"
    using old(6) mergeRetired_facts(1) [OF inv] disj unfolding map_append distinct_append rids active by blast
  have "inj_on snd (set (schemaEntries ds @ retiredEntries ds))"
  proof (rule inj_onI)
    fix x y
    assume "x \<in> set (schemaEntries ds @ retiredEntries ds)" "y \<in> set (schemaEntries ds @ retiredEntries ds)"
      "snd x = snd y"
    then have "ledger c (snd x) = Some (fst x)" "ledger c (snd x) = Some (fst y)"
      by (metis led prod.collapse)+
    with \<open>snd x = snd y\<close> show "x = y" by (simp add: prod_eq_iff)
  qed
  moreover have "distinct (schemaEntries ds @ retiredEntries ds)" using dist distinct_map by blast
  ultimately show "distinct (map snd (schemaEntries ds @ retiredEntries ds))" unfolding distinct_map by simp
  show "schemaLedger ds n = Some i \<Longrightarrow> 1 \<le> n \<and> n \<le> last_field_id ds"
    "last_field_id ds = 0 \<or> schemaLedger ds (last_field_id ds) \<noteq> None"
    "0 \<le> last_field_id ds \<and> last_field_id ds \<le> maxStableID"
    using old(1,4) unfolding eq last ledger_agrees_def last_is_highest_def by auto
qed


lemma evolution_step:
  assumes comp: "CompileMessage E descriptor (Some p) = Inr ds" and typed: "well_typed E descriptor"
  shows "schemaLedger p \<subseteq>\<^sub>m schemaLedger ds"
    and "last_field_id p \<le> last_field_id ds"
    and "set (retiredEntries p) \<subseteq> set (retiredEntries ds)"
    and "(i, n) \<in> set (schemaEntries p) \<Longrightarrow> (i, n) \<in> set (schemaEntries ds) \<or> (i, n) \<in> set (retiredEntries ds)"
    and "(i, n) \<in> set (schemaEntries ds) \<Longrightarrow> i \<notin> fst ` set (schemaEntries p) \<Longrightarrow> last_field_id p < n"
proof -
  obtain md c1 c where start: "startCompiler E md (Some p) = Inr c1"
    and run: "ids.run c1 (schemaEntries ds) c" and inv1: "compiler_inv c1" and inv: "compiler_inv c"
    and active: "currentActive c = schemaEntries ds"
    and ret: "retired_fields ds = map Some (sortRetired (mergeRetired c))"
    and last: "last_field_id ds = lastID c"
    and led: "\<And>i n. (i, n) \<in> set (schemaEntries ds @ retiredEntries ds) \<longleftrightarrow> ledger c n = Some i"
    using CompileMessage_run [OF comp typed] CompileMessage_ledger [OF comp] by metis
  note st = start_ledger [OF start] and frame = run_frame [OF run]
  have eq: "schemaLedger ds = ledger c"
    unfolding schemaLedger_def by (rule map_of_eqI) (use led in force)+
  show le: "schemaLedger p \<subseteq>\<^sub>m schemaLedger ds"
    using ids.run_owner [OF run inv1] unfolding eq st(1) .
  show "last_field_id p \<le> last_field_id ds" using run_last [OF run] unfolding last st(3) .
  have nret: "i \<notin> fst ` set (retiredEntries p)" if "(i, n) \<in> set (schemaEntries ds)" for i n
    using run_not_retired [OF run that] unfolding st(4) by auto
  have keep: "(i, n) \<in> set (schemaEntries ds @ retiredEntries ds)"
    if "(i, n) \<in> set (schemaEntries p) \<union> set (retiredEntries p)" for i n
  proof -
    have "ledger c1 n = Some i"
      using that compiler_invD(1) [OF inv1] unfolding st(4) st(2) [symmetric]
      using compiler_invD(5) [OF inv1] by (auto simp: ledger_agrees_def previous_indexed_def)
    with le show ?thesis unfolding led eq st(1) map_le_def by (metis domI)
  qed
  show "set (retiredEntries p) \<subseteq> set (retiredEntries ds)"
    using keep nret by (force simp: image_iff)
  show "(i, n) \<in> set (schemaEntries p) \<Longrightarrow> (i, n) \<in> set (schemaEntries ds) \<or> (i, n) \<in> set (retiredEntries ds)"
    using keep [of i n] by auto
  have first: "firstTopLevelIDs c1 = []"
    using start newDatasetCompiler_previous by (auto simp: startCompiler_def andThen_eq_Inr)
  show "(i, n) \<in> set (schemaEntries ds) \<Longrightarrow> i \<notin> fst ` set (schemaEntries p) \<Longrightarrow> last_field_id p < n"
    using run_fresh [OF run, of i n] first unfolding st(2) [symmetric] st(3) by (simp add: map_of_eq_None_iff)
qed

end
