(* ===== verification/Examples.thy ===== *)
theory Examples
  imports Compiler_Ledger
begin

text \<open>
  Concrete descriptors on which the witnesses evaluate the model. \<open>plainEnv\<close> answers the
  name questions the way \<^verbatim>\<open>protoreflect\<close> documents them: a name is an identifier, a full name
  is identifiers joined by dots. The running example is an order with a repeated item and a
  map, and its second version, which removes the map, reserves its number and name, and adds
  a field.
\<close>

definition plainNameValid :: "string \<Rightarrow> bool" where
  "plainNameValid s \<longleftrightarrow> s \<noteq> [] \<and> \<not> isDigit (hd s) \<and>
     list_all (\<lambda>c. IsLower c \<or> IsUpper c \<or> isDigit c \<or> c = CHR ''_'') s"

definition plainEnv :: "message_descriptor list \<Rightarrow> proto_env" where
  "plainEnv mds = \<lparr>env_messages = map (\<lambda>md. (md_full_name md, md)) mds,
     Name_IsValid = plainNameValid,
     FullName_IsValid = (\<lambda>s. list_all plainNameValid (splitOn CHR ''.'' s)),
     FullName_Name = (\<lambda>s. case cutLast CHR ''.'' s of None \<Rightarrow> s | Some (_, n) \<Rightarrow> n),
     FullName_Append = (\<lambda>p n. if p = [] then n else p @ ''.'' @ n)\<rparr>"

definition noLocation :: source_location where
  "noLocation = \<lparr>LeadingComments = [], TrailingComments = []\<rparr>"

definition noEnum :: enum_descriptor where
  "noEnum = \<lparr>ed_full_name = [], ed_values = [], ed_is_closed = False\<rparr>"

definition scalarValue :: "proto_kind \<Rightarrow> value_descriptor" where
  "scalarValue k = \<lparr>fd_kind = k, fd_enum = noEnum, fd_message = []\<rparr>"

definition plainField :: "string \<Rightarrow> string list \<Rightarrow> int \<Rightarrow> string \<Rightarrow> proto_kind \<Rightarrow> field_descriptor" where
  "plainField container reserved n name k =
     \<lparr>fd_kind = k, fd_enum = noEnum, fd_message = [], fd_number = n, fd_name = name,
      fd_full_name = container @ ''.'' @ name, fd_is_map = False, fd_is_list = False,
      fd_required = False, fd_containing_oneof = None, fd_has_presence = False,
      fd_has_default = False, fd_default_value = [], fd_json_name = name, fd_location = noLocation,
      fd_options = NoExtension, fd_containing_full_name = container,
      fd_containing_reserved = (\<lambda>s. s \<in> set reserved), fd_map_key = scalarValue k,
      fd_map_value = scalarValue k\<rparr>"

definition plainMessage :: "string \<Rightarrow> field_descriptor list \<Rightarrow> string list \<Rightarrow> int list \<Rightarrow> message_descriptor" where
  "plainMessage name flds reserved numbers =
     \<lparr>md_full_name = name, md_is_map_entry = False, md_fields = flds,
      md_reserved_names = (\<lambda>s. s \<in> set reserved), md_reserved_ranges = (\<lambda>n. n \<in> set numbers),
      md_extension_ranges = 0, md_dataset_option = NoExtension, md_location = noLocation\<rparr>"

definition itemMessage :: message_descriptor where
  "itemMessage = plainMessage ''shop.Item'' [plainField ''shop.Item'' [] 1 ''sku'' StringKind] [] []"

definition itemsField :: "string list \<Rightarrow> field_descriptor" where
  "itemsField reserved = (plainField ''shop.Order'' reserved 2 ''items'' MessageKind)
     \<lparr>fd_message := ''shop.Item'', fd_is_list := True\<rparr>"

definition orderV1 :: message_descriptor where
  "orderV1 = plainMessage ''shop.Order''
     [plainField ''shop.Order'' [] 1 ''orderId'' StringKind, itemsField [],
      (plainField ''shop.Order'' [] 3 ''totals'' MessageKind)
        \<lparr>fd_is_map := True, fd_map_key := scalarValue StringKind, fd_map_value := scalarValue Int64Kind\<rparr>] [] []"

definition orderV2 :: message_descriptor where
  "orderV2 = plainMessage ''shop.Order''
     [plainField ''shop.Order'' [''totals''] 4 ''note'' StringKind,
      plainField ''shop.Order'' [''totals''] 1 ''orderId'' StringKind, itemsField [''totals'']]
     [''totals''] [3]"

definition shopEnv :: "message_descriptor \<Rightarrow> proto_env" where
  "shopEnv md = plainEnv [md, itemMessage]"

text \<open>A message that contains itself.\<close>

definition nodeMessage :: message_descriptor where
  "nodeMessage = plainMessage ''shop.Node''
     [(plainField ''shop.Node'' [] 1 ''next'' MessageKind)\<lparr>fd_message := ''shop.Node''\<rparr>] [] []"

definition resultOf :: "message_error + dataset_schema \<Rightarrow> dataset_schema" where
  "resultOf r = (case r of Inr ds \<Rightarrow> ds | Inl _ \<Rightarrow> \<lparr>source_message = [], ds_name = [], ds_description = [],
     ds_fields = [], last_field_id = 0, retired_fields = []\<rparr>)"

definition schemaV1 :: dataset_schema where
  "schemaV1 = resultOf (CompileMessage (shopEnv orderV1) (Some orderV1) None)"

definition schemaV2 :: dataset_schema where
  "schemaV2 = resultOf (CompileMessage (shopEnv orderV2) (Some orderV2) (Some schemaV1))"

lemma resultOf_Inr: "isl r = False \<Longrightarrow> r = Inr (resultOf r)"
  by (cases r) (auto simp: resultOf_def)

lemma compile_V1: "CompileMessage (shopEnv orderV1) (Some orderV1) None = Inr schemaV1"
proof -
  have "isl (CompileMessage (shopEnv orderV1) (Some orderV1) None) = False" by code_simp
  then show ?thesis unfolding schemaV1_def by (rule resultOf_Inr)
qed

lemma compile_V2: "CompileMessage (shopEnv orderV2) (Some orderV2) (Some schemaV1) = Inr schemaV2"
proof -
  have "isl (CompileMessage (shopEnv orderV2) (Some orderV2) (Some schemaV1)) = False" by code_simp
  then show ?thesis unfolding schemaV2_def by (rule resultOf_Inr)
qed

lemma shop_typed:
  "well_typed (shopEnv orderV1) (Some orderV1)" "well_typed (shopEnv orderV2) (Some orderV2)"
  by code_simp+

end
