(* ===== verification/Compiler_Properties.thy ===== *)
theory Compiler_Properties
  imports Examples
begin

text \<open>
  What the compiler promises about stable IDs: they are unique and in range in every schema it
  returns, an ID stays with its identity in every later version, a tombstone is never removed or
  revived, and a new identity gets an ID above every earlier one.
\<close>

text \<open>Any number of compilations, each from the schema the one before returned.\<close>

inductive evolves :: "dataset_schema \<Rightarrow> dataset_schema \<Rightarrow> bool" where
  unchanged: "evolves p p"
| compiled: "evolves p q \<Longrightarrow> well_typed E descriptor \<Longrightarrow>
     CompileMessage E descriptor (Some q) = Inr r \<Longrightarrow> evolves p r"

section \<open>Shared facts\<close>

lemma evolves_ledger:
  "evolves p q \<Longrightarrow> schemaLedger p \<subseteq>\<^sub>m schemaLedger q \<and> last_field_id p \<le> last_field_id q
     \<and> set (retiredEntries p) \<subseteq> set (retiredEntries q)"
proof (induction rule: evolves.induct)
  case (compiled p q E descriptor r)
  from evolution_step(1-3) [OF compiled(3,2)] compiled.IH show ?case
    by (blast intro: map_le_trans order_trans)
qed simp

lemma evolves_V1_V2: "evolves schemaV1 schemaV2"
  by (rule evolves.compiled [OF evolves.unchanged shop_typed(2) compile_V2])

lemma retired_ids: "map snd (retiredEntries ds) = map rf_stable_id (List.map_filter (\<lambda>r. r) (retired_fields ds))"
  by (simp add: retiredEntries_def comp_def)

section \<open>Properties\<close>

text \<open>(C1) In every schema the compiler returns, the stable IDs of all fields, however deeply
  nested, and of all tombstones are pairwise different, and all lie between 1 and
  \<^verbatim>\<open>last_field_id\<close>, which is at most \<^verbatim>\<open>maxStableID\<close>.\<close>

theorem compiled_ids_unique:
  assumes "CompileMessage E descriptor previous = Inr ds" and "well_typed E descriptor"
    and "allIDs = fieldsIDs (ds_fields ds)
      @ map rf_stable_id (List.map_filter (\<lambda>r. r) (retired_fields ds))"
  shows "distinct allIDs \<and> (\<forall>n \<in> set allIDs. 1 \<le> n \<and> n \<le> last_field_id ds)
    \<and> last_field_id ds \<le> maxStableID"
proof -
  note led = compiled_ledger [OF assms(1,2)]
  have ids: "allIDs = map snd (schemaEntries ds @ retiredEntries ds)"
    by (simp add: assms(3) schemaEntries_def retired_ids)
  have "1 \<le> n \<and> n \<le> last_field_id ds" if "n \<in> set allIDs" for n
  proof -
    from that [unfolded ids set_map] obtain x where x: "x \<in> set (schemaEntries ds @ retiredEntries ds)" "n = snd x"
      by blast
    then have "schemaLedger ds n = Some (fst x)" using led(1) [of "fst x" n] by simp
    then show ?thesis by (rule led(4))
  qed
  with led(2,6) show ?thesis unfolding ids by blast
qed

theorem compiled_ids_unique_witness:
  "distinct (fieldsIDs (ds_fields schemaV1)) \<and> last_field_id schemaV1 \<le> maxStableID"
  using compiled_ids_unique [OF compile_V1 shop_typed(1) refl] by simp

text \<open>(C2) Compiling from a previous schema only extends its ledger: an ID that belonged to an
  identity, active or retired, still belongs to it, and \<^verbatim>\<open>last_field_id\<close> never decreases.\<close>

theorem evolution_keeps_ledger:
  assumes "CompileMessage E descriptor (Some p) = Inr ds" and "well_typed E descriptor"
  shows "schemaLedger p \<subseteq>\<^sub>m schemaLedger ds \<and> last_field_id p \<le> last_field_id ds"
  using evolution_step [OF assms] by blast

theorem evolution_keeps_ledger_witness:
  "schemaLedger schemaV1 \<subseteq>\<^sub>m schemaLedger schemaV2 \<and> last_field_id schemaV1 \<le> last_field_id schemaV2"
  by (rule evolution_keeps_ledger [OF compile_V2 shop_typed(2)])

text \<open>(C3) A field that a new version removes leaves a tombstone with its identity and ID, and the
  tombstones of the previous schema stay: no previous identity disappears, and none that is
  retired is active again.\<close>

theorem removed_fields_are_retired:
  assumes "CompileMessage E descriptor (Some p) = Inr ds" and "well_typed E descriptor"
  shows "set (retiredEntries p) \<subseteq> set (retiredEntries ds)
    \<and> set (schemaEntries p) \<subseteq> set (schemaEntries ds) \<union> set (retiredEntries ds)
    \<and> fst ` set (retiredEntries ds) \<inter> fst ` set (schemaEntries ds) = {}"
proof -
  have "fst ` set (retiredEntries ds) \<inter> fst ` set (schemaEntries ds) = {}"
    using compiled_ledger(3) [OF assms] unfolding map_append distinct_append set_map by blast
  moreover have "set (schemaEntries p) \<subseteq> set (schemaEntries ds) \<union> set (retiredEntries ds)"
  proof
    fix e
    assume "e \<in> set (schemaEntries p)"
    then show "e \<in> set (schemaEntries ds) \<union> set (retiredEntries ds)"
      using evolution_step(4) [OF assms, of "fst e" "snd e"] by simp
  qed
  ultimately show ?thesis using evolution_step(3) [OF assms] by blast
qed

theorem removed_fields_are_retired_witness:
  "retiredEntries schemaV2 = [(''field:3'', 3), (''field:3/map:key'', 6), (''field:3/map:value'', 7)]
   \<and> set (schemaEntries schemaV1) \<subseteq> set (schemaEntries schemaV2) \<union> set (retiredEntries schemaV2)"
proof -
  have "retiredEntries schemaV2 = [(''field:3'', 3), (''field:3/map:key'', 6), (''field:3/map:value'', 7)]"
    by code_simp
  with removed_fields_are_retired [OF compile_V2 shop_typed(2)] show ?thesis by blast
qed

text \<open>(C4) A field whose identity is new gets an ID above every ID of the previous schema, so the
  ID of a removed field is never used again.\<close>

theorem new_fields_get_new_ids:
  assumes "CompileMessage E descriptor (Some p) = Inr ds" and "well_typed E descriptor"
    and "(i, n) \<in> set (schemaEntries ds)" and "i \<notin> fst ` set (schemaEntries p)"
  shows "last_field_id p < n"
  using evolution_step(5) [OF assms(1,2)] assms(3,4) by blast

theorem new_fields_get_new_ids_witness: "last_field_id schemaV1 < 8"
proof (rule new_fields_get_new_ids [OF compile_V2 shop_typed(2)])
  show "(''field:4'', 8) \<in> set (schemaEntries schemaV2)" by code_simp
  show "''field:4'' \<notin> fst ` set (schemaEntries schemaV1)" by code_simp
qed

text \<open>(C5) Over any number of compilations, an ID that two versions both list belongs to the same
  identity in both: a stable ID is never given to a second identity.\<close>

theorem ids_are_never_reused:
  assumes "evolves p q" and "schemaLedger p n = Some i" and "schemaLedger q n = Some j"
  shows "i = j"
proof -
  from evolves_ledger [OF assms(1)] assms(2) have "schemaLedger q n = Some i"
    by (auto simp: map_le_def dom_def)
  with assms(3) show ?thesis by simp
qed

theorem ids_are_never_reused_witness:
  "schemaLedger schemaV1 3 = Some ''field:3'' \<and> ''field:3'' = the (schemaLedger schemaV2 3)"
proof -
  have "schemaLedger schemaV1 3 = Some ''field:3''" by code_simp
  moreover have "schemaLedger schemaV2 3 = Some (the (schemaLedger schemaV2 3))" by code_simp
  ultimately show ?thesis using ids_are_never_reused [OF evolves_V1_V2] by blast
qed

end
