(* ===== verification/Utf8.thy ===== *)
theory Utf8
  imports Go_Strings
begin

text \<open>
  UTF-8 as the Go packages \<^verbatim>\<open>unicode/utf8\<close> and \<^verbatim>\<open>encoding/json\<close> treat it: decoding of the first
  rune of a byte string with the exact ranges of the second byte, validity, encoding of a rune, the
  \<^verbatim>\<open>range\<close> loop over a string, and JSON string literals. A rune is a \<^typ>\<open>nat\<close>.
\<close>

section \<open>Runes\<close>

definition byteVal :: "char \<Rightarrow> nat" where
  "byteVal c = of_char c"

definition between :: "nat \<Rightarrow> nat \<Rightarrow> char \<Rightarrow> bool" where
  "between lo hi c \<longleftrightarrow> lo \<le> byteVal c \<and> byteVal c \<le> hi"

text \<open>The first rune of a string and its length in bytes, \<open>None\<close> where the bytes are not UTF-8.\<close>

fun decodeRune :: "string \<Rightarrow> (nat \<times> nat) option" where
  "decodeRune [] = None"
| "decodeRune (b # bs) =
     (if byteVal b < 0x80 then Some (byteVal b, 1)
      else if between 0xC2 0xDF b then
        (case bs of
           c1 # _ \<Rightarrow>
             if between 0x80 0xBF c1 then Some ((byteVal b - 0xC0) * 64 + (byteVal c1 - 0x80), 2) else None
         | [] \<Rightarrow> None)
      else if between 0xE0 0xEF b then
        (case bs of
           c1 # c2 # _ \<Rightarrow>
             if between (if byteVal b = 0xE0 then 0xA0 else 0x80) (if byteVal b = 0xED then 0x9F else 0xBF) c1
               \<and> between 0x80 0xBF c2
             then Some ((byteVal b - 0xE0) * 4096 + (byteVal c1 - 0x80) * 64 + (byteVal c2 - 0x80), 3) else None
         | _ \<Rightarrow> None)
      else if between 0xF0 0xF4 b then
        (case bs of
           c1 # c2 # c3 # _ \<Rightarrow>
             if between (if byteVal b = 0xF0 then 0x90 else 0x80) (if byteVal b = 0xF4 then 0x8F else 0xBF) c1
               \<and> between 0x80 0xBF c2 \<and> between 0x80 0xBF c3
             then Some ((byteVal b - 0xF0) * 262144 + (byteVal c1 - 0x80) * 4096 + (byteVal c2 - 0x80) * 64
                    + (byteVal c3 - 0x80), 4) else None
         | _ \<Rightarrow> None)
      else None)"

lemma decodeRune_size: "decodeRune s = Some (r, n) \<Longrightarrow> 0 < n \<and> n \<le> length s"
  by (cases s) (auto split: if_splits list.splits)

function ValidString :: "string \<Rightarrow> bool" where
  "ValidString s \<longleftrightarrow>
     s = [] \<or> (case decodeRune s of None \<Rightarrow> False | Some (_, n) \<Rightarrow> ValidString (drop n s))"
  by pat_completeness auto
termination
proof (relation "measure length")
  fix s and x r n
  assume "decodeRune s = Some x" and "(r, n) = x"
  then show "(drop n s, s) \<in> measure length" using decodeRune_size [of s r n] by auto
qed simp

declare ValidString.simps [simp del]

text \<open>\<^verbatim>\<open>for _, r := range s\<close>: the runes of a string, each with the bytes it stands for; a byte that does
  not start a valid encoding is the replacement rune.\<close>

definition RuneError :: nat where
  "RuneError = 0xFFFD"

function runes :: "string \<Rightarrow> (nat \<times> string) list" where
  "runes s =
     (if s = [] then []
      else case decodeRune s of
             None \<Rightarrow> (RuneError, [hd s]) # runes (tl s)
           | Some (r, n) \<Rightarrow> (r, take n s) # runes (drop n s))"
  by pat_completeness auto
termination
proof (relation "measure length")
  fix s and x r n
  assume "s \<noteq> []" and "decodeRune s = Some x" and "(r, n) = x"
  then show "(drop n s, s) \<in> measure length" using decodeRune_size [of s r n] by auto
qed auto

declare runes.simps [simp del]

definition EncodeRune :: "nat \<Rightarrow> string" where
  "EncodeRune r =
     (if r < 0x80 then [char_of r]
      else if r < 0x800 then [char_of (0xC0 + r div 64), char_of (0x80 + r mod 64)]
      else if (0xD800 \<le> r \<and> r \<le> 0xDFFF) \<or> 0x10FFFF < r then [CHR 0xEF, CHR 0xBF, CHR 0xBD]
      else if r < 0x10000 then
        [char_of (0xE0 + r div 4096), char_of (0x80 + r div 64 mod 64), char_of (0x80 + r mod 64)]
      else [char_of (0xF0 + r div 262144), char_of (0x80 + r div 4096 mod 64),
        char_of (0x80 + r div 64 mod 64), char_of (0x80 + r mod 64)])"

text \<open>\<^verbatim>\<open>utf8.RuneLen\<close>, -1 for a rune that has no encoding.\<close>

definition RuneLen :: "nat \<Rightarrow> int" where
  "RuneLen r =
     (if r < 0x80 then 1 else if r < 0x800 then 2
      else if 0xD800 \<le> r \<and> r \<le> 0xDFFF then -1
      else if r < 0x10000 then 3 else if r \<le> 0x10FFFF then 4 else -1)"

text \<open>\<^verbatim>\<open>unicode.IsControl\<close>\<close>

definition IsControl :: "nat \<Rightarrow> bool" where
  "IsControl r \<longleftrightarrow> r < 0x20 \<or> (0x7F \<le> r \<and> r \<le> 0x9F)"

section \<open>JSON string literals\<close>

text \<open>\<^verbatim>\<open>encoding/json\<close> writes a string rune by rune: quotes, backslashes and control characters are
  escaped, and so are the characters that are special in HTML, the line separators U+2028 and U+2029,
  and bytes that are not UTF-8.\<close>

definition hexDigit :: "nat \<Rightarrow> char" where
  "hexDigit d = ''0123456789abcdef'' ! d"

definition jsonUnicode :: "nat \<Rightarrow> string" where
  "jsonUnicode r = [CHR 0x5C, CHR ''u'', hexDigit (r div 4096 mod 16), hexDigit (r div 256 mod 16),
     hexDigit (r div 16 mod 16), hexDigit (r mod 16)]"

definition jsonRune :: "nat \<times> string \<Rightarrow> string" where
  "jsonRune x = (case x of (r, bytes) \<Rightarrow>
     if r = 0x22 \<or> r = 0x5C then CHR 0x5C # bytes
     else if r = 0x08 then [CHR 0x5C, CHR ''b''] else if r = 0x0C then [CHR 0x5C, CHR ''f'']
     else if r = 0x0A then [CHR 0x5C, CHR ''n''] else if r = 0x0D then [CHR 0x5C, CHR ''r'']
     else if r = 0x09 then [CHR 0x5C, CHR ''t'']
     else if r < 0x20 \<or> r \<in> {0x3C, 0x3E, 0x26} \<or> r \<in> {0x2028, 0x2029} then jsonUnicode r
     else if r = RuneError \<and> length bytes = 1 then jsonUnicode r
     else bytes)"

definition jsonString :: "string \<Rightarrow> string" where
  "jsonString s = [CHR 0x22] @ concat (map jsonRune (runes s)) @ [CHR 0x22]"

section \<open>Facts\<close>

lemma byteVal_less [simp]: "byteVal c < 256"
  by (simp add: byteVal_def)

lemma char_of_byteVal [simp]: "char_of (byteVal c) = c"
  by (simp add: byteVal_def)

lemma base64_digits: "z < 64 \<Longrightarrow> (a * 64 + z) div 64 = a \<and> (a * 64 + z) mod 64 = (z :: nat)"
  by simp

lemma encode_two:
  assumes "2 \<le> x" "x < 32" "y < 64"
  shows "EncodeRune (x * 64 + y) = [char_of (0xC0 + x), char_of (0x80 + y)] \<and> RuneLen (x * 64 + y) = 2"
proof -
  have "0x80 \<le> x * 64 + y" "x * 64 + y < 0x800" using assms by simp_all
  then show ?thesis using base64_digits [OF assms(3), of x] by (simp add: EncodeRune_def RuneLen_def)
qed

lemma encode_three:
  assumes "x < 16" "y < 64" "z < 64" "x = 0 \<Longrightarrow> 32 \<le> y" "x = 13 \<Longrightarrow> y < 32"
  shows "EncodeRune ((x * 64 + y) * 64 + z) = [char_of (0xE0 + x), char_of (0x80 + y), char_of (0x80 + z)]
    \<and> RuneLen ((x * 64 + y) * 64 + z) = 3"
proof -
  define r where "r = (x * 64 + y) * 64 + z"
  have "r div 64 = x * 64 + y" "r mod 64 = z" unfolding r_def using base64_digits [OF assms(3)] by blast+
  moreover have "(x * 64 + y) mod 64 = y" "(x * 64 + y) div 64 = x" using base64_digits [OF assms(2)] by blast+
  moreover have "r div 4096 = r div 64 div 64" by (simp add: div_mult2_eq [symmetric])
  moreover have "0x800 \<le> r" "r < 0x10000" using assms by (cases "x = 0"; auto simp: r_def)+
  moreover have "\<not> (0xD800 \<le> r \<and> r \<le> 0xDFFF)" using assms by (cases "x = 13"; auto simp: r_def)
  ultimately show ?thesis unfolding r_def [symmetric] by (auto simp add: EncodeRune_def RuneLen_def)
qed

lemma encode_four:
  assumes "x < 5" "y < 64" "z < 64" "w < 64" "x = 0 \<Longrightarrow> 16 \<le> y" "x = 4 \<Longrightarrow> y < 16"
  shows "EncodeRune (((x * 64 + y) * 64 + z) * 64 + w) =
      [char_of (0xF0 + x), char_of (0x80 + y), char_of (0x80 + z), char_of (0x80 + w)]
    \<and> RuneLen (((x * 64 + y) * 64 + z) * 64 + w) = 4"
proof -
  define r where "r = ((x * 64 + y) * 64 + z) * 64 + w"
  have "r div 64 = (x * 64 + y) * 64 + z" "r mod 64 = w" unfolding r_def using base64_digits [OF assms(4)] by blast+
  moreover have "((x * 64 + y) * 64 + z) mod 64 = z" "((x * 64 + y) * 64 + z) div 64 = x * 64 + y"
    using base64_digits [OF assms(3)] by blast+
  moreover have "(x * 64 + y) mod 64 = y" "(x * 64 + y) div 64 = x" using base64_digits [OF assms(2)] by blast+
  moreover have "r div 4096 = r div 64 div 64" "r div 262144 = r div 64 div 64 div 64"
    by (simp_all add: div_mult2_eq [symmetric])
  moreover have "0x10000 \<le> r" "r \<le> 0x10FFFF" using assms by (cases "x = 0"; cases "x = 4"; auto simp: r_def)+
  ultimately show ?thesis unfolding r_def [symmetric] by (auto simp add: EncodeRune_def RuneLen_def)
qed

lemma decode_encode:
  assumes "decodeRune s = Some (r, n)"
  shows "EncodeRune r = take n s \<and> RuneLen r = int n"
proof -
  obtain b bs where s: "s = b # bs" using assms by (cases s) auto
  consider (one) "byteVal b < 0x80" "r = byteVal b" "n = 1"
    | (two) c1 t where "bs = c1 # t" "between 0xC2 0xDF b" "between 0x80 0xBF c1"
        "r = (byteVal b - 0xC0) * 64 + (byteVal c1 - 0x80)" "n = 2"
    | (three) c1 c2 t where "bs = c1 # c2 # t" "between 0xE0 0xEF b"
        "between (if byteVal b = 0xE0 then 0xA0 else 0x80) (if byteVal b = 0xED then 0x9F else 0xBF) c1"
        "between 0x80 0xBF c2"
        "r = (byteVal b - 0xE0) * 4096 + (byteVal c1 - 0x80) * 64 + (byteVal c2 - 0x80)" "n = 3"
    | (four) c1 c2 c3 t where "bs = c1 # c2 # c3 # t" "between 0xF0 0xF4 b"
        "between (if byteVal b = 0xF0 then 0x90 else 0x80) (if byteVal b = 0xF4 then 0x8F else 0xBF) c1"
        "between 0x80 0xBF c2" "between 0x80 0xBF c3"
        "r = (byteVal b - 0xF0) * 262144 + (byteVal c1 - 0x80) * 4096 + (byteVal c2 - 0x80) * 64
                    + (byteVal c3 - 0x80)" "n = 4"
    using assms unfolding s by (auto split: if_splits list.splits)
  then show ?thesis
  proof cases
    case one
    then show ?thesis by (simp add: s EncodeRune_def RuneLen_def)
  next
    case two
    define x where "x = byteVal b - 0xC0"
    define y where "y = byteVal c1 - 0x80"
    have "2 \<le> x" "x < 32" "y < 64" and bytes: "byteVal b = 0xC0 + x" "byteVal c1 = 0x80 + y"
      using two by (auto simp: between_def x_def y_def)
    from encode_two [OF this(1-3)] two(1,5) show ?thesis
      unfolding two(4) x_def [symmetric] y_def [symmetric] bytes [symmetric] by (simp add: s)
  next
    case three
    define x where "x = byteVal b - 0xE0"
    define y where "y = byteVal c1 - 0x80"
    define z where "z = byteVal c2 - 0x80"
    have "x < 16" "y < 64" "z < 64" "x = 0 \<Longrightarrow> 32 \<le> y" "x = 13 \<Longrightarrow> y < 32"
      and bytes: "byteVal b = 0xE0 + x" "byteVal c1 = 0x80 + y" "byteVal c2 = 0x80 + z"
      using three by (auto simp: between_def x_def y_def z_def split: if_splits)
    moreover have "r = (x * 64 + y) * 64 + z" using three(5) by (simp add: x_def y_def z_def)
    ultimately show ?thesis using encode_three [of x y z] three(1,6) by (simp add: s bytes [symmetric])
  next
    case four
    define x where "x = byteVal b - 0xF0"
    define y where "y = byteVal c1 - 0x80"
    define z where "z = byteVal c2 - 0x80"
    define w where "w = byteVal c3 - 0x80"
    have "x < 5" "y < 64" "z < 64" "w < 64" "x = 0 \<Longrightarrow> 16 \<le> y" "x = 4 \<Longrightarrow> y < 16"
      and bytes: "byteVal b = 0xF0 + x" "byteVal c1 = 0x80 + y" "byteVal c2 = 0x80 + z" "byteVal c3 = 0x80 + w"
      using four by (auto simp: between_def x_def y_def z_def w_def split: if_splits)
    moreover have "r = ((x * 64 + y) * 64 + z) * 64 + w" using four(6) by (simp add: x_def y_def z_def w_def)
    ultimately show ?thesis using encode_four [of x y z w] four(1,7) by (simp add: s bytes [symmetric])
  qed
qed

lemma runes_Nil [simp]: "runes [] = []"
  by (simp add: runes.simps)

lemma runes_concat: "concat (map snd (runes s)) = s"
proof (induction s rule: runes.induct)
  case (1 s)
  then show ?case by (subst runes.simps) (auto split: option.splits)
qed

lemma ValidString_runes: "ValidString s \<Longrightarrow> (r, u) \<in> set (runes s) \<Longrightarrow> EncodeRune r = u \<and> RuneLen r = int (length u)"
proof (induction s rule: runes.induct)
  case (1 s)
  show ?case
  proof (cases "s = []")
    case True
    with "1.prems"(2) show ?thesis by simp
  next
    case False
    with "1.prems"(1) obtain q n where d: "decodeRune s = Some (q, n)" and v: "ValidString (drop n s)"
      by (auto simp: ValidString.simps [of s] split: option.splits)
    from "1.prems"(2) False d consider "r = q" "u = take n s" | "(r, u) \<in> set (runes (drop n s))"
      by (auto simp: runes.simps [of s])
    then show ?thesis
    proof cases
      case 1
      with decode_encode [OF d] decodeRune_size [OF d] show ?thesis by simp
    next
      case 2
      with "1.IH"(2) [OF False d refl v] show ?thesis by blast
    qed
  qed
qed

lemma decodeRune_append: "decodeRune s = Some x \<Longrightarrow> decodeRune (s @ t) = Some x"
  by (cases s) (auto split: if_splits list.splits)

lemma ValidString_append: "ValidString s \<Longrightarrow> ValidString t \<Longrightarrow> ValidString (s @ t)"
proof (induction s rule: ValidString.induct)
  case (1 s)
  show ?case
  proof (cases "s = []")
    case False
    with "1.prems"(1) obtain q n where d: "decodeRune s = Some (q, n)" and v: "ValidString (drop n s)"
      by (auto simp: ValidString.simps [of s] split: option.splits)
    from "1.IH" [OF d refl v "1.prems"(2)] have "ValidString (drop n (s @ t))"
      using decodeRune_size [OF d] by simp
    then show ?thesis using decodeRune_append [OF d, of t] by (simp add: ValidString.simps [of "s @ t"])
  qed (use "1.prems" in simp)
qed

lemma ValidString_ascii: "\<forall>c \<in> set s. byteVal c < 0x80 \<Longrightarrow> ValidString s"
proof (induction s)
  case (Cons c s)
  then show ?case by (subst ValidString.simps) simp
qed (simp add: ValidString.simps)

end
