(* ===== verification/Dialects.thy ===== *)
theory Dialects
  imports Schema_IR Utf8
begin

text \<open>
  What the storage dialects under \<^verbatim>\<open>go/data/\<close> share. The packages carry private copies of the
  same helpers (\<^verbatim>\<open>joinPath\<close>, \<^verbatim>\<open>jsonRangeReduction\<close>, \<^verbatim>\<open>decimalParameters\<close>); where the copies are
  equal they are one definition here. Every dialect walks the tree of logical fields with the
  same paths: a struct member is appended after a dot, a list element as \<^verbatim>\<open>[]\<close>, a map's key and
  value as \<^verbatim>\<open>.key\<close> and \<^verbatim>\<open>.value\<close>. \<open>fieldPaths\<close> is the specification of that walk.
\<close>

section \<open>Text of enums and quoted strings\<close>

definition jsonKindString :: "json_kind \<Rightarrow> string" where
  "jsonKindString k = (case k of
       JSON_KIND_UNSPECIFIED \<Rightarrow> ''JSON_KIND_UNSPECIFIED''
     | JSON_KIND_ANY \<Rightarrow> ''JSON_KIND_ANY''
     | JSON_KIND_STRUCT \<Rightarrow> ''JSON_KIND_STRUCT''
     | JSON_KIND_VALUE \<Rightarrow> ''JSON_KIND_VALUE''
     | JSON_KIND_LIST_VALUE \<Rightarrow> ''JSON_KIND_LIST_VALUE''
     | JSON_KIND_number n \<Rightarrow> FormatInt n)"

definition primitiveKindString :: "primitive_kind \<Rightarrow> string" where
  "primitiveKindString k = (case k of
       PRIMITIVE_KIND_UNSPECIFIED \<Rightarrow> ''PRIMITIVE_KIND_UNSPECIFIED''
     | PRIMITIVE_KIND_DOUBLE \<Rightarrow> ''PRIMITIVE_KIND_DOUBLE''
     | PRIMITIVE_KIND_FLOAT \<Rightarrow> ''PRIMITIVE_KIND_FLOAT''
     | PRIMITIVE_KIND_INT64 \<Rightarrow> ''PRIMITIVE_KIND_INT64''
     | PRIMITIVE_KIND_UINT64 \<Rightarrow> ''PRIMITIVE_KIND_UINT64''
     | PRIMITIVE_KIND_INT32 \<Rightarrow> ''PRIMITIVE_KIND_INT32''
     | PRIMITIVE_KIND_FIXED64 \<Rightarrow> ''PRIMITIVE_KIND_FIXED64''
     | PRIMITIVE_KIND_FIXED32 \<Rightarrow> ''PRIMITIVE_KIND_FIXED32''
     | PRIMITIVE_KIND_BOOL \<Rightarrow> ''PRIMITIVE_KIND_BOOL''
     | PRIMITIVE_KIND_STRING \<Rightarrow> ''PRIMITIVE_KIND_STRING''
     | PRIMITIVE_KIND_BYTES \<Rightarrow> ''PRIMITIVE_KIND_BYTES''
     | PRIMITIVE_KIND_UINT32 \<Rightarrow> ''PRIMITIVE_KIND_UINT32''
     | PRIMITIVE_KIND_SFIXED32 \<Rightarrow> ''PRIMITIVE_KIND_SFIXED32''
     | PRIMITIVE_KIND_SFIXED64 \<Rightarrow> ''PRIMITIVE_KIND_SFIXED64''
     | PRIMITIVE_KIND_SINT32 \<Rightarrow> ''PRIMITIVE_KIND_SINT32''
     | PRIMITIVE_KIND_SINT64 \<Rightarrow> ''PRIMITIVE_KIND_SINT64''
     | PRIMITIVE_KIND_number n \<Rightarrow> FormatInt n)"

definition presenceString :: "presence \<Rightarrow> string" where
  "presenceString p = (case p of
       PRESENCE_UNSPECIFIED \<Rightarrow> ''PRESENCE_UNSPECIFIED''
     | PRESENCE_IMPLICIT \<Rightarrow> ''PRESENCE_IMPLICIT''
     | PRESENCE_EXPLICIT \<Rightarrow> ''PRESENCE_EXPLICIT''
     | PRESENCE_REQUIRED \<Rightarrow> ''PRESENCE_REQUIRED''
     | PRESENCE_ONEOF \<Rightarrow> ''PRESENCE_ONEOF''
     | PRESENCE_REPEATED \<Rightarrow> ''PRESENCE_REPEATED''
     | PRESENCE_MAP \<Rightarrow> ''PRESENCE_MAP''
     | PRESENCE_NOT_APPLICABLE \<Rightarrow> ''PRESENCE_NOT_APPLICABLE''
     | PRESENCE_number n \<Rightarrow> FormatInt n)"

text \<open>The verb \<^verbatim>\<open>%q\<close> on a name: quotes and backslashes are escaped, control bytes are written as
  escapes. The quoted names are protobuf names, which are ASCII; other bytes are left alone.\<close>

definition quoteByte :: "char \<Rightarrow> string" where
  "quoteByte c =
     (let n = of_char c :: nat in
      if c = CHR 0x22 \<or> c = CHR 0x5C then [CHR 0x5C, c]
      else if n = 7 then [CHR 0x5C, CHR ''a''] else if n = 8 then [CHR 0x5C, CHR ''b'']
      else if n = 12 then [CHR 0x5C, CHR ''f''] else if n = 10 then [CHR 0x5C, CHR ''n'']
      else if n = 13 then [CHR 0x5C, CHR ''r''] else if n = 9 then [CHR 0x5C, CHR ''t'']
      else if n = 11 then [CHR 0x5C, CHR ''v'']
      else if n < 32 \<or> n = 127 then [CHR 0x5C, CHR ''x'', hexDigit (n div 16), hexDigit (n mod 16)]
      else [c])"

definition Quote :: "string \<Rightarrow> string" where
  "Quote s = [CHR 0x22] @ replaceBytes quoteByte s @ [CHR 0x22]"

section \<open>Helpers of the dialects\<close>

definition joinPath :: "string \<Rightarrow> string \<Rightarrow> string" where
  "joinPath parent child = (if parent = [] then child else parent @ ''.'' @ child)"

definition jsonRangeReduction :: "json_kind \<Rightarrow> string" where
  "jsonRangeReduction kind = (case kind of
       JSON_KIND_ANY \<Rightarrow> ''standard protobuf JSON requires each populated Any type URL to resolve to a known message descriptor; embedded Struct, Value, and ListValue numbers must also be finite''
     | JSON_KIND_STRUCT \<Rightarrow> ''standard protobuf JSON requires Struct, Value, and ListValue numbers to be finite; NaN and infinities are not representable''
     | JSON_KIND_VALUE \<Rightarrow> ''standard protobuf JSON requires Struct, Value, and ListValue numbers to be finite; NaN and infinities are not representable''
     | JSON_KIND_LIST_VALUE \<Rightarrow> ''standard protobuf JSON requires Struct, Value, and ListValue numbers to be finite; NaN and infinities are not representable''
     | _ \<Rightarrow> ''standard protobuf JSON requires an explicitly supported dynamic JSON kind'')"

datatype parameter_error =
    BadPrecision
  | BadScale
  | WidthZero
  | WidthTooLong int

definition decimalParameters :: "decimal_type option \<Rightarrow> parameter_error + nat \<times> nat" where
  "decimalParameters decimal =
     (if decimal = None \<or> DecimalGetPrecision decimal = 0 \<or> DecimalGetPrecision decimal > 38
      then Inl BadPrecision
      else if DecimalGetScale decimal > DecimalGetPrecision decimal then Inl BadScale
      else Inr (DecimalGetPrecision decimal, DecimalGetScale decimal))"

text \<open>\<^verbatim>\<open>fixedByteWidth\<close> with the dialect's limit. Lengths are compared as integers so that the
  limits, close to two to the 31, stay numerals.\<close>

definition maxInt32 :: int where
  "maxInt32 = 2147483647"

definition fixedByteWidth :: "int \<Rightarrow> nat option \<Rightarrow> parameter_error + nat" where
  "fixedByteWidth limit fixed =
     (if fixed = None \<or> FixedBytesGetByteLength fixed = 0 then Inl WidthZero
      else if int (FixedBytesGetByteLength fixed) > limit
      then Inl (WidthTooLong (int (FixedBytesGetByteLength fixed)))
      else Inr (FixedBytesGetByteLength fixed))"

section \<open>The walk over the logical fields\<close>

text \<open>The children of a type with their paths.\<close>

definition childPaths :: "string \<Rightarrow> type_kind \<Rightarrow> (field option \<times> string) list" where
  "childPaths path k = (case k of
       DataType_Struct s \<Rightarrow> map (\<lambda>c. (c, joinPath path (nilGetName c))) (StructGetFields s)
     | DataType_List l \<Rightarrow> [(ListGetElement l, path @ ''[]'')]
     | DataType_Map m \<Rightarrow> [(MapGetKey m, path @ ''.key''), (MapGetValue m, path @ ''.value'')]
     | _ \<Rightarrow> [])"

text \<open>The fields that have a type, with it.\<close>

definition typedFields :: "field option list \<Rightarrow> (field \<times> data_type) list" where
  "typedFields fs = List.map_filter (\<lambda>c. case c of None \<Rightarrow> None | Some f \<Rightarrow> map_option (Pair f) (GetType f)) fs"

lemma map_fst_childPaths: "map fst (childPaths path k) = kindChildren k"
  by (cases k) (simp_all add: childPaths_def kindChildren_def comp_def)

lemma childPaths_kindChildren: "(c, p) \<in> set (childPaths path k) \<Longrightarrow> c \<in> set (kindChildren k)"
  by (metis map_fst_childPaths fst_conv image_eqI list.set_map)

lemma kindChildren_childPaths: "c \<in> set (kindChildren k) \<Longrightarrow> \<exists>p. (c, p) \<in> set (childPaths path k)"
  unfolding map_fst_childPaths [of path k, symmetric] by auto

lemma childPaths_simps [simp]:
  "childPaths path (DataType_Struct s) = map (\<lambda>c. (c, joinPath path (nilGetName c))) (StructGetFields s)"
  "childPaths path (DataType_List l) = [(ListGetElement l, path @ ''[]'')]"
  "childPaths path (DataType_Map m) = [(MapGetKey m, path @ ''.key''), (MapGetValue m, path @ ''.value'')]"
  by (simp_all add: childPaths_def)

lemma kindSwitch_childPaths:
  "(case k of
      DataType_Struct s \<Rightarrow> concat (map (\<lambda>child. g child (joinPath path (nilGetName child))) (StructGetFields s))
    | DataType_List l \<Rightarrow> g (ListGetElement l) (path @ ''[]'')
    | DataType_Map m \<Rightarrow> g (MapGetKey m) (path @ ''.key'') @ g (MapGetValue m) (path @ ''.value'')
    | _ \<Rightarrow> []) = concat (map (\<lambda>(c, p). g c p) (childPaths path k))"
  by (cases k) (simp_all add: childPaths_def comp_def)

lemma typedFields_related:
  assumes "list_all2 R fs xs" "\<And>f x. R f x \<Longrightarrow> \<exists>g t. f = Some g \<and> GetType g = Some t \<and> Q (g, t) x"
  shows "list_all2 Q (typedFields fs) xs \<and> map (\<lambda>x. Some (fst x)) (typedFields fs) = fs"
  using assms(1)
proof (induction rule: list_all2_induct)
  case (Cons f fs x xs)
  with assms(2) [of f x] show ?case by (auto simp: typedFields_def map_filter_simps)
qed (simp add: typedFields_def map_filter_simps)

lemma size_childPaths [termination_simp]:
  assumes "(Some g, p) \<in> set (childPaths path (GetKind t))" "GetType f = Some t"
  shows "size g < size f"
proof -
  have "size g < size (GetKind t)"
    using assms(1) by (auto dest: childPaths_kindChildren size_kindChildren)
  also have "\<dots> < size f" using assms(2) by (cases f; cases t) auto
  finally show ?thesis .
qed

lemma size_kindChildren_option:
  "c \<in> set (kindChildren (GetKind t)) \<Longrightarrow> GetType f = Some t \<Longrightarrow> size_option size c < Suc (size f)"
  by (cases c; cases f; cases t) (auto dest: size_kindChildren)

lemma size_childPaths_option [termination_simp]:
  "(c, p) \<in> set (childPaths path (GetKind t)) \<Longrightarrow> GetType f = Some t \<Longrightarrow>
   size_option size c < Suc (size f)"
  using size_childPaths [of _ p path t f] by (cases c; cases f) fastforce+

text \<open>The paths of a field and of everything below it, parents first; a nil field, or a field
  without a type, has none.\<close>

function fieldPaths :: "field option \<Rightarrow> string \<Rightarrow> string list" where
  "fieldPaths None path = []"
| "fieldPaths (Some f) path =
     (case GetType f of
        None \<Rightarrow> []
      | Some t \<Rightarrow> path # concat (map (\<lambda>(c, p). fieldPaths c p) (childPaths path (GetKind t))))"
  by pat_completeness auto
termination
  by (relation "measure (\<lambda>(f, _). size_option size f)")
    (auto simp: size_childPaths_option)

section \<open>Mapping the members of a scope\<close>

text \<open>The loop over the members of a struct: the mapped members and the diagnostics of all of them,
  or the first error.\<close>

definition mapMembers :: "('x \<Rightarrow> 'e + 'y \<times> 'd list) \<Rightarrow> 'x list \<Rightarrow> 'e + 'y list \<times> 'd list" where
  "mapMembers f xs =
     foldE (\<lambda>(ys, ds) x. andThen (f x) (\<lambda>(y, d). Inr (ys @ [y], ds @ d))) ([], []) xs"

lemma mapMembers_cong [fundef_cong]:
  assumes "xs = ys" "\<And>x. x \<in> set ys \<Longrightarrow> f x = g x"
  shows "mapMembers f xs = mapMembers g ys"
  unfolding mapMembers_def using assms by (intro foldE_cong) (simp_all split: prod.splits)

lemma map_Inr_transfer:
  "map f xs = map Inr rs \<Longrightarrow> (\<And>x r. x \<in> set xs \<Longrightarrow> f x = Inr r \<Longrightarrow> g r = h x) \<Longrightarrow> map g rs = map h xs"
  by (induction xs arbitrary: rs) (auto simp: Cons_eq_map_conv)

lemma map_Inr_mem: "map f xs = map Inr rs \<Longrightarrow> x \<in> set xs \<Longrightarrow> \<exists>r. r \<in> set rs \<and> f x = Inr r"
  by (induction xs arbitrary: rs) (auto simp: Cons_eq_map_conv)

lemma mapMembers_eq:
  "mapMembers f xs = Inr (ys, ds) \<longleftrightarrow>
     (\<exists>rs. map f xs = map Inr rs \<and> ys = map fst rs \<and> ds = concat (map snd rs))"
proof -
  have "foldE (\<lambda>(ys, ds) x. andThen (f x) (\<lambda>(y, d). Inr (ys @ [y], ds @ d))) (us, es) xs = Inr (ys, ds) \<longleftrightarrow>
     (\<exists>rs. map f xs = map Inr rs \<and> ys = us @ map fst rs \<and> ds = es @ concat (map snd rs))" for us es
  proof (induction xs arbitrary: us es)
    case (Cons x xs)
    show ?case
    proof (cases "f x")
      case (Inr r)
      then show ?thesis
        by (cases r) (auto simp: Cons.IH map_eq_Cons_conv Cons_eq_map_conv)
    qed (auto simp: Cons_eq_map_conv)
  qed auto
  then show ?thesis by (simp add: mapMembers_def)
qed

lemma mapMembers_ok: "(\<exists>r. mapMembers f xs = Inr r) \<longleftrightarrow> (\<forall>x \<in> set xs. \<exists>r. f x = Inr r)"
proof -
  have "(\<exists>rs. map f xs = map Inr rs) \<longleftrightarrow> (\<forall>x \<in> set xs. \<exists>r. f x = Inr r)"
    by (induction xs) (auto simp: Cons_eq_map_conv)
  moreover have "(\<exists>r. mapMembers f xs = Inr r) \<longleftrightarrow> (\<exists>rs. map f xs = map Inr rs)"
    by (auto simp: mapMembers_eq)
  ultimately show ?thesis by simp
qed

lemma mapMembers_zip:
  assumes "mapMembers f xs = Inr (ys, ds)"
  shows "length ys = length xs" and "(y, x) \<in> set (zip ys xs) \<Longrightarrow> \<exists>es. f x = Inr (y, es)"
proof -
  from assms obtain rs where rs: "map f xs = map Inr rs" and ys: "ys = map fst rs" unfolding mapMembers_eq by blast
  show "length ys = length xs" using arg_cong [OF rs, of length] by (simp add: ys)
  assume "(y, x) \<in> set (zip ys xs)"
  then obtain i where i: "i < length rs" "y = fst (rs ! i)" "x = xs ! i" "i < length xs" by (auto simp: set_zip ys)
  have "f x = Inr (rs ! i)" using arg_cong [OF rs, of "\<lambda>zs. zs ! i"] i by simp
  then show "\<exists>es. f x = Inr (y, es)" using i by (cases "rs ! i") auto
qed

text \<open>The loop over the fields of a dataset; an error comes with the diagnostics before the field.\<close>

definition mapFields ::
    "(field option \<Rightarrow> string \<Rightarrow> 'e + 'y \<times> mapping_diagnostic list) \<Rightarrow> field option list
     \<Rightarrow> ('e \<times> mapping_diagnostic list) + 'y list \<times> mapping_diagnostic list" where
  "mapFields mapField fs =
     foldE (\<lambda>(ys, ds) f. andThen (mapErr (\<lambda>e. (e, ds)) (mapField f (nilGetName f)))
       (\<lambda>(y, d). Inr (ys @ [y], ds @ d))) ([], []) fs"

lemma mapFields_eq:
  "mapFields mapField fs = Inr r \<longleftrightarrow> mapMembers (\<lambda>f. mapField f (nilGetName f)) fs = Inr r"
proof -
  have "(foldE (\<lambda>(ys, ds) f. andThen (mapErr (\<lambda>e. (e, ds)) (mapField f (nilGetName f)))
       (\<lambda>(y, d). Inr (ys @ [y], ds @ d))) st fs = Inr r) \<longleftrightarrow>
     (foldE (\<lambda>(ys, ds) f. andThen (mapField f (nilGetName f)) (\<lambda>(y, d). Inr (ys @ [y], ds @ d))) st fs = Inr r)" for st
  proof (induction fs arbitrary: st)
    case (Cons f fs)
    then show ?case by (cases st; cases "mapField f (nilGetName f)") (auto split: prod.splits)
  qed simp
  then show ?thesis by (simp add: mapFields_def mapMembers_def)
qed

section \<open>Oneofs of a scope\<close>

text \<open>The SQL dialects collect the members of every oneof in a map and the names of the oneofs in the order
  of their first member.\<close>

definition addMember ::
    "string \<Rightarrow> 'm \<Rightarrow> (string \<times> 'm list) list \<times> string list \<Rightarrow> (string \<times> 'm list) list \<times> string list" where
  "addMember g m st = (case st of (groups, order) \<Rightarrow>
     if g = [] then (groups, order)
     else (AList.update g ((case map_of groups g of None \<Rightarrow> [] | Some ms \<Rightarrow> ms) @ [m]) groups,
           if map_of groups g = None then order @ [g] else order))"

text \<open>The specification: the names that occur, in order and without repetition, and the members of one.\<close>

definition groupNames :: "(string \<times> 'm) list \<Rightarrow> string list" where
  "groupNames xs = rev (remdups (rev (filter (\<lambda>g. g \<noteq> []) (map fst xs))))"

definition groupMembers :: "(string \<times> 'm) list \<Rightarrow> string \<Rightarrow> 'm list" where
  "groupMembers xs g = map snd (filter (\<lambda>x. fst x = g) xs)"

lemma update_keyed:
  "distinct ks \<Longrightarrow> k \<in> set ks \<Longrightarrow>
   AList.update k v (map (\<lambda>x. (x, f x)) ks) = map (\<lambda>x. (x, if x = k then v else f x)) ks"
  by (induction ks) auto

lemma map_of_keyed: "map_of (map (\<lambda>x. (x, f x)) ks) k = (if k \<in> set ks then Some (f k) else None)"
  by (induction ks) auto

lemma addMember_all:
  "foldl (\<lambda>st (g, m). addMember g m st) ([], []) xs = (map (\<lambda>g. (g, groupMembers xs g)) (groupNames xs), groupNames xs)"
proof (induction xs rule: rev_induct)
  case (snoc x xs)
  obtain g m where x: "x = (g, m)" by (cases x)
  have names: "groupNames (xs @ [x]) = (if g = [] \<or> g \<in> set (groupNames xs) then groupNames xs else groupNames xs @ [g])"
    by (auto simp: groupNames_def x)
  have members: "groupMembers (xs @ [x]) h = (if h = g then groupMembers xs h @ [m] else groupMembers xs h)" for h
    by (auto simp: groupMembers_def x)
  have none: "g \<noteq> [] \<Longrightarrow> g \<notin> set (groupNames xs) \<Longrightarrow> groupMembers xs g = []"
    by (force simp: groupMembers_def groupNames_def filter_empty_conv)
  have noname: "[] \<notin> set (groupNames xs)" by (auto simp: groupNames_def)
  have distinct: "distinct (groupNames xs)" by (simp add: groupNames_def)
  have "foldl (\<lambda>st (g, m). addMember g m st) ([], []) (xs @ [x]) =
      addMember g m (map (\<lambda>g. (g, groupMembers xs g)) (groupNames xs), groupNames xs)" by (simp add: snoc x)
  then show ?case using noname none distinct
    by (auto simp: addMember_def names members map_of_keyed update_keyed update_new image_image intro!: map_cong)
qed (simp add: groupNames_def)

section \<open>The contract of a dialect that maps every field\<close>

text \<open>A field tree without nil fields and with a type everywhere.\<close>

function fullyTyped :: "field option \<Rightarrow> bool" where
  "fullyTyped None = False"
| "fullyTyped (Some f) =
     (case GetType f of
        None \<Rightarrow> False
      | Some t \<Rightarrow> list_all fullyTyped (kindChildren (GetKind t)))"
  by pat_completeness auto
termination
proof (relation "measure (size_option size)")
  fix f t c assume t: "GetType f = Some t" and c: "c \<in> set (kindChildren (GetKind t))"
  then obtain p where "(c, p) \<in> set (childPaths [] (GetKind t))"
    using kindChildren_childPaths by blast
  with t show "(c, Some f) \<in> measure (size_option size)"
    by (simp add: size_childPaths_option)
qed simp

text \<open>A dialect maps a field by mapping its children first and then adds one diagnostic of its own in
  front of theirs. Then a schema has exactly one diagnostic per logical field, in the order of the
  walk, and only schemas without nil fields and with all types are mapped.\<close>

locale field_mapping =
  fixes mapField :: "field option \<Rightarrow> string \<Rightarrow> 'e + 'y \<times> mapping_diagnostic list"
  assumes mapField_children: "mapField f path = Inr (y, ds) \<Longrightarrow>
    \<exists>g t d rs. f = Some g \<and> GetType g = Some t \<and> field_path d = path
      \<and> map (\<lambda>(c, p). mapField c p) (childPaths path (GetKind t)) = map Inr rs
      \<and> ds = d # concat (map snd rs)"
begin

lemma one_diagnostic_per_field:
  "mapField (Some f) path = Inr (y, ds) \<Longrightarrow> map field_path ds = fieldPaths (Some f) path \<and> fullyTyped (Some f)"
proof (induction f arbitrary: path y ds rule: field_tree_induct)
  case (Field fd ft)
  from mapField_children [OF Field.prems] obtain t d rs where t: "ft = Some t" and d: "field_path d = path"
    and rs: "map (\<lambda>(c, p). mapField c p) (childPaths path (GetKind t)) = map Inr rs"
    and ds: "ds = d # concat (map snd rs)" by auto
  have sub: "map field_path (snd r) = fieldPaths c p \<and> fullyTyped c"
    if cp: "(c, p) \<in> set (childPaths path (GetKind t))" and m: "mapField c p = Inr r" for c p r
  proof -
    from mapField_children [of c p "fst r" "snd r"] m obtain g where g: "c = Some g" by auto
    have "Some g \<in> set (typeChildren ft)"
      using childPaths_kindChildren [OF cp] by (cases t) (simp add: t g typeChildren_def)
    then show ?thesis using Field.IH [of g p "fst r" "snd r"] m by (simp add: g)
  qed
  have "map (\<lambda>r. map field_path (snd r)) rs = map (\<lambda>(c, p). fieldPaths c p) (childPaths path (GetKind t))"
    using sub by (intro map_Inr_transfer [OF rs]) auto
  then have "map field_path ds = fieldPaths (Some (Field fd ft)) path"
    by (simp add: ds d t map_concat comp_def)
  moreover have "fullyTyped c" if "c \<in> set (kindChildren (GetKind t))" for c
  proof -
    from that obtain p where cp: "(c, p) \<in> set (childPaths path (GetKind t))"
      using kindChildren_childPaths by blast
    with map_Inr_mem [OF rs this] sub [OF cp] show ?thesis by auto
  qed
  ultimately show ?case by (simp add: t list_all_iff)
qed

lemma dataset_diagnostics:
  assumes "mapMembers (\<lambda>f. mapField f (nilGetName f)) fs = Inr (ys, ds)"
  shows "map field_path ds = concat (map (\<lambda>f. fieldPaths f (nilGetName f)) fs)" and "list_all fullyTyped fs"
proof -
  from assms obtain rs where rs: "map (\<lambda>f. mapField f (nilGetName f)) fs = map Inr rs"
    and ds: "ds = concat (map snd rs)" by (auto simp: mapMembers_eq)
  have sub: "map field_path (snd r) = fieldPaths f (nilGetName f) \<and> fullyTyped f"
    if m: "mapField f (nilGetName f) = Inr r" for f r
  proof -
    from mapField_children [of f "nilGetName f" "fst r" "snd r"] m obtain g where "f = Some g" by auto
    then show ?thesis using one_diagnostic_per_field [of g "nilGetName f" "fst r" "snd r"] m by simp
  qed
  then have "map (\<lambda>r. map field_path (snd r)) rs = map (\<lambda>f. fieldPaths f (nilGetName f)) fs"
    by (intro map_Inr_transfer [OF rs]) auto
  then show "map field_path ds = concat (map (\<lambda>f. fieldPaths f (nilGetName f)) fs)"
    by (simp add: ds map_concat comp_def)
  show "list_all fullyTyped fs"
    using map_Inr_mem [OF rs] sub by (auto simp: list_all_iff)
qed

end

text \<open>A dialect that also writes the ID of every field, in its own form, with the IDs of the children
  after it. Then the IDs it writes are the stable IDs of the logical schema, in the order of the
  walk.\<close>

locale field_id_mapping = field_mapping mapField
  for mapField :: "field option \<Rightarrow> string \<Rightarrow> 'e + 'y \<times> mapping_diagnostic list" +
  fixes out :: "'y \<Rightarrow> 'i list" and label :: "int \<Rightarrow> 'i"
  assumes mapField_ids: "mapField (Some g) path = Inr (y, ds) \<Longrightarrow> GetType g = Some t \<Longrightarrow>
    map (\<lambda>(c, p). mapField c p) (childPaths path (GetKind t)) = map Inr rs \<Longrightarrow>
    out y = label (GetStableId g) # concat (map (\<lambda>r. out (fst r)) rs)"
begin

lemma mapped_ids: "mapField (Some f) path = Inr (y, ds) \<Longrightarrow> out y = map label (fieldIDs f)"
proof (induction f arbitrary: path y ds rule: field_tree_induct)
  case (Field fd ft)
  let ?ids = "\<lambda>c. case c of None \<Rightarrow> [] | Some g \<Rightarrow> fieldIDs g"
  from mapField_children [OF Field.prems] obtain t rs where t: "ft = Some t"
    and rs: "map (\<lambda>(c, p). mapField c p) (childPaths path (GetKind t)) = map Inr rs" by auto
  have "map (\<lambda>r. out (fst r)) rs = map (\<lambda>x. map label (?ids (fst x))) (childPaths path (GetKind t))"
  proof (rule map_Inr_transfer [OF rs])
    fix x r assume x: "x \<in> set (childPaths path (GetKind t))" and m: "(case x of (c, p) \<Rightarrow> mapField c p) = Inr r"
    obtain c p where cp: "x = (c, p)" by (cases x)
    from mapField_children [of c p "fst r" "snd r"] m cp obtain g where g: "c = Some g" by auto
    have "Some g \<in> set (typeChildren ft)"
      using childPaths_kindChildren [of c p path] x by (cases t) (auto simp: t g cp typeChildren_def)
    then show "out (fst r) = map label (?ids (fst x))"
      using Field.IH [of g p "fst r" "snd r"] m by (simp add: cp g)
  qed
  moreover have "map (\<lambda>x. map label (?ids (fst x))) (childPaths path (GetKind t)) =
      map (\<lambda>c. map label (?ids c)) (kindChildren (GetKind t))"
    unfolding map_fst_childPaths [of path, symmetric] by simp
  moreover have "typeChildren ft = kindChildren (GetKind t)" by (cases t) (simp add: t typeChildren_def)
  ultimately show ?case
    using mapField_ids [OF Field.prems _ rs] by (simp add: t fieldIDs_eq fieldsIDs_def map_concat comp_def)
qed

lemma dataset_ids:
  assumes "mapMembers (\<lambda>f. mapField f (nilGetName f)) fs = Inr (ys, ds)"
  shows "concat (map out ys) = map label (fieldsIDs fs)"
proof -
  from assms obtain rs where rs: "map (\<lambda>f. mapField f (nilGetName f)) fs = map Inr rs"
    and ys: "ys = map fst rs" by (auto simp: mapMembers_eq)
  have "map (\<lambda>r. out (fst r)) rs = map (\<lambda>f. map label (case f of None \<Rightarrow> [] | Some g \<Rightarrow> fieldIDs g)) fs"
  proof (rule map_Inr_transfer [OF rs])
    fix f r assume m: "mapField f (nilGetName f) = Inr r"
    from mapField_children [of f "nilGetName f" "fst r" "snd r"] m obtain g where "f = Some g" by auto
    then show "out (fst r) = map label (case f of None \<Rightarrow> [] | Some g \<Rightarrow> fieldIDs g)"
      using mapped_ids [of g "nilGetName f" "fst r" "snd r"] m by simp
  qed
  then show ?thesis by (simp add: ys fieldsIDs_def map_concat comp_def)
qed

end

lemma map_Inr_inject: "map Inr rs = map Inr ss \<Longrightarrow> rs = ss"
  by (simp add: inj_map_eq_map)

end
