(* ===== verification/Compiler_Shape.thy ===== *)
theory Compiler_Shape
  imports Compiler_Ledger Dialects
begin

text \<open>
  The shape of a compiled schema: what the compiler guarantees of every field in it, at any depth,
  to the dialects that read it. Types are complete, the parameters of refined types are in range,
  members of a message carry a presence that fits their type, the children of lists and maps carry
  the roles the compiler gives them, and the storage names of a scope are different.
\<close>

section \<open>A condition on every field of a tree\<close>

function everyField :: "(field \<Rightarrow> bool) \<Rightarrow> field \<Rightarrow> bool" where
  "everyField P (Field d t) \<longleftrightarrow> P (Field d t) \<and>
     list_all (\<lambda>c. case c of None \<Rightarrow> True | Some g \<Rightarrow> everyField P g) (typeChildren t)"
  by pat_completeness auto
termination
  by (relation "measure (\<lambda>(_, f). size f)") (auto simp: size_typeChildren)

declare everyField.simps [simp del]

lemma everyField_mono: "(\<And>f. P f \<Longrightarrow> Q f) \<Longrightarrow> everyField P f \<Longrightarrow> everyField Q f"
proof (induction f rule: field_tree_induct)
  case (Field d t)
  then show ?case by (auto simp: everyField.simps list_all_iff split: option.splits)
qed

lemma everyField_node: "everyField P f \<Longrightarrow> P f"
  by (cases f) (simp add: everyField.simps)

lemma everyField_child: "everyField P f \<Longrightarrow> Some g \<in> set (typeChildren (GetType f)) \<Longrightarrow> everyField P g"
  by (cases f) (auto simp: everyField.simps list_all_iff)

section \<open>Compiled fields\<close>

definition isMember :: "field \<Rightarrow> bool" where
  "isMember f \<longleftrightarrow> GetSyntheticRole f = SYNTHETIC_ROLE_PROTO_FIELD \<and>
     (case GetPresence f of
        PRESENCE_IMPLICIT \<Rightarrow> \<not> GetNullable f \<and> GetDecimal (GetType f) = None \<and> GetUuid (GetType f) = None
          \<and> GetFixedBytes (GetType f) = None \<and> GetList (GetType f) = None \<and> GetMap (GetType f) = None
      | PRESENCE_EXPLICIT \<Rightarrow> GetNullable f \<and> GetList (GetType f) = None \<and> GetMap (GetType f) = None
      | PRESENCE_ONEOF \<Rightarrow> GetNullable f \<and> GetList (GetType f) = None \<and> GetMap (GetType f) = None
      | PRESENCE_REQUIRED \<Rightarrow> \<not> GetNullable f \<and> GetList (GetType f) = None \<and> GetMap (GetType f) = None
      | PRESENCE_REPEATED \<Rightarrow> \<not> GetNullable f \<and> GetList (GetType f) \<noteq> None
      | PRESENCE_MAP \<Rightarrow> \<not> GetNullable f \<and> GetMap (GetType f) \<noteq> None
      | _ \<Rightarrow> False)"

definition isSynthetic :: "synthetic_role \<Rightarrow> field option \<Rightarrow> bool" where
  "isSynthetic role c = (case c of
       None \<Rightarrow> False
     | Some f \<Rightarrow> GetSyntheticRole f = role \<and> GetPresence f = PRESENCE_NOT_APPLICABLE \<and> \<not> GetNullable f)"

definition compiledKind :: "type_kind \<Rightarrow> bool" where
  "compiledKind k = (case k of
       DataType_Primitive p \<Rightarrow> (case p of
           None \<Rightarrow> False
         | Some PRIMITIVE_KIND_UNSPECIFIED \<Rightarrow> False
         | Some (PRIMITIVE_KIND_number _) \<Rightarrow> False
         | _ \<Rightarrow> True)
     | DataType_Enum e \<Rightarrow> e \<noteq> None
     | DataType_Struct s \<Rightarrow> (case s of
           None \<Rightarrow> False
         | Some fs \<Rightarrow> list_all (\<lambda>c. case c of None \<Rightarrow> False | Some f \<Rightarrow> isMember f) fs
             \<and> distinct (map nilGetName fs) \<and> [] \<notin> set (map nilGetName fs))
     | DataType_List l \<Rightarrow> isSynthetic SYNTHETIC_ROLE_LIST_ELEMENT (ListGetElement l)
         \<and> int (ListGetFixedLength l) \<le> maxInt32
     | DataType_Map m \<Rightarrow> isSynthetic SYNTHETIC_ROLE_MAP_KEY (MapGetKey m)
         \<and> isSynthetic SYNTHETIC_ROLE_MAP_VALUE (MapGetValue m)
     | DataType_Timestamp t \<Rightarrow> TimestampGetUnit t = TIME_UNIT_NANOSECOND \<and> TimestampGetTimezone t = ''UTC''
     | DataType_Duration d \<Rightarrow> DurationGetUnit d = TIME_UNIT_NANOSECOND
     | DataType_Json j \<Rightarrow>
         JsonGetKind j \<in> {JSON_KIND_ANY, JSON_KIND_STRUCT, JSON_KIND_VALUE, JSON_KIND_LIST_VALUE}
     | DataType_Decimal d \<Rightarrow> \<not> isl (decimalParameters d)
     | DataType_Uuid u \<Rightarrow> u \<noteq> None
     | DataType_FixedBytes b \<Rightarrow> \<not> isl (fixedByteWidth maxInt32 b)
     | Kind_nil \<Rightarrow> False)"

definition compiledNode :: "field \<Rightarrow> bool" where
  "compiledNode f = (case GetType f of None \<Rightarrow> False | Some t \<Rightarrow> compiledKind (GetKind t))"

text \<open>A member of a compiled message: the member itself and every field below it.\<close>

definition compiledMember :: "field \<Rightarrow> bool" where
  "compiledMember f \<longleftrightarrow> isMember f \<and> everyField compiledNode f"

definition compiledFields :: "field option list \<Rightarrow> bool" where
  "compiledFields fs \<longleftrightarrow> list_all (\<lambda>c. case c of None \<Rightarrow> False | Some f \<Rightarrow> compiledMember f) fs
     \<and> distinct (map nilGetName fs) \<and> [] \<notin> set (map nilGetName fs)"

definition members_shaped :: "members_compiler \<Rightarrow> bool" where
  "members_shaped members \<longleftrightarrow> (\<forall>c flds path i stack fs c'.
     members c flds path i stack = Inr (fs, c') \<longrightarrow> list_all compiledMember fs)"

definition typeShaped :: "data_type \<Rightarrow> bool" where
  "typeShaped t \<longleftrightarrow> compiledKind (GetKind t) \<and>
     list_all (\<lambda>c. case c of None \<Rightarrow> True | Some g \<Rightarrow> everyField compiledNode g) (kindChildren (GetKind t))"

text \<open>A type that is neither a collection nor refined by options.\<close>

definition plainKind :: "type_kind \<Rightarrow> bool" where
  "plainKind k = (case k of
       DataType_List _ \<Rightarrow> False | DataType_Map _ \<Rightarrow> False | DataType_Decimal _ \<Rightarrow> False
     | DataType_Uuid _ \<Rightarrow> False | DataType_FixedBytes _ \<Rightarrow> False | _ \<Rightarrow> True)"

section \<open>Every compile function keeps the shape\<close>

lemma plainKind_getters:
  "plainKind (GetKind t) \<Longrightarrow> GetList (Some t) = None \<and> GetMap (Some t) = None
    \<and> GetDecimal (Some t) = None \<and> GetUuid (Some t) = None \<and> GetFixedBytes (Some t) = None"
  by (cases t; cases "GetKind t") (auto simp: plainKind_def getter_defs)

lemma everyField_typed: "everyField compiledNode (Field d (Some t)) \<longleftrightarrow> typeShaped t"
  by (cases t) (simp add: everyField.simps typeShaped_def compiledNode_def typeChildren_def)

lemma collisions_ok:
  assumes "validateStorageNameCollisions scope fs = Inr ()"
  shows "distinct (map GetName fs) \<and> [] \<notin> set (map GetName fs)"
proof -
  have "distinct (map GetName fs) \<and> [] \<notin> set (map GetName fs) \<and> set (map GetName fs) \<inter> fst ` set owners = {}"
    if "foldE (\<lambda>owners f.
          if GetName f = [] then Inl (NormalizesToEmpty (GetProtoFullName f) scope)
          else case map_of owners (GetName f) of
            Some owner \<Rightarrow> Inl (NamesCollide (GetName f) scope owner (GetProtoFullName f))
          | None \<Rightarrow> Inr (AList.update (GetName f) (GetProtoFullName f) owners)) owners fs = Inr r" for owners r
    using that
  proof (induction fs arbitrary: owners)
    case (Cons f fs)
    then have f: "GetName f \<noteq> []" "map_of owners (GetName f) = None"
      by (auto split: if_splits option.splits)
    with Cons.prems Cons.IH [of "owners @ [(GetName f, GetProtoFullName f)]"] show ?case
      by (auto simp: update_new_map_of map_of_eq_None_iff)
  qed simp
  with assms show ?thesis by (auto simp: validateStorageNameCollisions_def andThen_eq_Inr)
qed

lemma leaf_shaped: "kindChildren (GetKind t) = [] \<Longrightarrow> compiledKind (GetKind t) \<Longrightarrow> typeShaped t"
  by (simp add: typeShaped_def)

text \<open>The kinds of a well-known type.\<close>

definition wellKnownKinds :: "type_kind list" where
  "wellKnownKinds =
     map (\<lambda>k. DataType_Primitive (Some k)) [PRIMITIVE_KIND_DOUBLE, PRIMITIVE_KIND_FLOAT, PRIMITIVE_KIND_INT64,
       PRIMITIVE_KIND_UINT64, PRIMITIVE_KIND_INT32, PRIMITIVE_KIND_UINT32, PRIMITIVE_KIND_BOOL,
       PRIMITIVE_KIND_STRING, PRIMITIVE_KIND_BYTES]
     @ [DataType_Timestamp (Some \<lparr>ts_unit = TIME_UNIT_NANOSECOND, ts_timezone = ''UTC''\<rparr>),
        DataType_Duration (Some TIME_UNIT_NANOSECOND)]
     @ map (\<lambda>k. DataType_Json (Some k)) [JSON_KIND_ANY, JSON_KIND_STRUCT, JSON_KIND_VALUE, JSON_KIND_LIST_VALUE]"

lemma wellKnown_kind: "wellKnownType n = Some t \<Longrightarrow> GetKind t \<in> set wellKnownKinds"
  unfolding wellKnownType_def
  by (auto simp: wellKnownKinds_def wrapperType_def primitiveType_def jsonType_def split: if_splits)

lemma wellKnownKinds_shaped:
  "k \<in> set wellKnownKinds \<Longrightarrow> kindChildren k = [] \<and> compiledKind k \<and> plainKind k"
  by (auto simp: wellKnownKinds_def compiledKind_def kindChildren_def plainKind_def getter_defs)

lemma wellKnown_shaped: "wellKnownType n = Some t \<Longrightarrow> typeShaped t \<and> plainKind (GetKind t)"
  using wellKnownKinds_shaped [OF wellKnown_kind] leaf_shaped by blast

lemma primitive_shaped: "primitiveKind k = Some p \<Longrightarrow> typeShaped (primitiveType p)"
  by (rule leaf_shaped; cases k; auto simp: primitiveType_def compiledKind_def kindChildren_def)

lemma enum_shaped: "typeShaped (enumDataType ed)"
  by (rule leaf_shaped) (simp_all add: enumDataType_def compiledKind_def kindChildren_def)

lemma refined_shaped: "refinedType k s = Inr t \<Longrightarrow> typeShaped t"
  by (rule leaf_shaped; auto simp: refinedType_def compiledKind_def kindChildren_def decimalParameters_def
      fixedByteWidth_def getter_defs maxFixedBytesLength_def maxInt32_def split: if_splits option.splits semantic_type.splits)

lemma struct_shaped:
  assumes "list_all compiledMember fs" "validateStorageNameCollisions scope fs = Inr ()"
  shows "typeShaped (DataType n (DataType_Struct (Some (map Some fs))))"
proof -
  have "map nilGetName (map Some fs) = map GetName fs" by (simp add: nilGetName_def)
  with assms collisions_ok [OF assms(2)] show ?thesis
    by (simp add: typeShaped_def compiledKind_def kindChildren_def compiledMember_def
        StructGetFields_def list_all_iff del: map_map)
qed

lemma collection_shaped:
  "everyField compiledNode f \<Longrightarrow> isSynthetic SYNTHETIC_ROLE_LIST_ELEMENT (Some f) \<Longrightarrow> int len \<le> maxInt32 \<Longrightarrow>
   typeShaped (DataType n (DataType_List (Some (Some f, len))))"
  "everyField compiledNode k \<Longrightarrow> everyField compiledNode v \<Longrightarrow> isSynthetic SYNTHETIC_ROLE_MAP_KEY (Some k) \<Longrightarrow>
   isSynthetic SYNTHETIC_ROLE_MAP_VALUE (Some v) \<Longrightarrow>
   typeShaped (DataType n (DataType_Map (Some (Some k, Some v))))"
  by (simp_all add: typeShaped_def compiledKind_def kindChildren_def ListGetElement_def ListGetFixedLength_def
      MapGetKey_def MapGetValue_def)

lemma plain_values [simp]:
  "plainKind (GetKind (primitiveType p))" "plainKind (GetKind (enumDataType ed))"
  "plainKind (DataType_Struct s)"
  by (simp_all add: plainKind_def primitiveType_def enumDataType_def)

lemma compileValueType_shaped:
  assumes "members_shaped members" and "compileValueType members E c fd path i stack = Inr (t, c')"
  shows "typeShaped t \<and> plainKind (GetKind t)"
  using assms(2) unfolding compileValueType_def
  by (auto simp: andThen_eq_Inr Let_def split: option.splits if_splits
      intro: wellKnown_shaped primitive_shaped enum_shaped intro!: struct_shaped
      dest: assms(1) [unfolded members_shaped_def, rule_format] wellKnown_shaped)

lemma refined_not_collection:
  "refinedType k s = Inr t \<Longrightarrow> GetList (Some t) = None \<and> GetMap (Some t) = None"
  by (auto simp: refinedType_def getter_defs split: if_splits option.splits semantic_type.splits)

lemma compileRefinedValueType_shaped:
  assumes "members_shaped members" and "compileRefinedValueType members E c fd path i stack options = Inr (t, c')"
  shows "typeShaped t \<and> GetList (Some t) = None \<and> GetMap (Some t) = None \<and>
    (options = None \<longrightarrow> GetDecimal (Some t) = None \<and> GetUuid (Some t) = None \<and> GetFixedBytes (Some t) = None)"
  using assms(2) unfolding compileRefinedValueType_def
  by (auto simp: andThen_eq_Inr split: option.splits dest: refined_shaped refined_not_collection
      dest!: compileValueType_shaped [OF assms(1)] plainKind_getters)

lemma compileSyntheticField_shaped:
  assumes "members_shaped members"
    and "compileSyntheticField members E c fd name full path i role stack options = Inr (f, c')"
  shows "everyField compiledNode f \<and> isSynthetic role (Some f)"
  using assms(2) unfolding compileSyntheticField_def
  by (auto simp: andThen_eq_Inr Let_def everyField_typed isSynthetic_def
      dest!: compileRefinedValueType_shaped [OF assms(1)])

text \<open>The length of a fixed list is checked before the list is compiled.\<close>

definition fixedLengthOK :: "field_options option \<Rightarrow> bool" where
  "fixedLengthOK options = (case options of
       None \<Rightarrow> True
     | Some opts \<Rightarrow> (case fo_fixed_list opts of None \<Rightarrow> True | Some n \<Rightarrow> int n \<le> maxInt32))"

lemma compileListType_shaped:
  assumes "members_shaped members" "fixedLengthOK options"
    and "compileListType members E c fd path i stack options = Inr (t, c')"
  shows "typeShaped t \<and> GetList (Some t) \<noteq> None"
  using assms(2,3) unfolding compileListType_def
  by (auto simp: andThen_eq_Inr Let_def GetList_def fixedLengthOK_def maxInt32_def split: option.splits
      dest!: compileSyntheticField_shaped [OF assms(1)] intro!: collection_shaped)

lemma compileMapType_shaped:
  assumes "members_shaped members" "compileMapType members E c fd path i stack = Inr (t, c')"
  shows "typeShaped t \<and> GetMap (Some t) \<noteq> None"
  using assms(2) unfolding compileMapType_def
  by (auto simp: andThen_eq_Inr GetMap_def dest!: compileSyntheticField_shaped [OF assms(1)]
      intro!: collection_shaped)

lemma compileProtoField_shaped:
  assumes "members_shaped members" and "compileProtoField members E c fd path i stack = Inr (f, c')"
  shows "compiledMember f"
proof -
  obtain presence isNullable oneofName where p: "fieldPresence fd = (presence, isNullable, oneofName)"
    by (cases "fieldPresence fd")
  from assms(2) obtain options ty d c1 c2 path' i' where
    checks: "checkFieldOptions fd presence options = Inr ()"
    and ty: "compileFieldType members E c1 fd path' i' stack options = Inr (ty, c2)"
    and f: "f = Field d (Some ty)" "field_presence d = presence" "nullable d = isNullable"
      "synthetic_role_of d = SYNTHETIC_ROLE_PROTO_FIELD"
    unfolding compileProtoField_def by (auto simp: p andThen_eq_Inr Let_def)
  have len: "fixedLengthOK options"
    using checks by (auto simp: checkFieldOptions_def fixedLengthOK_def maxFixedListLength_def maxInt32_def
        andThen_eq_Inr split: option.splits if_splits)
  have "typeShaped ty \<and> isMember f"
  proof (cases "fd_is_map fd")
    case True
    with ty have "compileMapType members E c1 fd path' i' stack = Inr (ty, c2)"
      by (simp add: compileFieldType_def split: if_splits)
    with compileMapType_shaped [OF assms(1)] True p f show ?thesis
      by (auto simp: fieldPresence_def isMember_def)
  next
    case single: False
    show ?thesis
    proof (cases "fd_is_list fd")
      case True
      with single ty have "compileListType members E c1 fd path' i' stack options = Inr (ty, c2)"
        by (simp add: compileFieldType_def)
      with compileListType_shaped [OF assms(1) len] True single p f show ?thesis
        by (auto simp: fieldPresence_def isMember_def)
    next
      case False
      with single ty have "compileRefinedValueType members E c1 fd path' i' stack options = Inr (ty, c2)"
        by (simp add: compileFieldType_def)
      note t = compileRefinedValueType_shaped [OF assms(1) this]
      have "presence = PRESENCE_IMPLICIT \<Longrightarrow> options = None"
        using checks single False by (auto simp: checkFieldOptions_def andThen_eq_Inr split: option.splits if_splits)
      with t single False p f show ?thesis
        by (auto simp: fieldPresence_def isMember_def split: if_splits option.splits bool.splits)
    qed
  qed
  then show ?thesis by (simp add: compiledMember_def f(1) everyField_typed)
qed

lemma compileMembers_shaped: "members_shaped (compileMembers n E)"
proof (induction n)
  case (Suc n)
  have "mapE (\<lambda>c fd. compileProtoField (compileMembers n E) E c fd path i stack) c flds = Inr (fs, c') \<Longrightarrow>
      list_all compiledMember fs" for path i stack c flds fs c'
  proof (induction flds arbitrary: c fs)
    case (Cons fd flds)
    then show ?case using compileProtoField_shaped [OF Suc.IH]
      by (auto simp: mapE_Cons_Inr simp del: mapE.simps(2))
  qed simp
  then show ?case by (simp add: members_shaped_def)
qed (simp add: members_shaped_def)

lemma compiled_fields:
  assumes "CompileMessage E descriptor previous = Inr ds"
  shows "compiledFields (ds_fields ds)"
  using assms
proof (cases rule: CompileMessage_cases)
  case (1 md c1 fs c)
  have "map nilGetName (map Some fs) = map GetName fs" by (simp add: nilGetName_def)
  moreover have "list_all compiledMember fs" using compileMembers_shaped 1(6) unfolding members_shaped_def by blast
  ultimately show ?thesis
    using collisions_ok [OF 1(7)] by (simp add: 1(9) compiledFields_def list_all_iff del: map_map)
qed

lemma compiled_fullyTyped: "everyField compiledNode f \<Longrightarrow> fullyTyped (Some f)"
proof (induction f rule: field_tree_induct)
  case (Field d t)
  then obtain dt where t: "t = Some dt" and k: "compiledKind (GetKind dt)"
    by (auto simp: everyField.simps compiledNode_def split: option.splits)
  have kids: "typeChildren t = kindChildren (GetKind dt)" by (cases dt) (simp add: t typeChildren_def)
  have "None \<notin> set (kindChildren (GetKind dt))"
    using k by (auto simp: compiledKind_def kindChildren_def list_all_iff isSynthetic_def StructGetFields_def
        split: type_kind.splits option.splits)
  moreover have "fullyTyped (Some g)" if "Some g \<in> set (typeChildren t)" for g
    using Field.IH [OF that] everyField_child [OF Field.prems, of g] that by simp
  ultimately have "fullyTyped c" if "c \<in> set (kindChildren (GetKind dt))" for c
    using that kids by (cases c) auto
  then show ?case by (simp add: t list_all_iff)
qed

definition compiledRole :: "field \<Rightarrow> bool" where
  "compiledRole f \<longleftrightarrow> isMember f \<or> isSynthetic SYNTHETIC_ROLE_LIST_ELEMENT (Some f)
     \<or> isSynthetic SYNTHETIC_ROLE_MAP_KEY (Some f) \<or> isSynthetic SYNTHETIC_ROLE_MAP_VALUE (Some f)"

lemma compiled_child_roles:
  "compiledKind k \<Longrightarrow> c \<in> set (kindChildren k) \<Longrightarrow> \<exists>g. c = Some g \<and> compiledRole g"
  by (cases c) (auto simp: compiledKind_def kindChildren_def compiledRole_def isSynthetic_def list_all_iff
      StructGetFields_def split: type_kind.splits option.splits)

lemma member_plain:
  "GetDecimal (Some t) = None \<Longrightarrow> GetUuid (Some t) = None \<Longrightarrow> GetFixedBytes (Some t) = None \<Longrightarrow>
   GetList (Some t) = None \<Longrightarrow> GetMap (Some t) = None \<Longrightarrow> compiledKind (GetKind t) \<Longrightarrow> plainKind (GetKind t)"
  by (cases t) (auto simp: plainKind_def compiledKind_def getter_defs isSynthetic_def decimalParameters_def
      fixedByteWidth_def split: type_kind.splits option.splits if_splits)

lemma compiledFields_member:
  assumes "compiledFields fs" "g \<in> set fs"
  shows "\<exists>f. g = Some f \<and> compiledMember f \<and> GetName f \<noteq> []"
proof -
  have "nilGetName g \<in> set (map nilGetName fs)" using assms(2) by simp
  with assms(1) have "nilGetName g \<noteq> []" by (metis compiledFields_def)
  moreover have "case g of None \<Rightarrow> False | Some f \<Rightarrow> compiledMember f"
    using assms by (simp add: compiledFields_def list_all_iff)
  ultimately show ?thesis by (cases g) (auto simp: nilGetName_def)
qed

end
