(* ===== verification/Compiler_Scopes.thy ===== *)
theory Compiler_Scopes
  imports Examples Compiler_Shape
begin

text \<open>
  Three facts on whole compilations, each proved function by function for an arbitrary compiler of
  nested members and then tied through the fuel: the fuel never runs out, a compiled message has
  finite depth, and the storage names of every scope are different and not empty.
\<close>

fun outOfFuel :: "field_error \<Rightarrow> bool" where
  "outOfFuel OutOfFuel = True"
| "outOfFuel (InField _ e) = outOfFuel e"
| "outOfFuel (ListElement e) = outOfFuel e"
| "outOfFuel (MapKey e) = outOfFuel e"
| "outOfFuel (MapValue e) = outOfFuel e"
| "outOfFuel _ = False"

text \<open>The messages of the environment that are not on the stack.\<close>

definition messagesLeft :: "proto_env \<Rightarrow> string list \<Rightarrow> nat" where
  "messagesLeft E stack = card (fst ` set (env_messages E) - set stack)"

definition fuel_bound :: "proto_env \<Rightarrow> nat \<Rightarrow> members_compiler \<Rightarrow> bool" where
  "fuel_bound E k members \<longleftrightarrow> (\<forall>c flds path i stack e.
     members c flds path i stack = Inl e \<longrightarrow> outOfFuel e \<longrightarrow> k \<le> messagesLeft E stack)"

definition holdsMessage :: "proto_env \<Rightarrow> 'a value_descriptor_scheme \<Rightarrow> message_descriptor \<Rightarrow> bool" where
  "holdsMessage E vd md \<longleftrightarrow> (fd_kind vd = MessageKind \<or> fd_kind vd = GroupKind) \<and>
     map_of (env_messages E) (fd_message vd) = Some md \<and> wellKnownType (md_full_name md) = None"

definition nests :: "proto_env \<Rightarrow> message_descriptor \<Rightarrow> message_descriptor \<Rightarrow> bool" where
  "nests E outer inner \<longleftrightarrow> (\<exists>fd \<in> set (md_fields outer).
     if fd_is_map fd then holdsMessage E (fd_map_key fd) inner \<or> holdsMessage E (fd_map_value fd) inner
     else holdsMessage E fd inner)"

definition entered :: "members_compiler \<Rightarrow> string list \<Rightarrow> message_descriptor \<Rightarrow> bool" where
  "entered members stack md \<longleftrightarrow> md_full_name md \<notin> set stack \<and>
     (\<exists>c path i r. members c (sortedFields (md_fields md)) path i (md_full_name md # stack) = Inr r)"

text \<open>The storage names of the struct a field holds, if it holds one.\<close>

definition scopeNames :: "field \<Rightarrow> bool" where
  "scopeNames f = (case GetStruct (GetType f) of
       None \<Rightarrow> True
     | Some fs \<Rightarrow> distinct (map nilGetName fs) \<and> [] \<notin> set (map nilGetName fs))"

lemma compileValueType_fuel:
  assumes "fuel_bound E k members" "env_keyed E"
    and "compileValueType members E c fd path i stack = Inl e" "outOfFuel e"
  shows "Suc k \<le> messagesLeft E stack"
proof -
  have prim: "primitiveKind (fd_kind fd) = None"
    using assms(3) by (cases "primitiveKind (fd_kind fd)") (simp_all add: compileValueType_def)
  have kind: "fd_kind fd \<noteq> EnumKind" "fd_kind fd = MessageKind \<or> fd_kind fd = GroupKind"
    using assms(3,4) prim by (auto simp: compileValueType_def simp del: primitiveKind.simps split: if_splits)
  note run = assms(3) [unfolded compileValueType_def]
  obtain md where md: "map_of (env_messages E) (fd_message fd) = Some md"
    using run assms(4) prim kind by (cases "map_of (env_messages E) (fd_message fd)") auto
  have ext: "rejectExtensionRanges md = Inr ()"
    using run assms(4) prim kind md by (cases "rejectExtensionRanges md") auto
  have well: "wellKnownType (md_full_name md) = None"
    using run assms(4) prim kind md ext by (cases "wellKnownType (md_full_name md)") auto
  have new: "md_full_name md \<notin> set stack"
    using run assms(4) prim kind md ext well by (auto simp: Let_def)
  obtain c' where call: "members c' (sortedFields (md_fields md)) path i (md_full_name md # stack) = Inl e"
    using run assms(4) prim kind md ext well new by (auto simp: Let_def andThen_eq_Inl mapErr_eq_Inl)
  have name: "md_full_name md \<in> fst ` set (env_messages E)"
    using md env_keyed_lookup [OF assms(2) md] by (metis domI dom_map_of_conv_image_fst)
  from assms(1,4) call have "k \<le> messagesLeft E (md_full_name md # stack)"
    unfolding fuel_bound_def by blast
  also have "Suc \<dots> = messagesLeft E stack"
  proof -
    have "fst ` set (env_messages E) - set stack =
        insert (md_full_name md) (fst ` set (env_messages E) - set (md_full_name md # stack))"
      using name new by auto
    moreover have "card (insert (md_full_name md) (fst ` set (env_messages E) - set (md_full_name md # stack)))
        = Suc (card (fst ` set (env_messages E) - set (md_full_name md # stack)))"
      by (rule card_insert_disjoint) auto
    ultimately show ?thesis unfolding messagesLeft_def by metis
  qed
  finally show ?thesis by simp
qed

lemma compileRefinedValueType_fuel:
  assumes "fuel_bound E k members" "env_keyed E"
    and "compileRefinedValueType members E c fd path i stack options = Inl e" "outOfFuel e"
  shows "Suc k \<le> messagesLeft E stack"
  using assms(3,4) compileValueType_fuel [OF assms(1,2)] unfolding compileRefinedValueType_def
  by (auto simp: andThen_eq_Inl mapErr_eq_Inl split: option.splits)

lemma compileSyntheticField_fuel:
  assumes "fuel_bound E k members" "env_keyed E"
    and "compileSyntheticField members E c fd name full path i role stack options = Inl e" "outOfFuel e"
  shows "Suc k \<le> messagesLeft E stack"
  using assms(3,4) unfolding compileSyntheticField_def
  by (auto simp: andThen_eq_Inl mapErr_eq_Inl Let_def intro: compileRefinedValueType_fuel [OF assms(1,2)])

lemma compileFieldType_fuel:
  assumes "fuel_bound E k members" "env_keyed E"
    and "compileFieldType members E c fd path i stack options = Inl e" "outOfFuel e"
  shows "Suc k \<le> messagesLeft E stack"
  using assms(3,4) unfolding compileFieldType_def compileMapType_def compileListType_def
  by (auto simp: andThen_eq_Inl mapErr_eq_Inl Let_def split: if_splits
      intro: compileRefinedValueType_fuel [OF assms(1,2)] compileSyntheticField_fuel [OF assms(1,2)])

lemma compileProtoField_fuel:
  assumes "fuel_bound E k members" "env_keyed E"
    and "compileProtoField members E c fd path i stack = Inl e" "outOfFuel e"
  shows "Suc k \<le> messagesLeft E stack"
  using assms(3,4) unfolding compileProtoField_def
  by (auto simp: andThen_eq_Inl mapErr_eq_Inl Let_def split: prod.splits
      intro: compileFieldType_fuel [OF assms(1,2)])

lemma mapE_Inl: "mapE f s xs = Inl e \<Longrightarrow> \<exists>x \<in> set xs. \<exists>s'. f s' x = Inl e"
proof (induction xs arbitrary: s)
  case (Cons x xs)
  then show ?case by (auto simp: andThen_eq_Inl)
qed simp

lemma compileMembers_fuel: "env_keyed E \<Longrightarrow> fuel_bound E n (compileMembers n E)"
proof (induction n)
  case (Suc n)
  from compileProtoField_fuel [OF Suc.IH [OF Suc.prems] Suc.prems] show ?case
    by (auto simp: fuel_bound_def dest!: mapE_Inl)
qed (simp add: fuel_bound_def)

lemma messagesLeft_less: "messagesLeft E stack < compileFuel E"
proof -
  have "card (fst ` set (env_messages E) - set stack) \<le> card (fst ` set (env_messages E))"
    by (intro card_mono) auto
  also have "\<dots> \<le> length (env_messages E)"
    by (metis card_image_le card_length finite_set order_trans)
  finally show ?thesis by (simp add: messagesLeft_def compileFuel_def)
qed

text \<open>(C7) The recursion over nested messages always ends: the number of messages bounds its depth,
  so the compiler never stops for want of fuel, and every error it returns is one of the code's
  own.\<close>

theorem compile_never_out_of_fuel:
  assumes "env_keyed E" and "CompileMessage E descriptor previous = Inl (FieldFailed name e)"
  shows "\<not> outOfFuel e"
proof
  assume "outOfFuel e"
  from assms(2) obtain c flds where "compileMembers (compileFuel E) E c flds [] [] [name] = Inl e"
    unfolding CompileMessage_def startCompiler_def
    by (auto simp: andThen_eq_Inl mapErr_eq_Inl Let_def split: option.splits if_splits)
  with compileMembers_fuel [OF assms(1), of "compileFuel E"] \<open>outOfFuel e\<close>
  have "compileFuel E \<le> messagesLeft E [name]" unfolding fuel_bound_def by blast
  with messagesLeft_less [of E "[name]"] show False by simp
qed

lemma compileValueType_enters:
  assumes "compileValueType members E c fd path i stack = Inr r" "holdsMessage E fd md"
  shows "entered members stack md"
proof -
  from assms(2) have kind: "primitiveKind (fd_kind fd) = None" "fd_kind fd \<noteq> EnumKind"
    "fd_kind fd = MessageKind \<or> fd_kind fd = GroupKind"
    and md: "map_of (env_messages E) (fd_message fd) = Some md" "wellKnownType (md_full_name md) = None"
    by (auto simp: holdsMessage_def)
  with assms(1) show ?thesis
    unfolding compileValueType_def entered_def
    by (auto simp: Let_def andThen_eq_Inr split: if_splits) blast+
qed

lemma compileRefinedValueType_enters:
  assumes "compileRefinedValueType members E c fd path i stack options = Inr r" "holdsMessage E fd md"
  shows "entered members stack md"
proof (cases options)
  case None
  with assms(1) have "compileValueType members E c fd path i stack = Inr r"
    by (simp add: compileRefinedValueType_def)
  then show ?thesis using assms(2) by (rule compileValueType_enters)
next
  case (Some opts)
  with assms(1) obtain t where "refinedType (fd_kind fd) (fo_semantic_type opts) = Inr t"
    by (auto simp: compileRefinedValueType_def andThen_eq_Inr)
  then have "fd_kind fd = StringKind \<or> fd_kind fd = BytesKind"
    by (auto simp: refinedType_def split: option.splits semantic_type.splits if_splits)
  with assms(2) show ?thesis by (auto simp: holdsMessage_def)
qed

lemma compileSyntheticField_enters:
  assumes "compileSyntheticField members E c fd name full path i role stack options = Inr r" "holdsMessage E fd md"
  shows "entered members stack md"
proof -
  from assms(1) obtain c' r' where "compileRefinedValueType members E c' fd path i stack options = Inr r'"
    by (auto simp: compileSyntheticField_def andThen_eq_Inr)
  then show ?thesis using assms(2) by (rule compileRefinedValueType_enters)
qed

lemma compileFieldType_enters:
  assumes "compileFieldType members E c fd path i stack options = Inr r"
    and "if fd_is_map fd then holdsMessage E (fd_map_key fd) md \<or> holdsMessage E (fd_map_value fd) md
       else holdsMessage E fd md"
  shows "entered members stack md"
  using assms unfolding compileFieldType_def compileMapType_def compileListType_def
  by (auto simp: andThen_eq_Inr Let_def split: if_splits
      intro: compileSyntheticField_enters compileRefinedValueType_enters)

lemma compileProtoField_enters:
  assumes "compileProtoField members E c fd path i stack = Inr r"
    and "if fd_is_map fd then holdsMessage E (fd_map_key fd) md \<or> holdsMessage E (fd_map_value fd) md
       else holdsMessage E fd md"
  shows "entered members stack md"
proof -
  from assms(1) obtain c' p' i' o' r' where "compileFieldType members E c' fd p' i' stack o' = Inr r'"
    by (auto simp: compileProtoField_def andThen_eq_Inr Let_def split: prod.splits)
  then show ?thesis using assms(2) by (rule compileFieldType_enters)
qed

lemma mapE_Inr_each: "mapE f s xs = Inr r \<Longrightarrow> x \<in> set xs \<Longrightarrow> \<exists>s' r'. f s' x = Inr r'"
proof (induction xs arbitrary: s r)
  case (Cons y ys)
  then obtain z s' zs t where "f s y = Inr (z, s')" "mapE f s' ys = Inr (zs, t)"
    by (cases r) (auto simp: mapE_Cons_Inr simp del: mapE.simps(2))
  with Cons show ?case by auto
qed simp

lemma compileMembers_enters:
  assumes "compileMembers n E c (sortedFields (md_fields outer)) path i stack = Inr r" "nests E outer inner"
  obtains m where "n = Suc m" "entered (compileMembers m E) stack inner"
proof -
  from assms(2) obtain fd where fd: "fd \<in> set (sortedFields (md_fields outer))"
    and holds: "if fd_is_map fd then holdsMessage E (fd_map_key fd) inner \<or> holdsMessage E (fd_map_value fd) inner
       else holdsMessage E fd inner"
    by (auto simp: nests_def sortedFields_def)
  obtain m where m: "n = Suc m" using assms(1) by (cases n) auto
  obtain c' r' where "compileProtoField (compileMembers m E) E c' fd path i stack = Inr r'"
    using mapE_Inr_each [OF assms(1) [unfolded m compileMembers.simps] fd] by blast
  then have "entered (compileMembers m E) stack inner" using holds by (rule compileProtoField_enters)
  with m that show thesis by blast
qed

lemma compileMembers_off_stack:
  assumes "compileMembers n E c (sortedFields (md_fields outer)) path i stack = Inr r"
    and "(nests E)\<^sup>+\<^sup>+ outer inner"
  shows "md_full_name inner \<notin> set stack"
  using assms
proof (induction n arbitrary: c outer path i stack r)
  case (Suc n)
  from Suc.prems(2) obtain mid where "nests E outer mid" and rest: "mid = inner \<or> (nests E)\<^sup>+\<^sup>+ mid inner"
    by (metis tranclpD rtranclpD)
  with Suc.prems(1) have ent: "entered (compileMembers n E) stack mid"
    using compileMembers_enters by blast
  then obtain c' path' i' r' where
    "compileMembers n E c' (sortedFields (md_fields mid)) path' i' (md_full_name mid # stack) = Inr r'"
    unfolding entered_def by blast
  from Suc.IH [OF this] rest ent show ?case by (auto simp: entered_def)
qed simp

lemma compileMembers_acyclic:
  assumes "(nests E)\<^sup>*\<^sup>* outer m"
    and "compileMembers n E c (sortedFields (md_fields outer)) path i stack = Inr r" "md_full_name outer \<in> set stack"
  shows "\<not> (nests E)\<^sup>+\<^sup>+ m m"
  using assms
proof (induction arbitrary: n c path i stack r rule: converse_rtranclp_induct)
  case base
  then show ?case using compileMembers_off_stack by blast
next
  case (step outer mid)
  from step.prems(1) step.hyps(1) obtain k where "entered (compileMembers k E) stack mid"
    by (rule compileMembers_enters)
  then show ?case unfolding entered_def using step.IH by (meson list.set_intros(1))
qed

text \<open>(C8) The compiler returns a schema only for messages of finite depth: no message that the
  compiled one contains, directly or through other messages, contains itself.\<close>

theorem compiled_messages_are_finite:
  assumes "CompileMessage E (Some md) previous = Inr ds" and "(nests E)\<^sup>*\<^sup>* md m"
  shows "\<not> (nests E)\<^sup>+\<^sup>+ m m"
  using assms(1)
proof (cases rule: CompileMessage_cases)
  case (1 md' c1 fs c)
  then show ?thesis using compileMembers_acyclic [OF assms(2)] by (metis list.set_intros(1) option.inject)
qed

lemma compiledNode_scopeNames: "compiledNode f \<Longrightarrow> scopeNames f"
  by (auto simp: compiledNode_def compiledKind_def scopeNames_def GetStruct_def
      split: option.splits data_type.splits type_kind.splits)

text \<open>(C6) In every scope of a compiled schema, at the top level and in every nested struct, the
  storage names are pairwise different and not empty.\<close>

theorem storage_names_unique:
  assumes "CompileMessage E descriptor previous = Inr ds"
  shows "distinct (map nilGetName (ds_fields ds)) \<and> [] \<notin> set (map nilGetName (ds_fields ds))
    \<and> list_all (\<lambda>f. case f of None \<Rightarrow> False | Some g \<Rightarrow> everyField scopeNames g) (ds_fields ds)"
  using compiled_fields [OF assms] everyField_mono [OF compiledNode_scopeNames]
  by (auto simp: compiledFields_def compiledMember_def list_all_iff split: option.splits)

text \<open>(C13) Every compiled schema has the shape the dialects rely on: at any depth, types are complete
  and in range, presence fits the type, list elements and map entries carry their roles, and the
  storage names of a scope are different and not empty.\<close>

theorem compiled_schema_shape:
  assumes "CompileMessage E descriptor previous = Inr ds"
  shows "compiledFields (ds_fields ds)"
  using assms by (rule compiled_fields)

theorem compiled_schema_shape_witness: "compiledFields (ds_fields schemaV1)"
  by (rule compiled_schema_shape [OF compile_V1])

theorem storage_names_unique_witness: "distinct (map nilGetName (ds_fields schemaV1))"
  using storage_names_unique [OF compile_V1] by blast

theorem compile_never_out_of_fuel_witness:
  "\<not> outOfFuel (InField ''shop.Node.next'' (RecursiveMessage ''shop.Node''))"
proof (rule compile_never_out_of_fuel)
  show "env_keyed (plainEnv [nodeMessage])" by (simp add: env_keyed_def plainEnv_def)
  show "CompileMessage (plainEnv [nodeMessage]) (Some nodeMessage) None =
      Inl (FieldFailed ''shop.Node'' (InField ''shop.Node.next'' (RecursiveMessage ''shop.Node'')))"
    by code_simp
qed

lemma order_nests_item: "nests (shopEnv orderV1) orderV1 itemMessage"
proof -
  have "wellKnownType (md_full_name itemMessage) = None" by code_simp
  then have "holdsMessage (shopEnv orderV1) (itemsField []) itemMessage"
    by (simp add: holdsMessage_def itemsField_def plainField_def shopEnv_def plainEnv_def itemMessage_def
        orderV1_def plainMessage_def)
  then show ?thesis
    unfolding nests_def
    by (intro bexI [of _ "itemsField []"])
      (simp_all add: orderV1_def plainMessage_def itemsField_def plainField_def)
qed

theorem compiled_messages_are_finite_witness: "\<not> (nests (shopEnv orderV1))\<^sup>+\<^sup>+ itemMessage itemMessage"
  using compiled_messages_are_finite [OF compile_V1] order_nests_item by blast

end
