(* ===== verification/Bundle.thy ===== *)
theory Bundle
  imports Examples
begin

text \<open>
  Schema bundles (\<^verbatim>\<open>go/data/bundle.go\<close>) and the compilation of a descriptor set
  (\<^verbatim>\<open>CompileDescriptorBytes\<close> and its helpers in \<^verbatim>\<open>go/data/compiler.go\<close>). What the code asks of
  the protobuf library is a parameter: the wire codec, \<^verbatim>\<open>proto.Clone\<close> and the reflection of bundles
  (\<open>bundle_codec\<close>), and the decoding and resolution of a descriptor set with the SHA-256
  of its bytes (\<open>descriptor_lib\<close>).
\<close>

definition IRVersion :: nat where
  "IRVersion = 4"

definition MappingVersion :: nat where
  "MappingVersion = 3"

section \<open>Bundles\<close>

record bundle_codec =
  unmarshalBundle :: "string \<Rightarrow> string + schema_bundle"
  marshalBundle :: "schema_bundle \<Rightarrow> string + string"
  reflectBundle :: "schema_bundle \<Rightarrow> reflect_message"
  cloneBundle :: "schema_bundle \<Rightarrow> schema_bundle"

datatype bundle_error =
    BundleIsNil
  | DecodeBundle string
  | EncodeBundle string
  | MigrateUnknown unknown_field_error
  | LegacyFixedLength string nat
  | UnsupportedPair nat nat
  | UnsupportedIR nat
  | UnsupportedMapping nat

text \<open>The children \<^verbatim>\<open>validateLegacyListShape\<close> descends into, each with its path, or the error at
  this field.\<close>

definition legacyChildren :: "field \<Rightarrow> string \<Rightarrow> bundle_error + (field option \<times> string) list" where
  "legacyChildren f path =
     (case GetType f of
        None \<Rightarrow> Inr []
      | Some t \<Rightarrow>
          (case GetKind t of
             DataType_Struct s \<Rightarrow>
               Inr (map (\<lambda>child. (child, path @ ''.'' @ nilGetName child)) (StructGetFields s))
           | DataType_List l \<Rightarrow>
               if ListGetFixedLength l \<noteq> 0 then Inl (LegacyFixedLength path (ListGetFixedLength l))
               else Inr [(ListGetElement l, path @ ''[]'')]
           | DataType_Map m \<Rightarrow> Inr [(MapGetKey m, path @ ''.key''), (MapGetValue m, path @ ''.value'')]
           | _ \<Rightarrow> Inr []))"

lemma legacyChildren_typeChildren:
  "legacyChildren f path = Inr cs \<Longrightarrow> map fst cs = typeChildren (GetType f)"
  by (auto simp: legacyChildren_def typeChildren_def kindChildren_def comp_def
      split: option.splits data_type.splits type_kind.splits if_splits)

lemma size_legacyChildren:
  assumes "legacyChildren f path = Inr cs" and "(Some g, p) \<in> set cs"
  shows "size g < size f"
proof -
  from assms(2) have "Some g \<in> set (map fst cs)" by force
  then show ?thesis
    using size_typeChildren [of g "GetType f"] legacyChildren_typeChildren [OF assms(1)] by (cases f) simp
qed

function (sequential) validateLegacyListShape :: "field option \<Rightarrow> string \<Rightarrow> bundle_error + unit" where
  "validateLegacyListShape None path = Inr ()"
| "validateLegacyListShape (Some f) path =
     andThen (legacyChildren f path)
       (foldE (\<lambda>_ (child, childPath). validateLegacyListShape child childPath) ())"
  by pat_completeness auto
termination
proof (relation "measure (\<lambda>(f, _). size_option size f)", goal_cases)
  case (2 f path cs u child g p)
  then show ?case using size_legacyChildren [of f path cs] by (cases f; cases g) auto
qed simp

declare validateLegacyListShape.simps [simp del]

definition MigrateSchemaBundle ::
    "bundle_codec \<Rightarrow> schema_bundle option \<Rightarrow> bundle_error + schema_bundle" where
  "MigrateSchemaBundle codec bundle =
     (case bundle of
        None \<Rightarrow> Inl BundleIsNil
      | Some b \<Rightarrow>
          if ir_version b = IRVersion \<and> mapping_version b = MappingVersion then Inr b
          else if ir_version b = 3 \<and> mapping_version b = 2 then
            andThen (mapErr MigrateUnknown
              (rejectUnknownFields (reflectBundle codec b) ''SchemaBundle'' ''unknown to this migrator''))
              (\<lambda>_.
            andThen (foldE (\<lambda>_ ds. case ds of
                None \<Rightarrow> Inr ()
              | Some d \<Rightarrow> foldE (\<lambda>_ f. validateLegacyListShape f (nilGetName f)) () (ds_fields d))
              () (datasets b)) (\<lambda>_.
            Inr ((cloneBundle codec b)\<lparr>ir_version := IRVersion, mapping_version := MappingVersion\<rparr>)))
          else Inl (UnsupportedPair (ir_version b) (mapping_version b)))"

definition ParseSchemaBundle :: "bundle_codec \<Rightarrow> string \<Rightarrow> bundle_error + schema_bundle" where
  "ParseSchemaBundle codec encoded =
     andThen (mapErr DecodeBundle (unmarshalBundle codec encoded))
       (\<lambda>bundle. MigrateSchemaBundle codec (Some bundle))"

definition ValidateSchemaBundle :: "schema_bundle option \<Rightarrow> bundle_error + unit" where
  "ValidateSchemaBundle bundle =
     (case bundle of
        None \<Rightarrow> Inl BundleIsNil
      | Some b \<Rightarrow>
          if ir_version b \<noteq> IRVersion then Inl (UnsupportedIR (ir_version b))
          else if mapping_version b \<noteq> MappingVersion then Inl (UnsupportedMapping (mapping_version b))
          else Inr ())"

definition MarshalSchemaBundle :: "bundle_codec \<Rightarrow> schema_bundle option \<Rightarrow> bundle_error + string" where
  "MarshalSchemaBundle codec bundle =
     andThen (ValidateSchemaBundle bundle) (\<lambda>_.
     case bundle of
       None \<Rightarrow> Inl BundleIsNil
     | Some b \<Rightarrow> mapErr EncodeBundle (marshalBundle codec b))"

definition FindDataset :: "schema_bundle option \<Rightarrow> string \<Rightarrow> dataset_schema option" where
  "FindDataset bundle sourceMessage =
     (case bundle of
        None \<Rightarrow> None
      | Some b \<Rightarrow>
          (case find (\<lambda>ds. case ds of None \<Rightarrow> False | Some d \<Rightarrow> source_message d = sourceMessage) (datasets b) of
             None \<Rightarrow> None
           | Some ds \<Rightarrow> ds))"

end
