(* ===== verification/Descriptor_Set.thy ===== *)
theory Descriptor_Set
  imports Bundle
begin

text \<open>
  The compilation of a serialized \<^verbatim>\<open>FileDescriptorSet\<close> into a bundle (\<^verbatim>\<open>CompileDescriptorBytes\<close>
  in \<^verbatim>\<open>go/data/compiler.go\<close>): the guard on Invariant's custom option number, the discovery of the
  annotated messages, the selection of the dataset roots, and one \<^verbatim>\<open>CompileMessage\<close> for each.
\<close>

section \<open>Descriptor protos\<close>

record extension_proto =
  xp_number :: int
  xp_extendee :: string
  xp_name :: string
  xp_is_message :: bool
  xp_type_name :: string
  xp_is_optional :: bool

datatype descriptor_proto =
  DescriptorProto (dp_name: string) (dp_nested: "descriptor_proto option list")
    (dp_extension: "extension_proto option list")

record file_proto =
  fp_package :: string
  fp_messages :: "descriptor_proto option list"
  fp_extensions :: "extension_proto option list"

datatype annotation_error =
    OptionNumberTaken string string string
  | UnexpectedDeclaration string

definition optionNumber :: int where
  "optionNumber = 51974"

text \<open>The table \<^verbatim>\<open>allowed\<close>: the extendee, the option's full name and its message type.\<close>

definition allowedOptions :: "(string \<times> string \<times> string) list" where
  "allowedOptions =
     [(''.google.protobuf.MessageOptions'', ''invariant.data.v1.dataset'', ''.invariant.data.v1.DatasetOptions''),
      (''.google.protobuf.FieldOptions'', ''invariant.data.v1.field'', ''.invariant.data.v1.FieldOptions'')]"

text \<open>The first loop of \<^verbatim>\<open>visitExtensions\<close>: one extension declared in a scope.\<close>

definition visitExtension :: "string \<Rightarrow> extension_proto option \<Rightarrow> annotation_error + unit" where
  "visitExtension scope extension =
     (case extension of
        None \<Rightarrow> Inr ()
      | Some x \<Rightarrow>
          if xp_number x \<noteq> optionNumber then Inr ()
          else (case map_of allowedOptions (xp_extendee x) of
            None \<Rightarrow> Inr ()
          | Some (expectedName, expectedType) \<Rightarrow>
              let name = TrimPrefix (scope @ ''.'' @ xp_name x) ''.'' in
              if name \<noteq> expectedName
              then Inl (OptionNumberTaken (TrimPrefix (xp_extendee x) ''.'') expectedName name)
              else if \<not> xp_is_message x \<or> xp_type_name x \<noteq> expectedType \<or> \<not> xp_is_optional x
              then Inl (UnexpectedDeclaration expectedName)
              else Inr ()))"

fun visitMessage :: "string \<Rightarrow> descriptor_proto option \<Rightarrow> annotation_error + unit" where
  "visitMessage scope None = Inr ()"
| "visitMessage scope (Some (DescriptorProto name nested exts)) =
     (let messageScope = TrimPrefix (scope @ ''.'' @ name) ''.'' in
      andThen (foldE (\<lambda>_. visitExtension messageScope) () exts) (\<lambda>_.
      foldE (\<lambda>_. visitMessage messageScope) () nested))"

definition visitExtensions ::
    "string \<Rightarrow> descriptor_proto option list \<Rightarrow> extension_proto option list \<Rightarrow> annotation_error + unit" where
  "visitExtensions scope messages exts =
     andThen (foldE (\<lambda>_. visitExtension scope) () exts) (\<lambda>_.
     foldE (\<lambda>_. visitMessage scope) () messages)"

definition validateAnnotationOptionNumbers :: "file_proto option list \<Rightarrow> annotation_error + unit" where
  "validateAnnotationOptionNumbers files =
     foldE (\<lambda>_ file. case file of
         None \<Rightarrow> Inr ()
       | Some f \<Rightarrow> visitExtensions (fp_package f) (fp_messages f) (fp_extensions f)) () files"

section \<open>Resolved files\<close>

text \<open>A message with the messages declared inside it, as \<^verbatim>\<open>file.Messages()\<close> gives them.\<close>

datatype message_tree = MessageTree message_descriptor "message_tree list"

datatype found_descriptor =
    FoundMessage message_descriptor
  | FoundOther

record registry =
  reg_env :: proto_env
  reg_files :: "message_tree list list"
  reg_find :: "string \<Rightarrow> string + found_descriptor"

record descriptor_lib =
  unmarshalFiles :: "string \<Rightarrow> string + file_proto option list"
  newFiles :: "file_proto option list \<Rightarrow> string + registry"
  sha256 :: "string \<Rightarrow> string"

definition hasDatasetOption :: "message_descriptor \<Rightarrow> option_error + bool" where
  "hasDatasetOption md =
     (case md_dataset_option md of
        NoExtension \<Rightarrow> Inr False
      | UnexpectedExtensionType t \<Rightarrow> Inl (UnexpectedOptionType t)
      | Extension options \<Rightarrow>
          andThen (mapErr UnknownOptionField
            (rejectUnknownFields options ''dataset option'' ''unsupported by this compiler''))
            (\<lambda>_. Inr True))"

text \<open>\<^verbatim>\<open>visitMessages\<close>: the names found so far are the state, the first error ends the walk.\<close>

fun annotatedNames :: "string list \<Rightarrow> message_tree \<Rightarrow> (string \<times> option_error) + string list" where
  "annotatedNames names (MessageTree md nested) =
     andThen (mapErr (Pair (md_full_name md)) (hasDatasetOption md)) (\<lambda>annotated.
     foldE annotatedNames (if annotated then names @ [md_full_name md] else names) nested)"

definition annotatedDatasetNames :: "registry \<Rightarrow> (string \<times> option_error) + string list" where
  "annotatedDatasetNames files =
     andThen (foldE (foldE annotatedNames) [] (reg_files files)) (\<lambda>names. Inr (sort names))"

section \<open>Compilation\<close>

datatype descriptor_error =
    UnmarshalFiles string
  | Annotation annotation_error
  | ResolveFiles string
  | DiscoverDatasets "string \<times> option_error"
  | EmptyMessageName
  | NothingSelected
  | PreviousBundle bundle_error
  | PreviousWithoutSource
  | PreviousDuplicated string
  | RootsRemoved "string list"
  | ResolveDataset string string
  | NotAMessage string
  | IsMapEntry string
  | DatasetFailed string message_error
  | StorageNameCollides string string string

text \<open>The loop that normalizes the selected names: the names kept so far are the state.\<close>

definition selectName :: "string list \<Rightarrow> string \<Rightarrow> descriptor_error + string list" where
  "selectName names rawName =
     (let name = TrimPrefix (TrimSpace rawName) ''.'' in
      if name = [] then Inl EmptyMessageName
      else if name \<in> set names then Inr names
      else Inr (names @ [name]))"

text \<open>One round of the loop over the datasets of the previous bundle.\<close>

definition indexDataset ::
    "(string \<times> dataset_schema) list \<Rightarrow> dataset_schema option
     \<Rightarrow> descriptor_error + (string \<times> dataset_schema) list" where
  "indexDataset indexed ds =
     (case ds of
        None \<Rightarrow> Inl PreviousWithoutSource
      | Some d \<Rightarrow>
          if source_message d = [] then Inl PreviousWithoutSource
          else if map_of indexed (source_message d) \<noteq> None
          then Inl (PreviousDuplicated (source_message d))
          else Inr (AList.update (source_message d) d indexed))"

definition indexPreviousBundle ::
    "bundle_codec \<Rightarrow> schema_bundle option \<Rightarrow> descriptor_error + (string \<times> dataset_schema) list" where
  "indexPreviousBundle codec previous =
     (case previous of
        None \<Rightarrow> Inr []
      | Some _ \<Rightarrow>
          andThen (mapErr PreviousBundle (MigrateSchemaBundle codec previous)) (\<lambda>migrated.
          foldE indexDataset [] (datasets migrated)))"

text \<open>One round of the loop over the dataset names: the state is the map of storage names and the
  datasets compiled so far.\<close>

definition compileDataset ::
    "registry \<Rightarrow> (string \<times> dataset_schema) list \<Rightarrow> (string \<times> string) list \<times> dataset_schema list \<Rightarrow> string
     \<Rightarrow> descriptor_error + (string \<times> string) list \<times> dataset_schema list" where
  "compileDataset files previousByMessage st name =
     (case st of (datasetStorageNames, compiled) \<Rightarrow>
       andThen (mapErr (ResolveDataset name) (reg_find files name)) (\<lambda>descriptor.
       case descriptor of
         FoundOther \<Rightarrow> Inl (NotAMessage name)
       | FoundMessage md \<Rightarrow>
           if md_is_map_entry md then Inl (IsMapEntry name)
           else
             andThen (mapErr (DatasetFailed name)
               (CompileMessage (reg_env files) (Some md) (map_of previousByMessage name))) (\<lambda>ds.
             case map_of datasetStorageNames (ds_name ds) of
               Some owner \<Rightarrow> Inl (StorageNameCollides (ds_name ds) owner name)
             | None \<Rightarrow> Inr (AList.update (ds_name ds) name datasetStorageNames, compiled @ [ds]))))"

definition CompileDescriptorBytes ::
    "descriptor_lib \<Rightarrow> bundle_codec \<Rightarrow> string \<Rightarrow> string list \<Rightarrow> schema_bundle option
     \<Rightarrow> descriptor_error + schema_bundle" where
  "CompileDescriptorBytes lib codec descriptor messageNames previous =
     andThen (mapErr UnmarshalFiles (unmarshalFiles lib descriptor)) (\<lambda>fds.
     andThen (mapErr Annotation (validateAnnotationOptionNumbers fds)) (\<lambda>_.
     andThen (mapErr ResolveFiles (newFiles lib fds)) (\<lambda>files.
     andThen (if messageNames = [] then mapErr DiscoverDatasets (annotatedDatasetNames files)
              else Inr messageNames) (\<lambda>selectedNames.
     andThen (foldE selectName [] selectedNames) (\<lambda>names.
     if names = [] then Inl NothingSelected
     else
       andThen (indexPreviousBundle codec previous) (\<lambda>previousByMessage.
       let removedRoots = filter (\<lambda>n. n \<notin> set names) (map fst previousByMessage) in
       if removedRoots \<noteq> [] then Inl (RootsRemoved (sort removedRoots))
       else
         andThen (foldE (compileDataset files previousByMessage) ([], []) (sort names)) (\<lambda>(_, compiled).
         Inr \<lparr>ir_version = IRVersion, mapping_version = MappingVersion,
              source_descriptor_sha256 = sha256 lib descriptor,
              datasets = map Some compiled\<rparr>)))))))"

end
