(* ===== verification/Bundle_Properties.thy ===== *)
theory Bundle_Properties
  imports Descriptor_Set Compiler_Shape
begin

text \<open>
  What holds of bundles: exactly which legacy bundles migrate, a compiled bundle is in canonical order
  with distinct messages and storage names, and dataset roots with their ledgers are append-only. The
  assumptions on the protobuf library are \<open>typedReflection\<close> (reflection gives values that fit their
  descriptors, without groups), \<open>cloneKeeps\<close> (\<^verbatim>\<open>proto.Clone\<close> copies a dataset without nil elements),
  \<open>foundByName\<close> and \<open>libSound\<close> (a descriptor is found under its own full name, with \<^verbatim>\<open>int32\<close> field
  numbers).
\<close>

definition foundByName :: "registry \<Rightarrow> bool" where
  "foundByName files \<longleftrightarrow> (\<forall>n md. reg_find files n = Inr (FoundMessage md) \<longrightarrow>
     md_full_name md = n \<and> well_typed (reg_env files) (Some md))"

definition compiledFrom ::
    "registry \<Rightarrow> (string \<times> dataset_schema) list \<Rightarrow> string \<Rightarrow> dataset_schema \<Rightarrow> bool" where
  "compiledFrom files previousByMessage name ds \<longleftrightarrow> (\<exists>md.
     reg_find files name = Inr (FoundMessage md) \<and>
     CompileMessage (reg_env files) (Some md) (map_of previousByMessage name) = Inr ds)"

text \<open>The messages of a populated field, and all messages of a reflected tree.\<close>

fun messagesOf :: "reflect_value \<Rightarrow> reflect_message list" where
  "messagesOf ScalarValue = []"
| "messagesOf (MessageValue m) = [m]"
| "messagesOf (ListValue ms) = ms"
| "messagesOf (reflect_value.MapValue items) = map snd items"

inductive holdsReflected :: "reflect_message \<Rightarrow> reflect_message \<Rightarrow> bool" where
  itself: "holdsReflected m m"
| nested: "(d, v) \<in> set (Range m) \<Longrightarrow> n \<in> set (messagesOf v) \<Longrightarrow> holdsReflected n k \<Longrightarrow> holdsReflected m k"

definition knownAll :: "reflect_message \<Rightarrow> bool" where
  "knownAll m \<longleftrightarrow> (\<forall>n. holdsReflected m n \<longrightarrow> GetUnknown n = [])"

definition typedValue :: "reflect_field \<Rightarrow> reflect_value \<Rightarrow> bool" where
  "typedValue d v = (case v of
       ScalarValue \<Rightarrow> True
     | MessageValue _ \<Rightarrow> \<not> rd_is_map d \<and> \<not> rd_is_list d \<and> rd_kind d = MessageKind
     | ListValue _ \<Rightarrow> \<not> rd_is_map d \<and> rd_is_list d \<and> rd_kind d = MessageKind
     | reflect_value.MapValue _ \<Rightarrow> rd_is_map d \<and> rd_map_value_kind d = MessageKind)"

definition typedReflection :: "reflect_message \<Rightarrow> bool" where
  "typedReflection m \<longleftrightarrow> (\<forall>n. holdsReflected m n \<longrightarrow> (\<forall>(d, v) \<in> set (Range n). typedValue d v))"

text \<open>No nil pointer anywhere in a dataset.\<close>

definition nilFreeNode :: "field \<Rightarrow> bool" where
  "nilFreeNode f \<longleftrightarrow> GetType f \<noteq> None \<and> None \<notin> set (typeChildren (GetType f))
     \<and> (case GetKind (the (GetType f)) of
          DataType_Primitive p \<Rightarrow> p \<noteq> None
        | DataType_Enum e \<Rightarrow> (case e of None \<Rightarrow> False | Some et \<Rightarrow> None \<notin> set (et_values et))
        | DataType_Struct s \<Rightarrow> s \<noteq> None
        | DataType_List l \<Rightarrow> l \<noteq> None
        | DataType_Map m \<Rightarrow> m \<noteq> None
        | DataType_Timestamp t \<Rightarrow> t \<noteq> None
        | DataType_Duration d \<Rightarrow> d \<noteq> None
        | DataType_Json j \<Rightarrow> j \<noteq> None
        | DataType_Decimal d \<Rightarrow> d \<noteq> None
        | DataType_Uuid u \<Rightarrow> u \<noteq> None
        | DataType_FixedBytes b \<Rightarrow> b \<noteq> None
        | Kind_nil \<Rightarrow> False)"

definition nilFree :: "dataset_schema \<Rightarrow> bool" where
  "nilFree ds \<longleftrightarrow> None \<notin> set (retired_fields ds)
     \<and> list_all (\<lambda>c. case c of None \<Rightarrow> False | Some f \<Rightarrow> everyField nilFreeNode f) (ds_fields ds)"

definition cloneKeeps :: "bundle_codec \<Rightarrow> bool" where
  "cloneKeeps codec \<longleftrightarrow> (\<forall>b d. Some d \<in> set (datasets b) \<longrightarrow> nilFree d \<longrightarrow> Some d \<in> set (datasets (cloneBundle codec b)))"

text \<open>A codec that reflects a bundle as a message with its list of datasets; each dataset carries the given
  unknown bytes.\<close>

definition datasetsField :: reflect_field where
  "datasetsField = \<lparr>rd_name = ''datasets'', rd_is_map = False, rd_map_value_kind = OtherKind, rd_is_list = True,
     rd_kind = MessageKind\<rparr>"

definition reflectingCodec :: "string \<Rightarrow> bundle_codec" where
  "reflectingCodec unknown = \<lparr>unmarshalBundle = (\<lambda>s. Inl s), marshalBundle = (\<lambda>_. Inl []),
     reflectBundle = (\<lambda>b. ReflectMessage [] [(datasetsField, ListValue (map (\<lambda>_. ReflectMessage unknown []) (datasets b)))]),
     cloneBundle = (\<lambda>b. b)\<rparr>"

definition exampleCodec :: bundle_codec where
  "exampleCodec = reflectingCodec []"

definition legacyBundle :: schema_bundle where
  "legacyBundle = \<lparr>ir_version = 3, mapping_version = 2, source_descriptor_sha256 = [], datasets = [Some schemaV1]\<rparr>"

function noFixedLists :: "field \<Rightarrow> bool" where
  "noFixedLists (Field d t) \<longleftrightarrow>
     (case t of Some (DataType _ (DataType_List (Some (_, n)))) \<Rightarrow> n = 0 | _ \<Rightarrow> True) \<and>
     list_all (\<lambda>c. case c of None \<Rightarrow> True | Some g \<Rightarrow> noFixedLists g) (typeChildren t)"
  by pat_completeness auto
termination
  by (relation "measure size") (auto simp: size_typeChildren)

declare noFixedLists.simps [simp del]

definition libSound :: "descriptor_lib \<Rightarrow> bool" where
  "libSound lib \<longleftrightarrow> (\<forall>fds files. newFiles lib fds = Inr files \<longrightarrow> foundByName files)"

definition shopLib :: "message_descriptor \<Rightarrow> descriptor_lib" where
  "shopLib md = \<lparr>unmarshalFiles = (\<lambda>_. Inr []),
     newFiles = (\<lambda>_. Inr \<lparr>reg_env = shopEnv md, reg_files = [],
       reg_find = (\<lambda>n. if n = ''shop.Order'' then Inr (FoundMessage md) else Inl n)\<rparr>),
     sha256 = (\<lambda>s. s)\<rparr>"

definition bundleV1 :: schema_bundle where
  "bundleV1 = \<lparr>ir_version = 4, mapping_version = 3, source_descriptor_sha256 = ''v1'', datasets = [Some schemaV1]\<rparr>"

definition bundleV2 :: schema_bundle where
  "bundleV2 = \<lparr>ir_version = 4, mapping_version = 3, source_descriptor_sha256 = ''v2'', datasets = [Some schemaV2]\<rparr>"

fun messageExtensions :: "string \<Rightarrow> descriptor_proto option \<Rightarrow> (string \<times> extension_proto option) list" where
  "messageExtensions scope None = []"
| "messageExtensions scope (Some (DescriptorProto name nested exts)) =
     (let messageScope = TrimPrefix (scope @ ''.'' @ name) ''.'' in
      map (Pair messageScope) exts @ concat (map (messageExtensions messageScope) nested))"

definition declaredExtensions :: "file_proto option list \<Rightarrow> (string \<times> extension_proto option) list" where
  "declaredExtensions files = concat (map (\<lambda>file. case file of
       None \<Rightarrow> []
     | Some f \<Rightarrow> map (Pair (fp_package f)) (fp_extensions f)
         @ concat (map (messageExtensions (fp_package f)) (fp_messages f))) files)"

definition ownOption :: "string \<Rightarrow> extension_proto \<Rightarrow> bool" where
  "ownOption scope x \<longleftrightarrow>
     (\<forall>name typeName. map_of allowedOptions (xp_extendee x) = Some (name, typeName) \<longrightarrow> xp_number x = 51974 \<longrightarrow>
        TrimPrefix (scope @ ''.'' @ xp_name x) ''.'' = name \<and> xp_is_message x
        \<and> xp_type_name x = typeName \<and> xp_is_optional x)"

section \<open>Lemmas\<close>

lemma selectName_inv:
  assumes "foldE selectName names raws = Inr names'" "distinct names"
  shows "distinct names'"
  by (rule foldE_invariant [where I = distinct, OF assms])
    (auto simp: selectName_def Let_def split: if_splits)

lemma CompileMessage_source: "CompileMessage E (Some md) p = Inr ds \<Longrightarrow> source_message ds = md_full_name md"
  by (erule CompileMessage_cases) simp

lemma compileDataset_step:
  assumes "compileDataset files prev (owners, compiled) name = Inr (owners', compiled')"
  obtains ds where "compiled' = compiled @ [ds]" "compiledFrom files prev name ds"
    "map_of owners (ds_name ds) = None" "owners' = owners @ [(ds_name ds, name)]"
proof -
  from assms obtain d where d: "reg_find files name = Inr d"
    by (auto simp: compileDataset_def andThen_eq_Inr)
  with assms obtain md where md: "d = FoundMessage md"
    by (cases d) (auto simp: compileDataset_def)
  with assms d obtain ds where ds: "CompileMessage (reg_env files) (Some md) (map_of prev name) = Inr ds"
    by (auto simp: compileDataset_def andThen_eq_Inr split: if_splits)
  show thesis
    using assms d md ds that [of ds]
    by (auto simp: compileDataset_def compiledFrom_def update_new_map_of split: if_splits option.splits)
qed

lemma compileDatasets:
  assumes "foldE (compileDataset files prev) (owners, compiled) names = Inr (owners', compiled')"
    and "map fst owners = map ds_name compiled" "distinct (map ds_name compiled)"
  shows "\<exists>new. compiled' = compiled @ new \<and> list_all2 (compiledFrom files prev) names new \<and>
    map fst owners' = map ds_name compiled' \<and> distinct (map ds_name compiled')"
  using assms
proof (induction names arbitrary: owners compiled)
  case (Cons name names)
  from Cons.prems(1) obtain o1 c1 where step: "compileDataset files prev (owners, compiled) name = Inr (o1, c1)"
    and rest: "foldE (compileDataset files prev) (o1, c1) names = Inr (owners', compiled')"
    by (auto simp: andThen_eq_Inr)
  from step show ?case
  proof (cases rule: compileDataset_step)
    case (1 ds)
    have "ds_name ds \<notin> set (map ds_name compiled)"
      using 1(3) Cons.prems(2) by (metis list.set_map map_of_eq_None_iff)
    then have "map fst o1 = map ds_name c1" "distinct (map ds_name c1)"
      using 1(1,4) Cons.prems(2,3) by simp_all
    from Cons.IH [OF rest this] obtain new where "compiled' = c1 @ new"
      "list_all2 (compiledFrom files prev) names new" "map fst owners' = map ds_name compiled'"
      "distinct (map ds_name compiled')" by blast
    then show ?thesis using 1 by (intro exI [of _ "ds # new"]) simp
  qed
qed simp

lemma indexDataset_step:
  assumes "indexDataset indexed ds = Inr indexed'"
  obtains d where "ds = Some d" "indexed' = indexed @ [(source_message d, d)]"
    "source_message d \<notin> fst ` set indexed"
  using assms
  by (auto simp: indexDataset_def update_new_map_of map_of_eq_None_iff split: option.splits if_splits)

lemma indexDatasets:
  assumes "foldE indexDataset acc dss = Inr prev" "distinct (map fst acc)"
  shows "\<exists>new. prev = acc @ new \<and> dss = map (\<lambda>e. Some (snd e)) new \<and>
      (\<forall>e \<in> set new. fst e = source_message (snd e)) \<and> distinct (map fst prev)"
  using assms
proof (induction dss arbitrary: acc)
  case (Cons ds dss)
  from Cons.prems(1) obtain acc' where step: "indexDataset acc ds = Inr acc'"
    and rest: "foldE indexDataset acc' dss = Inr prev" by (auto simp: andThen_eq_Inr)
  from step show ?case
  proof (cases rule: indexDataset_step)
    case (1 d)
    with Cons.prems(2) have "distinct (map fst acc')" by simp
    from Cons.IH [OF rest this] obtain new where "prev = acc' @ new" "dss = map (\<lambda>e. Some (snd e)) new"
      "\<forall>e \<in> set new. fst e = source_message (snd e)" "distinct (map fst prev)" by blast
    then show ?thesis by (intro exI [of _ "(source_message d, d) # new"]) (simp add: 1)
  qed
qed simp

lemma indexPreviousBundle_entries:
  assumes "indexPreviousBundle codec (Some p) = Inr prev"
  obtains m where "MigrateSchemaBundle codec (Some p) = Inr m"
    "datasets m = map (\<lambda>e. Some (snd e)) prev" "\<forall>e \<in> set prev. fst e = source_message (snd e)"
    "distinct (map fst prev)"
proof -
  from assms obtain m where "MigrateSchemaBundle codec (Some p) = Inr m"
    and "foldE indexDataset [] (datasets m) = Inr prev"
    by (auto simp: indexPreviousBundle_def andThen_eq_Inr)
  with indexDatasets [of "[]" "datasets m" prev] that show thesis by auto
qed

lemma CompileDescriptorBytes_cases:
  assumes "CompileDescriptorBytes lib codec descriptor messageNames previous = Inr b"
  obtains fds files names prev compiled owners where
    "unmarshalFiles lib descriptor = Inr fds" "newFiles lib fds = Inr files" "distinct names" "names \<noteq> []"
    "indexPreviousBundle codec previous = Inr prev" "set (map fst prev) \<subseteq> set names"
    "foldE (compileDataset files prev) ([], []) (sort names) = Inr (owners, compiled)"
    "b = \<lparr>ir_version = IRVersion, mapping_version = MappingVersion,
              source_descriptor_sha256 = sha256 lib descriptor, datasets = map Some compiled\<rparr>"
proof -
  from assms obtain fds files selected names prev where fds: "unmarshalFiles lib descriptor = Inr fds"
    and files: "newFiles lib fds = Inr files" and names: "foldE selectName [] selected = Inr names" "names \<noteq> []"
    and prev: "indexPreviousBundle codec previous = Inr prev"
    and roots: "filter (\<lambda>n. n \<notin> set names) (map fst prev) = []"
    and run: "andThen (foldE (compileDataset files prev) ([], []) (sort names)) (\<lambda>(_, compiled).
         Inr \<lparr>ir_version = IRVersion, mapping_version = MappingVersion,
              source_descriptor_sha256 = sha256 lib descriptor,
              datasets = map Some compiled\<rparr>) = Inr b"
    unfolding CompileDescriptorBytes_def
    by (auto simp: andThen_eq_Inr Let_def split: if_splits)
  from run obtain owners compiled where
    "foldE (compileDataset files prev) ([], []) (sort names) = Inr (owners, compiled)"
    "b = \<lparr>ir_version = IRVersion, mapping_version = MappingVersion,
              source_descriptor_sha256 = sha256 lib descriptor, datasets = map Some compiled\<rparr>"
    by (auto simp: andThen_eq_Inr)
  moreover have "distinct names" using selectName_inv [OF names(1)] by simp
  moreover have "set (map fst prev) \<subseteq> set names" using roots by (auto simp: filter_empty_conv)
  ultimately show thesis using that fds files names(2) prev by blast
qed

lemma compiledFrom_source:
  "foundByName files \<Longrightarrow> compiledFrom files prev name ds \<Longrightarrow> source_message ds = name"
  unfolding compiledFrom_def foundByName_def using CompileMessage_source by blast

lemma compiledFrom_sources:
  assumes "foundByName files" "list_all2 (compiledFrom files prev) names compiled"
  shows "map source_message compiled = names"
  using assms(2) by (induction rule: list_all2_induct) (simp_all add: compiledFrom_source [OF assms(1)])

section \<open>Properties\<close>

lemma migrate_legacyBundle:
  "MigrateSchemaBundle exampleCodec (Some legacyBundle) = Inr (legacyBundle\<lparr>ir_version := 4, mapping_version := 3\<rparr>)"
  by code_simp

lemma legacyChildren_ok:
  "(\<exists>cs. legacyChildren (Field d t) path = Inr cs) \<longleftrightarrow>
     (case t of Some (DataType _ (DataType_List (Some (_, n)))) \<Rightarrow> n = 0 | _ \<Rightarrow> True)"
  by (auto simp: legacyChildren_def ListGetFixedLength_def split: option.splits data_type.splits type_kind.splits)

lemma validateLegacyListShape_iff:
  "validateLegacyListShape (Some f) path = Inr () \<longleftrightarrow> noFixedLists f"
proof (induction f arbitrary: path rule: field_tree_induct)
  case (Field d t)
  show ?case
  proof (cases "legacyChildren (Field d t) path")
    case (Inl e)
    then show ?thesis using legacyChildren_ok [of d t path]
      by (simp add: validateLegacyListShape.simps noFixedLists.simps)
  next
    case (Inr cs)
    have cs: "map fst cs = typeChildren t" using legacyChildren_typeChildren [OF Inr] by simp
    have "validateLegacyListShape (Some (Field d t)) path = Inr () \<longleftrightarrow>
        (\<forall>(c, p) \<in> set cs. validateLegacyListShape c p = Inr ())"
      by (simp add: validateLegacyListShape.simps Inr foldE_unit case_prod_beta')
    also have "\<dots> \<longleftrightarrow> (\<forall>(c, p) \<in> set cs. case c of None \<Rightarrow> True | Some g \<Rightarrow> noFixedLists g)"
    proof (rule ball_cong [OF refl], clarify)
      fix c p
      assume "(c, p) \<in> set cs"
      then have "c \<in> set (typeChildren t)" unfolding cs [symmetric] by force
      then show "(validateLegacyListShape c p = Inr ()) = (case c of None \<Rightarrow> True | Some g \<Rightarrow> noFixedLists g)"
        using Field by (cases c rule: option.exhaust) (simp_all add: validateLegacyListShape.simps(1))
    qed
    also have "\<dots> \<longleftrightarrow> list_all (\<lambda>c. case c of None \<Rightarrow> True | Some g \<Rightarrow> noFixedLists g) (map fst cs)"
      by (auto simp: list_all_iff)
    finally show ?thesis
      using legacyChildren_ok [of d t path] Inr by (simp add: noFixedLists.simps cs del: Inr)
  qed
qed

section \<open>Unknown fields\<close>

lemma holdsReflected_iff:
  "holdsReflected m k \<longleftrightarrow> m = k \<or> (\<exists>(d, v) \<in> set (Range m). \<exists>n \<in> set (messagesOf v). holdsReflected n k)"
  by (subst holdsReflected.simps) fastforce

lemma typedReflection_here: "typedReflection m \<Longrightarrow> (d, v) \<in> set (Range m) \<Longrightarrow> typedValue d v"
  unfolding typedReflection_def using holdsReflected.itself by fast

lemma typedReflection_nested:
  "typedReflection m \<Longrightarrow> (d, v) \<in> set (Range m) \<Longrightarrow> n \<in> set (messagesOf v) \<Longrightarrow> typedReflection n"
  unfolding typedReflection_def using holdsReflected.nested by blast

lemma knownAll_iff:
  "knownAll m \<longleftrightarrow> GetUnknown m = [] \<and> (\<forall>(d, v) \<in> set (Range m). \<forall>n \<in> set (messagesOf v). knownAll n)"
  unfolding knownAll_def by (subst holdsReflected_iff) blast

lemma rejectUnknown_known:
  "typedReflection m \<Longrightarrow> rejectUnknownFields m path u = Inr () \<longleftrightarrow> knownAll m"
  "\<forall>(d, v) \<in> set r. typedValue d v \<and> (\<forall>n \<in> set (messagesOf v). typedReflection n) \<Longrightarrow>
     rejectUnknownRange r path u = Inr () \<longleftrightarrow> (\<forall>(d, v) \<in> set r. \<forall>n \<in> set (messagesOf v). knownAll n)"
  "\<forall>x \<in> set items. typedReflection (snd x) \<Longrightarrow>
     rejectUnknownMap items path u = Inr () \<longleftrightarrow> (\<forall>x \<in> set items. knownAll (snd x))"
  "\<forall>n \<in> set ms. typedReflection n \<Longrightarrow> rejectUnknownList ms i path u = Inr () \<longleftrightarrow> (\<forall>n \<in> set ms. knownAll n)"
proof (induction m path u and r path u and items path u and ms i path u
    rule: rejectUnknownFields_rejectUnknownRange_rejectUnknownMap_rejectUnknownList.induct)
  case (1 unknown populated path u)
  have "\<forall>(d, v) \<in> set populated. typedValue d v \<and> (\<forall>n \<in> set (messagesOf v). typedReflection n)"
    using typedReflection_here [OF 1(2)] typedReflection_nested [OF 1(2)] by auto
  then show ?case using 1(1) by (subst knownAll_iff) auto
next
  case (3 d v populated path u)
  have v: "typedValue d v" "\<forall>n \<in> set (messagesOf v). typedReflection n" using 3(5) by auto
  have rest: "\<forall>(d, v) \<in> set populated. typedValue d v \<and> (\<forall>n \<in> set (messagesOf v). typedReflection n)" using 3(5) by auto
  show ?case
  proof (cases v)
    case ScalarValue
    then show ?thesis using 3(4) rest by (simp add: andThen_eq_Inr)
  next
    case (MessageValue m)
    then show ?thesis using 3(3,4) v rest by (auto simp: typedValue_def andThen_eq_Inr)
  next
    case (ListValue ms)
    then show ?thesis using 3(2,4) v rest by (auto simp: typedValue_def andThen_eq_Inr)
  next
    case (MapValue items)
    then show ?thesis using 3(1,4) v rest by (auto simp: typedValue_def andThen_eq_Inr)
  qed
qed (auto simp: andThen_eq_Inr)

text \<open>(C11) A bundle of the legacy version pair migrates exactly when no message of it, at any depth,
  carries bytes of an unknown field, and no list in it, however deeply nested, has a fixed length.\<close>

theorem legacy_migration_iff:
  assumes "ir_version b = 3" and "mapping_version b = 2" and "typedReflection (reflectBundle codec b)"
  shows "(\<exists>m. MigrateSchemaBundle codec (Some b) = Inr m) \<longleftrightarrow>
    (\<forall>n. holdsReflected (reflectBundle codec b) n \<longrightarrow> GetUnknown n = []) \<and>
    (\<forall>d f. Some d \<in> set (datasets b) \<longrightarrow> Some f \<in> set (ds_fields d) \<longrightarrow> noFixedLists f)"
proof -
  have "validateLegacyListShape f p = Inr () \<longleftrightarrow> (\<forall>g. f = Some g \<longrightarrow> noFixedLists g)" for f p
    by (cases f) (simp_all add: validateLegacyListShape_iff validateLegacyListShape.simps(1))
  then have "(foldE (\<lambda>_ f. validateLegacyListShape f (nilGetName f)) () fs = Inr ()) \<longleftrightarrow>
      (\<forall>f. Some f \<in> set fs \<longrightarrow> noFixedLists f)" for fs
    by (auto simp: foldE_unit)
  then have "(foldE (\<lambda>_ ds. case ds of
                None \<Rightarrow> Inr ()
              | Some d \<Rightarrow> foldE (\<lambda>_ f. validateLegacyListShape f (nilGetName f)) () (ds_fields d))
              () (datasets b) = Inr ()) \<longleftrightarrow>
      (\<forall>d f. Some d \<in> set (datasets b) \<longrightarrow> Some f \<in> set (ds_fields d) \<longrightarrow> noFixedLists f)"
    by (auto simp: foldE_unit split: option.splits)
  then show ?thesis
    using assms rejectUnknown_known(1) [OF assms(3)]
    by (auto simp: MigrateSchemaBundle_def IRVersion_def andThen_eq_Inr knownAll_def)
qed

lemma reflectingCodec_holds:
  "holdsReflected (reflectBundle (reflectingCodec u) b) n \<longleftrightarrow>
     n = reflectBundle (reflectingCodec u) b \<or> (n = ReflectMessage u [] \<and> datasets b \<noteq> [])"
proof -
  have leaf: "holdsReflected (ReflectMessage u []) n \<longleftrightarrow> n = ReflectMessage u []" by (subst holdsReflected_iff) auto
  show ?thesis by (subst holdsReflected_iff) (auto simp: reflectingCodec_def leaf)
qed

lemma reflectingCodec_typed: "typedReflection (reflectBundle (reflectingCodec u) b)"
  unfolding typedReflection_def reflectingCodec_holds
  by (auto simp: reflectingCodec_def typedValue_def datasetsField_def)

theorem legacy_migration_iff_witness:
  "(\<exists>m. MigrateSchemaBundle exampleCodec (Some legacyBundle) = Inr m)
   \<and> \<not> (\<exists>m. MigrateSchemaBundle (reflectingCodec ''?'') (Some legacyBundle) = Inr m)"
proof
  have v: "ir_version legacyBundle = 3" "mapping_version legacyBundle = 2" by (simp_all add: legacyBundle_def)
  note iff = legacy_migration_iff [OF v reflectingCodec_typed, unfolded reflectingCodec_holds]
  show "\<exists>m. MigrateSchemaBundle exampleCodec (Some legacyBundle) = Inr m" using migrate_legacyBundle by blast
  show "\<not> (\<exists>m. MigrateSchemaBundle (reflectingCodec ''?'') (Some legacyBundle) = Inr m)"
    unfolding iff by (auto simp: legacyBundle_def)
qed

lemma shopLib_sound: "libSound (shopLib orderV1)" "libSound (shopLib orderV2)"
proof -
  have "md_full_name orderV1 = ''shop.Order''" "md_full_name orderV2 = ''shop.Order''" by code_simp+
  with shop_typed show "libSound (shopLib orderV1)" "libSound (shopLib orderV2)"
    by (auto simp: libSound_def foundByName_def shopLib_def split: if_splits)
qed

lemma compileDataset_shop:
  assumes "CompileMessage (shopEnv md) (Some md) (map_of prev ''shop.Order'') = Inr ds" "md_is_map_entry md = False"
    "newFiles (shopLib md) [] = Inr files"
  shows "compileDataset files prev ([], []) ''shop.Order'' = Inr ([(ds_name ds, ''shop.Order'')], [ds])"
  using assms by (auto simp: compileDataset_def shopLib_def)

lemma compile_bundleV1:
  "CompileDescriptorBytes (shopLib orderV1) exampleCodec ''v1'' [''.shop.Order''] None = Inr bundleV1"
proof -
  have names: "foldE selectName [] [''.shop.Order''] = Inr [''shop.Order'']" by code_simp
  have md: "md_is_map_entry orderV1 = False" by code_simp
  show ?thesis
    using names compileDataset_shop [of orderV1 "[]", OF _ md] compile_V1
    by (simp add: CompileDescriptorBytes_def shopLib_def validateAnnotationOptionNumbers_def
        indexPreviousBundle_def bundleV1_def IRVersion_def MappingVersion_def del: foldE.simps(2))
      (simp add: bundleV1_def)
qed

lemma compile_bundleV2:
  "CompileDescriptorBytes (shopLib orderV2) exampleCodec ''v2'' [''shop.Order''] (Some bundleV1) = Inr bundleV2"
proof -
  have names: "foldE selectName [] [''shop.Order''] = Inr [''shop.Order'']" by code_simp
  have md: "md_is_map_entry orderV2 = False" by code_simp
  have "md_full_name orderV1 = ''shop.Order''" by code_simp
  then have src: "source_message schemaV1 = ''shop.Order''" using CompileMessage_source [OF compile_V1] by simp
  have "foldE indexDataset [] [Some schemaV1] = Inr [(''shop.Order'', schemaV1)]"
    by (simp add: indexDataset_def src)
  then show ?thesis
    using names compileDataset_shop [of orderV2 "[(''shop.Order'', schemaV1)]", OF _ md] compile_V2 src
    by (simp add: CompileDescriptorBytes_def shopLib_def validateAnnotationOptionNumbers_def
        indexPreviousBundle_def MigrateSchemaBundle_def bundleV1_def indexDataset_def IRVersion_def MappingVersion_def del: foldE.simps(2))
      (simp add: bundleV2_def)
qed

lemma FindDataset_present:
  "n \<in> set (map source_message dss) \<Longrightarrow> datasets b = map Some dss \<Longrightarrow>
   \<exists>ds \<in> set dss. FindDataset (Some b) n = Some ds \<and> source_message ds = n"
proof -
  assume n: "n \<in> set (map source_message dss)" and b: "datasets b = map Some dss"
  from n have "\<exists>ds \<in> set dss. source_message ds = n \<and>
      find (\<lambda>ds. case ds of None \<Rightarrow> False | Some x \<Rightarrow> source_message x = n) (map Some dss) = Some (Some ds)"
    by (induction dss) auto
  then show ?thesis by (auto simp: FindDataset_def b)
qed

text \<open>(C10) A compiled bundle has the current versions, lists its datasets in the order of their
  message names with no message twice, and no two datasets share a storage name.\<close>

theorem compiled_bundle_canonical:
  assumes "CompileDescriptorBytes lib codec descriptor messageNames previous = Inr b"
    and "libSound lib" and "datasets b = map Some dss"
  shows "ValidateSchemaBundle (Some b) = Inr () \<and> sorted (map source_message dss)
    \<and> distinct (map source_message dss) \<and> distinct (map ds_name dss)"
  using assms(1)
proof (cases rule: CompileDescriptorBytes_cases)
  case (1 fds files names prev compiled owners)
  have dss: "dss = compiled" using assms(3) by (simp add: 1(8))
  from compileDatasets [OF 1(7)] have "list_all2 (compiledFrom files prev) (sort names) compiled"
    and "distinct (map ds_name compiled)" by auto
  moreover from this(1) have "map source_message compiled = sort names"
    using assms(2) 1(2) by (intro compiledFrom_sources) (auto simp: libSound_def)
  ultimately show ?thesis
    using 1(3) by (simp add: dss 1(8) ValidateSchemaBundle_def)
qed

theorem compiled_bundle_canonical_witness:
  "ValidateSchemaBundle (Some bundleV1) = Inr () \<and> distinct (map ds_name [schemaV1])"
  using compiled_bundle_canonical [OF compile_bundleV1 shopLib_sound(1), of "[schemaV1]"]
  by (simp add: bundleV1_def)

lemma migration_keeps:
  assumes "MigrateSchemaBundle codec (Some p) = Inr m" "Some d \<in> set (datasets p)"
    and "cloneKeeps codec" "mapping_version p = MappingVersion \<or> nilFree d"
  shows "Some d \<in> set (datasets m)"
  using assms by (auto simp: MigrateSchemaBundle_def cloneKeeps_def MappingVersion_def andThen_eq_Inr split: if_splits)

text \<open>(C9) Dataset roots are append-only: every dataset of the previous bundle has a successor for
  the same message in the compiled bundle, and the successor's ledger extends its own. Of a bundle of
  the legacy versions, which is cloned, this holds for the datasets without nil elements; a bundle
  read from bytes has no others.\<close>

theorem dataset_roots_append_only:
  assumes "CompileDescriptorBytes lib codec descriptor messageNames (Some p) = Inr b"
    and "libSound lib" and "Some d \<in> set (datasets p)"
    and "cloneKeeps codec" and "mapping_version p = MappingVersion \<or> nilFree d"
  shows "\<exists>ds. FindDataset (Some b) (source_message d) = Some ds
    \<and> source_message ds = source_message d \<and> schemaLedger d \<subseteq>\<^sub>m schemaLedger ds"
  using assms(1)
proof (cases rule: CompileDescriptorBytes_cases)
  case (1 fds files names prev compiled owners)
  have found: "foundByName files" using assms(2) 1(2) by (simp add: libSound_def)
  obtain m where m: "MigrateSchemaBundle codec (Some p) = Inr m" "datasets m = map (\<lambda>e. Some (snd e)) prev"
    "\<forall>e \<in> set prev. fst e = source_message (snd e)" "distinct (map fst prev)"
    using indexPreviousBundle_entries [OF 1(5)] by blast
  have "Some d \<in> set (datasets m)" by (rule migration_keeps [OF m(1) assms(3-5)])
  then have "Some d \<in> (\<lambda>e. Some (snd e)) ` set prev" using m(2) by (metis list.set_map)
  then obtain e where e: "e \<in> set prev" "snd e = d" by auto
  with m(3) have d: "(source_message d, d) \<in> set prev" by (metis prod.collapse)
  then have look: "map_of prev (source_message d) = Some d" using m(4) by simp
  from compileDatasets [OF 1(7)] have all: "list_all2 (compiledFrom files prev) (sort names) compiled" by auto
  have src: "map source_message compiled = sort names" using compiledFrom_sources [OF found all] .
  have "source_message d \<in> set (map source_message compiled)"
    using 1(6) d unfolding src by force
  from FindDataset_present [OF this, of b] obtain ds where "FindDataset (Some b) (source_message d) = Some ds"
    and "ds \<in> set compiled" and "source_message ds = source_message d" by (auto simp: 1(8))
  moreover from this(2) all obtain n where "compiledFrom files prev n ds"
    by (auto simp: list_all2_conv_all_nth in_set_conv_nth)
  moreover from this have "n = source_message d"
    using compiledFrom_source [OF found] \<open>source_message ds = source_message d\<close> by blast
  ultimately show ?thesis
    using look found evolution_step(1) unfolding compiledFrom_def foundByName_def by (metis (full_types))
qed

lemma nilFree_schemaV1: "nilFree schemaV1"
  by code_simp

theorem dataset_roots_append_only_witness:
  "\<exists>ds. FindDataset (Some bundleV2) (source_message schemaV1) = Some ds \<and> schemaLedger schemaV1 \<subseteq>\<^sub>m schemaLedger ds"
proof -
  have "Some schemaV1 \<in> set (datasets bundleV1)" "cloneKeeps exampleCodec"
    "mapping_version bundleV1 = MappingVersion \<or> nilFree schemaV1"
    by (simp_all add: nilFree_schemaV1 bundleV1_def cloneKeeps_def exampleCodec_def reflectingCodec_def MappingVersion_def)
  from dataset_roots_append_only [OF compile_bundleV2 shopLib_sound(2) this] show ?thesis by blast
qed

lemma visitExtension_iff:
  "visitExtension scope ext = Inr () \<longleftrightarrow> (\<forall>x. ext = Some x \<longrightarrow> ownOption scope x)"
  by (auto simp: visitExtension_def ownOption_def optionNumber_def Let_def split: option.splits)

lemma visitMessage_iff:
  "visitMessage scope m = Inr () \<longleftrightarrow>
     (\<forall>s x. (s, Some x) \<in> set (messageExtensions scope m) \<longrightarrow> ownOption s x)"
proof (induction scope m rule: messageExtensions.induct)
  case (2 scope name nested exts)
  define sc where "sc = TrimPrefix (scope @ ''.'' @ name) ''.''"
  have "visitMessage scope (Some (DescriptorProto name nested exts)) = Inr () \<longleftrightarrow>
      (\<forall>e \<in> set exts. visitExtension sc e = Inr ()) \<and> (\<forall>n \<in> set nested. visitMessage sc n = Inr ())"
    by (simp add: sc_def Let_def andThen_eq_Inr foldE_unit)
  also have "\<dots> \<longleftrightarrow> (\<forall>e \<in> set exts. \<forall>x. e = Some x \<longrightarrow> ownOption sc x) \<and>
      (\<forall>n \<in> set nested. \<forall>s x. (s, Some x) \<in> set (messageExtensions sc n) \<longrightarrow> ownOption s x)"
    using 2 [OF sc_def] by (simp add: visitExtension_iff)
  also have "\<dots> \<longleftrightarrow> (\<forall>s x. (s, Some x) \<in> set (messageExtensions scope (Some (DescriptorProto name nested exts)))
      \<longrightarrow> ownOption s x)"
    by (auto simp: Let_def sc_def)
  finally show ?case .
qed simp

text \<open>(C12) The guard on Invariant's option number accepts a descriptor set exactly when every
  extension declared in it, at any depth, that uses the number 51974 on message or field options
  is Invariant's own option with its own declaration.\<close>

theorem annotation_guard_iff:
  "validateAnnotationOptionNumbers files = Inr () \<longleftrightarrow>
     list_all (\<lambda>(scope, ext). case ext of None \<Rightarrow> True | Some x \<Rightarrow> ownOption scope x)
       (declaredExtensions files)"
proof -
  define ok where "ok = (\<lambda>(s, ext). \<forall>x. ext = Some x \<longrightarrow> ownOption s x)"
  have visit: "visitExtensions scope ms exts = Inr () \<longleftrightarrow>
      list_all ok (map (Pair scope) exts @ concat (map (messageExtensions scope) ms))" for scope ms exts
    by (auto simp: visitExtensions_def andThen_eq_Inr foldE_unit visitExtension_iff visitMessage_iff
        list_all_iff ok_def)
  have "validateAnnotationOptionNumbers files = Inr () \<longleftrightarrow> list_all ok (declaredExtensions files)"
  proof (induction files)
    case (Cons f files)
    then show ?case
      by (cases f) (simp_all add: validateAnnotationOptionNumbers_def declaredExtensions_def
          andThen_eq_Inr visit)
  qed (simp add: validateAnnotationOptionNumbers_def declaredExtensions_def)
  moreover have "ok = (\<lambda>(scope, ext). case ext of None \<Rightarrow> True | Some x \<Rightarrow> ownOption scope x)"
    by (auto simp: ok_def fun_eq_iff split: option.splits)
  ultimately show ?thesis by simp
qed

end
