(* ===== verification/Iceberg.thy ===== *)
theory Iceberg
  imports Dialects
begin

text \<open>
  The Apache Iceberg dialect (\<^verbatim>\<open>go/data/iceberg/schema.go\<close>). The types of the library
  \<^verbatim>\<open>iceberg-go\<close> that the code builds are datatypes with the constructors it calls; the library's
  JSON encoder is a parameter. On an error the code also returns the diagnostics collected so
  far; \<open>IcebergSchema\<close> returns them with the error, while \<open>iceberg_mapField\<close> leaves them out because
  its caller drops them.
\<close>

section \<open>Iceberg schemas\<close>

text \<open>The default values the code hands to the library: \<^verbatim>\<open>nil\<close>, \<^verbatim>\<open>float64\<close>, \<^verbatim>\<open>string\<close>, \<^verbatim>\<open>bool\<close>, the
  empty list and the object of empty key and value lists. The numbers are integers.\<close>

datatype iceberg_default =
    DefaultNil
  | DefaultNumber int
  | DefaultString string
  | DefaultBool bool
  | DefaultEmptyList
  | DefaultEmptyMap

datatype iceberg_type =
    IcebergBool | IcebergInt32 | IcebergInt64 | IcebergFloat32 | IcebergFloat64
  | IcebergString | IcebergBinary | IcebergTimestampTzNs | IcebergUUID
  | IcebergDecimal nat nat
  | IcebergFixed nat
  | IcebergStruct "iceberg_field list"
  | IcebergList int iceberg_type bool
  | IcebergMap int iceberg_type int iceberg_type bool
  and iceberg_field =
    NestedField (ib_ID: int) (ib_Name: string) (ib_Required: bool) (ib_Doc: string)
      (ib_Type: iceberg_type) (ib_InitialDefault: iceberg_default) (ib_WriteDefault: iceberg_default)

record iceberg_schema =
  iceberg_schema_id :: int
  iceberg_fields :: "iceberg_field list"

datatype iceberg_error =
    IcebergNilDataset
  | IcebergNilField string
  | IcebergInvalidID string int
  | IcebergSharedID int string string
  | IcebergNilRetired
  | IcebergNoType string
  | IcebergImplicitNullable string
  | IcebergImplicitPrimitive string primitive_kind
  | IcebergImplicitEmptyEnum string
  | IcebergImplicitRefined string
  | IcebergImplicitNotScalar string
  | IcebergRepeatedShape string
  | IcebergMapShape string
  | IcebergRequiredNoDefault string
  | IcebergMustBeNullable string
  | IcebergNoPresence string
  | IcebergUnspecifiedPresence string
  | IcebergPrimitive string primitive_kind
  | IcebergTimestamp string
  | IcebergDuration string
  | IcebergParameter string parameter_error
  | IcebergInvalidUuid string
  | IcebergUnspecifiedType string
  | IcebergNilSchema
  | IcebergEncode string

section \<open>Field IDs\<close>

text \<open>Iceberg reserves the highest 200 signed 32-bit IDs.\<close>

definition maxFieldID :: int where
  "maxFieldID = 2147483647 - 200"

definition claimFieldID :: "(int \<times> string) list \<Rightarrow> int \<Rightarrow> string \<Rightarrow> iceberg_error + (int \<times> string) list" where
  "claimFieldID seen i path =
     (if i \<le> 0 \<or> i > maxFieldID then Inl (IcebergInvalidID path i)
      else case map_of seen i of
             Some previous \<Rightarrow> Inl (IcebergSharedID i previous path)
           | None \<Rightarrow> Inr (AList.update i path seen))"

text \<open>The closure \<^verbatim>\<open>visit\<close> of \<^verbatim>\<open>validateFieldIDs\<close>, with the map \<^verbatim>\<open>seen\<close> as its state.\<close>

function visitFieldIDs :: "(int \<times> string) list \<Rightarrow> field option \<Rightarrow> string
    \<Rightarrow> iceberg_error + (int \<times> string) list" where
  "visitFieldIDs seen None path = Inl (IcebergNilField path)"
| "visitFieldIDs seen (Some f) path =
     andThen (claimFieldID seen (GetStableId f) path) (\<lambda>claimed.
     case GetType f of
       None \<Rightarrow> Inl (IcebergNoType path)
     | Some t \<Rightarrow> foldE (\<lambda>s (c, p). visitFieldIDs s c p) claimed (childPaths path (GetKind t)))"
  by pat_completeness auto
termination
  by (relation "measure (\<lambda>(_, f, _). size_option size f)") (auto simp: size_childPaths_option)

definition validateFieldIDs :: "dataset_schema \<Rightarrow> iceberg_error + unit" where
  "validateFieldIDs dataset =
     andThen (foldE (\<lambda>seen f. visitFieldIDs seen f (nilGetName f)) [] (ds_fields dataset)) (\<lambda>seen.
     andThen (foldE (\<lambda>seen r. case r of
                None \<Rightarrow> Inl IcebergNilRetired
              | Some r \<Rightarrow> claimFieldID seen (rf_stable_id r) (''retired '' @ rf_identity r))
              seen (retired_fields dataset)) (\<lambda>_.
     Inr ()))"

section \<open>Types\<close>

definition iceberg_mapPrimitive ::
    "primitive_kind \<Rightarrow> (iceberg_type \<times> mapping_compatibility \<times> string) option" where
  "iceberg_mapPrimitive kind = (case kind of
       PRIMITIVE_KIND_DOUBLE \<Rightarrow>
         Some (IcebergFloat64, MAPPING_COMPATIBILITY_LOSSLESS, ''protobuf double maps losslessly to Iceberg double'')
     | PRIMITIVE_KIND_FLOAT \<Rightarrow>
         Some (IcebergFloat32, MAPPING_COMPATIBILITY_LOSSLESS, ''protobuf float maps losslessly to Iceberg float'')
     | PRIMITIVE_KIND_INT64 \<Rightarrow>
         Some (IcebergInt64, MAPPING_COMPATIBILITY_LOSSLESS, ''protobuf signed 64-bit integer maps losslessly to Iceberg long'')
     | PRIMITIVE_KIND_SFIXED64 \<Rightarrow>
         Some (IcebergInt64, MAPPING_COMPATIBILITY_LOSSLESS, ''protobuf signed 64-bit integer maps losslessly to Iceberg long'')
     | PRIMITIVE_KIND_SINT64 \<Rightarrow>
         Some (IcebergInt64, MAPPING_COMPATIBILITY_LOSSLESS, ''protobuf signed 64-bit integer maps losslessly to Iceberg long'')
     | PRIMITIVE_KIND_UINT64 \<Rightarrow>
         Some (IcebergDecimal 20 0, MAPPING_COMPATIBILITY_RANGE_WIDENED,
           ''protobuf unsigned 64-bit integer maps to Iceberg decimal(20, 0), which contains its full domain'')
     | PRIMITIVE_KIND_FIXED64 \<Rightarrow>
         Some (IcebergDecimal 20 0, MAPPING_COMPATIBILITY_RANGE_WIDENED,
           ''protobuf unsigned 64-bit integer maps to Iceberg decimal(20, 0), which contains its full domain'')
     | PRIMITIVE_KIND_INT32 \<Rightarrow>
         Some (IcebergInt32, MAPPING_COMPATIBILITY_LOSSLESS, ''protobuf signed 32-bit integer maps losslessly to Iceberg int'')
     | PRIMITIVE_KIND_SFIXED32 \<Rightarrow>
         Some (IcebergInt32, MAPPING_COMPATIBILITY_LOSSLESS, ''protobuf signed 32-bit integer maps losslessly to Iceberg int'')
     | PRIMITIVE_KIND_SINT32 \<Rightarrow>
         Some (IcebergInt32, MAPPING_COMPATIBILITY_LOSSLESS, ''protobuf signed 32-bit integer maps losslessly to Iceberg int'')
     | PRIMITIVE_KIND_FIXED32 \<Rightarrow>
         Some (IcebergInt64, MAPPING_COMPATIBILITY_RANGE_WIDENED, ''protobuf unsigned 32-bit integer widens to Iceberg long'')
     | PRIMITIVE_KIND_UINT32 \<Rightarrow>
         Some (IcebergInt64, MAPPING_COMPATIBILITY_RANGE_WIDENED, ''protobuf unsigned 32-bit integer widens to Iceberg long'')
     | PRIMITIVE_KIND_BOOL \<Rightarrow>
         Some (IcebergBool, MAPPING_COMPATIBILITY_LOSSLESS, ''protobuf bool maps losslessly to Iceberg boolean'')
     | PRIMITIVE_KIND_STRING \<Rightarrow>
         Some (IcebergString, MAPPING_COMPATIBILITY_LOSSLESS, ''protobuf string maps losslessly to Iceberg string'')
     | PRIMITIVE_KIND_BYTES \<Rightarrow>
         Some (IcebergBinary, MAPPING_COMPATIBILITY_LOSSLESS, ''protobuf bytes maps losslessly to Iceberg binary'')
     | _ \<Rightarrow> None)"

type_synonym iceberg_mapped = "iceberg_type \<times> mapping_diagnostic list \<times> mapping_compatibility \<times> string"

text \<open>\<^verbatim>\<open>mapType\<close>; the call of \<^verbatim>\<open>mapField\<close> on the children is the first argument.\<close>

definition iceberg_mapType ::
    "(field option \<Rightarrow> string \<Rightarrow> iceberg_error + iceberg_field \<times> mapping_diagnostic list)
     \<Rightarrow> data_type \<Rightarrow> string \<Rightarrow> iceberg_error + iceberg_mapped" where
  "iceberg_mapType mapField dataType path =
     (case GetKind dataType of
        DataType_Primitive p \<Rightarrow>
          (case iceberg_mapPrimitive (PrimitiveGetKind p) of
             None \<Rightarrow> Inl (IcebergPrimitive path (PrimitiveGetKind p))
           | Some (mapped, level, message) \<Rightarrow> Inr (mapped, [], level, message))
      | DataType_Enum e \<Rightarrow>
          if EnumGetClosed e
          then Inr (IcebergInt32, [], MAPPING_COMPATIBILITY_RANGE_WIDENED,
            ''closed protobuf enum numbers map to unconstrained Iceberg int; the column admits undeclared values'')
          else Inr (IcebergInt32, [], MAPPING_COMPATIBILITY_LOSSLESS,
            ''open protobuf enum numbers map losslessly to Iceberg int'')
      | DataType_Struct s \<Rightarrow>
          andThen (mapMembers (\<lambda>child. mapField child (joinPath path (nilGetName child)))
            (StructGetFields s)) (\<lambda>(fields, diagnostics).
          Inr (IcebergStruct fields, diagnostics, MAPPING_COMPATIBILITY_LOSSLESS,
            ''protobuf message maps to an Iceberg struct''))
      | DataType_List l \<Rightarrow>
          andThen (mapField (ListGetElement l) (path @ ''[]'')) (\<lambda>(mapped, diagnostics).
          Inr (IcebergList (ib_ID mapped) (ib_Type mapped) (ib_Required mapped), diagnostics,
            if ListGetFixedLength l \<noteq> 0 then MAPPING_COMPATIBILITY_RANGE_WIDENED else MAPPING_COMPATIBILITY_LOSSLESS,
            if ListGetFixedLength l \<noteq> 0
            then ''Iceberg has no fixed-cardinality list: length '' @ FormatUint (ListGetFixedLength l)
              @ '' widens to an optional unconstrained list with no default; publishers must validate every value against SchemaBundle''
            else ''protobuf repeated field maps to an Iceberg list with a distinct element ID''))
      | DataType_Map m \<Rightarrow>
          andThen (mapField (MapGetKey m) (path @ ''.key'')) (\<lambda>(key, keyDiagnostics).
          andThen (mapField (MapGetValue m) (path @ ''.value'')) (\<lambda>(val, valueDiagnostics).
          Inr (IcebergMap (ib_ID key) (ib_Type key) (ib_ID val) (ib_Type val) (ib_Required val),
            keyDiagnostics @ valueDiagnostics, MAPPING_COMPATIBILITY_LOSSLESS,
            ''protobuf map maps to an Iceberg map with distinct key and value IDs'')))
      | DataType_Timestamp ts \<Rightarrow>
          if TimestampGetUnit ts \<noteq> TIME_UNIT_NANOSECOND \<or> TimestampGetTimezone ts \<noteq> ''UTC''
          then Inl (IcebergTimestamp path)
          else Inr (IcebergTimestampTzNs, [], MAPPING_COMPATIBILITY_RANGE_REDUCED,
            ''Iceberg timestamptz_ns preserves UTC nanoseconds but its int64 range is narrower than protobuf Timestamp; it requires Iceberg format v3'')
      | DataType_Duration d \<Rightarrow>
          if DurationGetUnit d \<noteq> TIME_UNIT_NANOSECOND then Inl (IcebergDuration path)
          else Inr (IcebergInt64, [], MAPPING_COMPATIBILITY_RANGE_REDUCED,
            ''Iceberg has no duration type; exact nanoseconds use long, whose int64 range is narrower than protobuf Duration'')
      | DataType_Json j \<Rightarrow>
          Inr (IcebergString, [], MAPPING_COMPATIBILITY_RANGE_REDUCED,
            ''protobuf '' @ jsonKindString (JsonGetKind j)
              @ '' is encoded as RFC 8259 JSON text in an Iceberg string; '' @ jsonRangeReduction (JsonGetKind j))
      | DataType_Decimal d \<Rightarrow>
          andThen (mapErr (IcebergParameter path) (decimalParameters d)) (\<lambda>(precision, scale).
          Inr (IcebergDecimal precision scale, [], MAPPING_COMPATIBILITY_REPRESENTATION_CHANGED,
            ''canonical decimal text is decoded into Iceberg decimal('' @ FormatUint precision @ '', '' @ FormatUint scale
              @ ''); precision and scale are preserved but the physical representation changes''))
      | DataType_Uuid u \<Rightarrow>
          if u = None then Inl (IcebergInvalidUuid path)
          else Inr (IcebergUUID, [], MAPPING_COMPATIBILITY_REPRESENTATION_CHANGED,
            ''canonical UUID text is decoded into Iceberg uuid'')
      | DataType_FixedBytes b \<Rightarrow>
          andThen (mapErr (IcebergParameter path) (fixedByteWidth maxInt32 b)) (\<lambda>width.
          Inr (IcebergFixed width, [], MAPPING_COMPATIBILITY_LOSSLESS,
            ''exact-width protobuf bytes map losslessly to Iceberg fixed['' @ FormatUint width @ '']''))
      | Kind_nil \<Rightarrow> Inl (IcebergUnspecifiedType path))"

lemma iceberg_mapType_cong [fundef_cong]:
  assumes "t = t'" "path = path'"
    and "\<And>c p. (c, p) \<in> set (childPaths path' (GetKind t')) \<Longrightarrow> mapField c p = mapField' c p"
  shows "iceberg_mapType mapField t path = iceberg_mapType mapField' t' path'"
proof (cases "GetKind t'")
  case (DataType_Struct s)
  then have "mapField c (joinPath path' (nilGetName c)) = mapField' c (joinPath path' (nilGetName c))"
    if "c \<in> set (StructGetFields s)" for c using that by (intro assms(3)) auto
  then show ?thesis
    using assms(1,2) DataType_Struct by (simp add: iceberg_mapType_def cong: mapMembers_cong)
qed (use assms in \<open>simp_all add: iceberg_mapType_def\<close>)

section \<open>Fields\<close>

definition iceberg_implicitDefault :: "data_type \<Rightarrow> string \<Rightarrow> iceberg_error + iceberg_default" where
  "iceberg_implicitDefault dataType path =
     (case GetKind dataType of
        DataType_Primitive p \<Rightarrow>
          let k = PrimitiveGetKind p in
          if k \<in> {PRIMITIVE_KIND_DOUBLE, PRIMITIVE_KIND_FLOAT, PRIMITIVE_KIND_INT64, PRIMITIVE_KIND_INT32,
              PRIMITIVE_KIND_FIXED32, PRIMITIVE_KIND_UINT32, PRIMITIVE_KIND_SFIXED32,
              PRIMITIVE_KIND_SFIXED64, PRIMITIVE_KIND_SINT32, PRIMITIVE_KIND_SINT64}
          then Inr (DefaultNumber 0)
          else if k \<in> {PRIMITIVE_KIND_UINT64, PRIMITIVE_KIND_FIXED64} then Inr (DefaultString ''0'')
          else if k = PRIMITIVE_KIND_BOOL then Inr (DefaultBool False)
          else if k \<in> {PRIMITIVE_KIND_STRING, PRIMITIVE_KIND_BYTES} then Inr (DefaultString [])
          else Inl (IcebergImplicitPrimitive path k)
      | DataType_Enum e \<Rightarrow>
          (case EnumGetValues e of
             [] \<Rightarrow> Inl (IcebergImplicitEmptyEnum path)
           | v # _ \<Rightarrow> Inr (DefaultNumber (case v of None \<Rightarrow> 0 | Some x \<Rightarrow> ev_number x)))
      | DataType_Decimal _ \<Rightarrow> Inl (IcebergImplicitRefined path)
      | DataType_Uuid _ \<Rightarrow> Inl (IcebergImplicitRefined path)
      | DataType_FixedBytes _ \<Rightarrow> Inl (IcebergImplicitRefined path)
      | _ \<Rightarrow> Inl (IcebergImplicitNotScalar path))"

text \<open>\<^verbatim>\<open>fieldDefaults\<close>, called on a field that has a type.\<close>

definition iceberg_fieldDefaults ::
    "field \<Rightarrow> data_type \<Rightarrow> string \<Rightarrow> iceberg_error + iceberg_default \<times> iceberg_default" where
  "iceberg_fieldDefaults f t path =
     (case GetPresence f of
        PRESENCE_IMPLICIT \<Rightarrow>
          if GetNullable f then Inl (IcebergImplicitNullable path)
          else andThen (iceberg_implicitDefault t path) (\<lambda>v. Inr (v, v))
      | PRESENCE_REPEATED \<Rightarrow>
          if GetNullable f \<or> GetList (Some t) = None then Inl (IcebergRepeatedShape path)
          else if ListGetFixedLength (GetList (Some t)) \<noteq> 0 then Inr (DefaultNil, DefaultNil)
          else Inr (DefaultEmptyList, DefaultEmptyList)
      | PRESENCE_MAP \<Rightarrow>
          if GetNullable f \<or> GetMap (Some t) = None then Inl (IcebergMapShape path)
          else Inr (DefaultEmptyMap, DefaultEmptyMap)
      | PRESENCE_REQUIRED \<Rightarrow> Inl (IcebergRequiredNoDefault path)
      | PRESENCE_EXPLICIT \<Rightarrow>
          if \<not> GetNullable f then Inl (IcebergMustBeNullable path) else Inr (DefaultNil, DefaultNil)
      | PRESENCE_ONEOF \<Rightarrow>
          if \<not> GetNullable f then Inl (IcebergMustBeNullable path) else Inr (DefaultNil, DefaultNil)
      | PRESENCE_NOT_APPLICABLE \<Rightarrow>
          if GetSyntheticRole f = SYNTHETIC_ROLE_PROTO_FIELD then Inl (IcebergNoPresence path)
          else Inr (DefaultNil, DefaultNil)
      | _ \<Rightarrow> Inl (IcebergUnspecifiedPresence path))"

definition iceberg_diagnostic ::
    "field \<Rightarrow> string \<Rightarrow> mapping_compatibility \<Rightarrow> string \<Rightarrow> mapping_diagnostic" where
  "iceberg_diagnostic f path level message =
     (if GetOneof f \<noteq> []
      then \<lparr>field_path = path,
            compatibility = (if level = MAPPING_COMPATIBILITY_LOSSLESS
                             then MAPPING_COMPATIBILITY_RANGE_WIDENED else level),
            diag_message = message @ ''; Iceberg does not enforce mutual exclusivity for oneof '' @ Quote (GetOneof f)\<rparr>
      else \<lparr>field_path = path, compatibility = level, diag_message = message\<rparr>)"

definition iceberg_required :: "field \<Rightarrow> data_type \<Rightarrow> bool" where
  "iceberg_required f t =
     (if GetList (Some t) \<noteq> None \<and> ListGetFixedLength (GetList (Some t)) \<noteq> 0 then False
      else \<not> GetNullable f)"

function iceberg_mapField ::
    "field option \<Rightarrow> string \<Rightarrow> iceberg_error + iceberg_field \<times> mapping_diagnostic list" where
  "iceberg_mapField None path = Inl (IcebergNoType path)"
| "iceberg_mapField (Some f) path =
     (case GetType f of
        None \<Rightarrow> Inl (IcebergNoType path)
      | Some t \<Rightarrow>
          andThen (iceberg_mapType iceberg_mapField t path) (\<lambda>(mappedType, children, level, message).
          andThen (iceberg_fieldDefaults f t path) (\<lambda>(initialDefault, writeDefault).
          Inr (NestedField (GetStableId f) (GetName f) (iceberg_required f t) (GetDescription f)
                 mappedType initialDefault writeDefault,
               iceberg_diagnostic f path level message # children))))"
  by pat_completeness auto
termination
  by (relation "measure (\<lambda>(f, _). size_option size f)") (auto simp: size_childPaths_option)

section \<open>Schemas\<close>

definition IcebergSchema ::
    "dataset_schema option
     \<Rightarrow> (iceberg_error \<times> mapping_diagnostic list) + iceberg_schema \<times> mapping_diagnostic list" where
  "IcebergSchema dataset =
     (case dataset of
        None \<Rightarrow> Inl (IcebergNilDataset, [])
      | Some ds \<Rightarrow>
          andThen (mapErr (\<lambda>e. (e, [])) (validateFieldIDs ds)) (\<lambda>_.
          andThen (mapFields iceberg_mapField (ds_fields ds)) (\<lambda>(fields, diagnostics).
          Inr (\<lparr>iceberg_schema_id = 0, iceberg_fields = fields\<rparr>, diagnostics))))"

definition IcebergJSON :: "(iceberg_schema \<Rightarrow> string + string) \<Rightarrow> iceberg_schema option \<Rightarrow> iceberg_error + string" where
  "IcebergJSON marshal schema =
     (case schema of None \<Rightarrow> Inl IcebergNilSchema | Some s \<Rightarrow> mapErr IcebergEncode (marshal s))"

section \<open>The mapping keeps stable IDs and reports every field\<close>

text \<open>The field IDs in an Iceberg schema, parents before children.\<close>

fun icebergTypeIDs :: "iceberg_type \<Rightarrow> int list" and icebergFieldIDs :: "iceberg_field \<Rightarrow> int list" where
  "icebergTypeIDs (IcebergStruct fs) = concat (map icebergFieldIDs fs)"
| "icebergTypeIDs (IcebergList i t _) = i # icebergTypeIDs t"
| "icebergTypeIDs (IcebergMap i k j v _) = (i # icebergTypeIDs k) @ (j # icebergTypeIDs v)"
| "icebergTypeIDs _ = []"
| "icebergFieldIDs (NestedField i _ _ _ t _ _) = i # icebergTypeIDs t"

lemma icebergFieldIDs_eq: "icebergFieldIDs g = ib_ID g # icebergTypeIDs (ib_Type g)"
  by (cases g) simp

lemma iceberg_mapField_cases:
  assumes "iceberg_mapField f path = Inr (y, ds)"
  obtains g t mt children level message a b where "f = Some g" "GetType g = Some t"
    "iceberg_mapType iceberg_mapField t path = Inr (mt, children, level, message)"
    "iceberg_fieldDefaults g t path = Inr (a, b)"
    "y = NestedField (GetStableId g) (GetName g) (iceberg_required g t) (GetDescription g) mt a b"
    "ds = iceberg_diagnostic g path level message # children"
  using assms by (cases f) (auto simp: andThen_eq_Inr split: option.splits prod.splits)

lemma iceberg_mapPrimitive_ids: "iceberg_mapPrimitive k = Some (mt, level, message) \<Longrightarrow> icebergTypeIDs mt = []"
  by (cases k) (auto simp: iceberg_mapPrimitive_def)

lemma iceberg_mapType_children:
  assumes "iceberg_mapType mapField t path = Inr (mt, children, level, message)"
  shows "\<exists>rs. map (\<lambda>(c, p). mapField c p) (childPaths path (GetKind t)) = map Inr rs
    \<and> children = concat (map snd rs)
    \<and> icebergTypeIDs mt = concat (map (\<lambda>r. icebergFieldIDs (fst r)) rs)"
proof (cases "GetKind t")
  case (DataType_Struct s)
  with assms obtain fs where m: "mapMembers (\<lambda>c. mapField c (joinPath path (nilGetName c))) (StructGetFields s) = Inr (fs, children)"
    and mt: "mt = IcebergStruct fs" by (auto simp: iceberg_mapType_def andThen_eq_Inr)
  from m obtain rs where "map (\<lambda>c. mapField c (joinPath path (nilGetName c))) (StructGetFields s) = map Inr rs"
    "fs = map fst rs" "children = concat (map snd rs)" unfolding mapMembers_eq by blast
  then show ?thesis using DataType_Struct mt by (intro exI [of _ rs]) (simp add: comp_def)
next
  case (DataType_List l)
  with assms obtain y where "mapField (ListGetElement l) (path @ ''[]'') = Inr (y, children)"
    "mt = IcebergList (ib_ID y) (ib_Type y) (ib_Required y)"
    by (auto simp: iceberg_mapType_def andThen_eq_Inr)
  then show ?thesis using DataType_List by (intro exI [of _ "[(y, children)]"]) (simp add: icebergFieldIDs_eq)
next
  case (DataType_Map m)
  with assms obtain k kd v vd where "mapField (MapGetKey m) (path @ ''.key'') = Inr (k, kd)"
    "mapField (MapGetValue m) (path @ ''.value'') = Inr (v, vd)" "children = kd @ vd"
    "mt = IcebergMap (ib_ID k) (ib_Type k) (ib_ID v) (ib_Type v) (ib_Required v)"
    by (auto simp: iceberg_mapType_def andThen_eq_Inr)
  then show ?thesis
    using DataType_Map by (intro exI [of _ "[(k, kd), (v, vd)]"]) (simp add: icebergFieldIDs_eq)
qed (use assms in \<open>auto simp: iceberg_mapType_def andThen_eq_Inr childPaths_def split: option.splits if_splits
      dest: iceberg_mapPrimitive_ids\<close>)

lemma field_path_iceberg_diagnostic [simp]: "field_path (iceberg_diagnostic f path level message) = path"
  by (simp add: iceberg_diagnostic_def)

interpretation iceberg: field_id_mapping iceberg_mapField icebergFieldIDs "\<lambda>i. i"
proof
  fix f path y ds
  assume "iceberg_mapField f path = Inr (y, ds)"
  then show "\<exists>g t d rs. f = Some g \<and> GetType g = Some t \<and> field_path d = path
      \<and> map (\<lambda>(c, p). iceberg_mapField c p) (childPaths path (GetKind t)) = map Inr rs
      \<and> ds = d # concat (map snd rs)"
    by (rule iceberg_mapField_cases) (metis iceberg_mapType_children field_path_iceberg_diagnostic)
next
  fix g path y ds t rs
  assume "iceberg_mapField (Some g) path = Inr (y, ds)" and t: "GetType g = Some t"
    and rs: "map (\<lambda>(c, p). iceberg_mapField c p) (childPaths path (GetKind t)) = map Inr rs"
  then obtain mt children level message where
    "iceberg_mapType iceberg_mapField t path = Inr (mt, children, level, message)"
    and y: "ib_ID y = GetStableId g" "ib_Type y = mt" by (auto simp: andThen_eq_Inr)
  from iceberg_mapType_children [OF this(1)] rs have "icebergTypeIDs mt = concat (map (\<lambda>r. icebergFieldIDs (fst r)) rs)"
    by (auto dest: map_Inr_inject)
  then show "icebergFieldIDs y = GetStableId g # concat (map (\<lambda>r. icebergFieldIDs (fst r)) rs)"
    by (simp add: icebergFieldIDs_eq y)
qed

end
