(* ===== verification/Iceberg_Properties.thy ===== *)
theory Iceberg_Properties
  imports Iceberg Compiler_Shape Examples
begin

text \<open>
  What the Iceberg dialect guarantees: which datasets its ID check accepts, that a compiled schema
  fits unless it has required fields, that the stable IDs are the Iceberg IDs, that every logical
  field is reported, and that every added member is readable in old rows.
\<close>

definition validIDs :: "(int \<times> string) list \<Rightarrow> int list \<Rightarrow> bool" where
  "validIDs seen is \<longleftrightarrow> (\<forall>i \<in> set is. 1 \<le> i \<and> i \<le> maxFieldID) \<and> distinct is \<and> set is \<inter> fst ` set seen = {}"

text \<open>A visit claims a list of IDs: it succeeds exactly if the visited part is well formed and the IDs
  are valid and new, and then exactly these IDs are taken.\<close>

definition claims :: "(int \<times> string) list \<Rightarrow> 'e + (int \<times> string) list \<Rightarrow> bool \<Rightarrow> int list \<Rightarrow> bool" where
  "claims seen r good is = (case r of
       Inr seen' \<Rightarrow> good \<and> validIDs seen is \<and> map fst seen' = map fst seen @ is
     | Inl _ \<Rightarrow> \<not> (good \<and> validIDs seen is))"

text \<open>All IDs of a dataset: those of its fields, then those of its tombstones.\<close>

definition datasetIDs :: "dataset_schema \<Rightarrow> int list" where
  "datasetIDs ds = fieldsIDs (ds_fields ds) @ map rf_stable_id (List.map_filter (\<lambda>r. r) (retired_fields ds))"

text \<open>What Iceberg asks of a field beyond the compiled shape: no required field, and a zero value for a
  field of implicit presence.\<close>

definition icebergFits :: "field \<Rightarrow> bool" where
  "icebergFits f \<longleftrightarrow> GetPresence f \<noteq> PRESENCE_REQUIRED \<and>
     (GetPresence f = PRESENCE_IMPLICIT \<longrightarrow>
        GetPrimitive (GetType f) \<noteq> None \<or> GetEnum (GetType f) \<noteq> None \<and> EnumGetValues (GetEnum (GetType f)) \<noteq> [])"

text \<open>The fields an Iceberg schema declares with a default: members of structs, at any depth.\<close>

fun icebergTypeMembers :: "iceberg_type \<Rightarrow> iceberg_field list" and icebergMembers :: "iceberg_field \<Rightarrow> iceberg_field list" where
  "icebergTypeMembers (IcebergStruct fs) = concat (map icebergMembers fs)"
| "icebergTypeMembers (IcebergList _ t _) = icebergTypeMembers t"
| "icebergTypeMembers (IcebergMap _ k _ v _) = icebergTypeMembers k @ icebergTypeMembers v"
| "icebergTypeMembers _ = []"
| "icebergMembers (NestedField i n r d t a b) = NestedField i n r d t a b # icebergTypeMembers t"

definition safeDefault :: "iceberg_field \<Rightarrow> bool" where
  "safeDefault g \<longleftrightarrow> ib_WriteDefault g = ib_InitialDefault g \<and> (ib_Required g \<longleftrightarrow> ib_InitialDefault g \<noteq> DefaultNil)"

text \<open>The Iceberg schema of the first version of the order.\<close>

definition icebergV1 :: "iceberg_schema \<times> mapping_diagnostic list" where
  "icebergV1 = projr (IcebergSchema (Some schemaV1))"

lemma claimFieldID_claims: "claims seen (claimFieldID seen i p) True [i]"
  by (auto simp: claims_def claimFieldID_def validIDs_def update_new_map_of map_of_eq_None_iff
      split: option.splits dest: map_of_SomeD intro: rev_image_eqI)

lemma validIDs_append:
  "map fst seen' = map fst seen @ is \<Longrightarrow> validIDs seen (is @ js) \<longleftrightarrow> validIDs seen is \<and> validIDs seen' js"
proof -
  assume "map fst seen' = map fst seen @ is"
  then have "fst ` set seen' = fst ` set seen \<union> set is" by (metis list.set_map set_append)
  then show ?thesis by (auto simp: validIDs_def)
qed

lemma claims_andThen:
  assumes "claims seen r good is" and "\<And>seen'. r = Inr seen' \<Longrightarrow> claims seen' (k seen') good' js"
  shows "claims seen (andThen r k) (good \<and> good') (is @ js)"
proof (cases r)
  case (Inl e)
  with assms(1) show ?thesis by (auto simp: claims_def validIDs_def)
next
  case (Inr seen')
  with assms(1) have step: "good" "validIDs seen is" "map fst seen' = map fst seen @ is" by (auto simp: claims_def)
  from assms(2) [OF Inr] show ?thesis
    using step validIDs_append [OF step(3)] by (auto simp: Inr claims_def split: sum.splits)
qed

lemma claims_foldE:
  assumes "\<And>x seen. x \<in> set xs \<Longrightarrow> claims seen (f seen x) (good x) (ids x)"
  shows "claims seen (foldE f seen xs) (list_all good xs) (concat (map ids xs))"
  using assms
proof (induction xs arbitrary: seen)
  case Nil
  then show ?case by (simp add: claims_def validIDs_def)
next
  case (Cons x xs)
  have "claims seen (andThen (f seen x) (\<lambda>s. foldE f s xs)) (good x \<and> list_all good xs) (ids x @ concat (map ids xs))"
    by (rule claims_andThen) (use Cons in auto)
  then show ?case by simp
qed

lemma visit_claims:
  "claims seen (visitFieldIDs seen f path) (fullyTyped f) (case f of None \<Rightarrow> [] | Some g \<Rightarrow> fieldIDs g)"
proof (cases f)
  case None
  then show ?thesis by (simp add: claims_def)
next
  case (Some g)
  have "claims seen (visitFieldIDs seen (Some g) path) (fullyTyped (Some g)) (fieldIDs g)"
  proof (induction g arbitrary: seen path rule: field_tree_induct)
    case (Field d t)
    show ?case
    proof (cases t)
      case None
      have "claims seen (andThen (claimFieldID seen (stable_id d) path) (\<lambda>_. Inl (IcebergNoType path))) (True \<and> False) ([stable_id d] @ [])"
        by (rule claims_andThen [OF claimFieldID_claims]) (simp add: claims_def)
      then show ?thesis by (simp add: None fieldIDs_eq typeChildren_def)
    next
      case (Some dt)
      let ?ids = "\<lambda>c. case c of None \<Rightarrow> [] | Some g \<Rightarrow> fieldIDs g"
      let ?cs = "childPaths path (GetKind dt)"
      have kids: "claims s (visitFieldIDs s c p) (fullyTyped c) (?ids c)" if "(c, p) \<in> set ?cs" for s c p
      proof (cases c)
        case (Some g)
        have "Some g \<in> set (typeChildren t)"
          using childPaths_kindChildren [OF that] Some \<open>t = Some dt\<close> by (cases dt) (simp add: typeChildren_def)
        from Field.IH [OF this] Some show ?thesis by simp
      qed (simp add: claims_def)
      have "claims seen (andThen (claimFieldID seen (stable_id d) path) (\<lambda>s. foldE (\<lambda>s (c, p). visitFieldIDs s c p) s ?cs))
          (True \<and> list_all (\<lambda>x. fullyTyped (fst x)) ?cs) ([stable_id d] @ concat (map (\<lambda>x. ?ids (fst x)) ?cs))"
        by (rule claims_andThen [OF claimFieldID_claims], rule claims_foldE) (use kids in auto)
      moreover have "list_all (\<lambda>x. fullyTyped (fst x)) ?cs = list_all fullyTyped (map fst ?cs)"
        and "map (\<lambda>x. ?ids (fst x)) ?cs = map ?ids (map fst ?cs)" by (simp_all add: list_all_iff)
      moreover have "typeChildren t = kindChildren (GetKind dt)" by (cases dt) (simp add: Some typeChildren_def)
      ultimately show ?thesis by (simp add: Some fieldIDs_eq fieldsIDs_def map_fst_childPaths)
    qed
  qed
  with Some show ?thesis by simp
qed

lemma validate_claims:
  "validateFieldIDs ds = Inr () \<longleftrightarrow>
     list_all fullyTyped (ds_fields ds) \<and> None \<notin> set (retired_fields ds) \<and> validIDs [] (datasetIDs ds)"
proof -
  let ?r = "\<lambda>seen r. case r of None \<Rightarrow> Inl IcebergNilRetired
      | Some r \<Rightarrow> claimFieldID seen (rf_stable_id r) (''retired '' @ rf_identity r)"
  let ?rid = "\<lambda>r. case r of None \<Rightarrow> [] | Some r \<Rightarrow> [rf_stable_id r]"
  let ?R = "andThen (foldE (\<lambda>seen f. visitFieldIDs seen f (nilGetName f)) [] (ds_fields ds))
        (\<lambda>seen. foldE ?r seen (retired_fields ds))"
  have retired: "claims seen (?r seen r) (r \<noteq> None) (?rid r)" for seen r
    using claimFieldID_claims by (cases r) (auto simp: claims_def)
  have ids: "concat (map ?rid rs) = map rf_stable_id (List.map_filter (\<lambda>r. r) rs)" for rs
    by (induction rs) (auto simp: map_filter_simps split: option.splits)
  have nil: "list_all (\<lambda>r. r \<noteq> None) rs \<longleftrightarrow> None \<notin> set rs" for rs :: "retired_field option list"
  proof (induction rs)
    case (Cons a rs)
    then show ?case by (cases a) auto
  qed simp
  have "claims [] ?R (list_all fullyTyped (ds_fields ds) \<and> list_all (\<lambda>r. r \<noteq> None) (retired_fields ds))
      (concat (map (\<lambda>f. case f of None \<Rightarrow> [] | Some g \<Rightarrow> fieldIDs g) (ds_fields ds)) @ concat (map ?rid (retired_fields ds)))"
    by (intro claims_andThen claims_foldE visit_claims retired)
  then have "claims [] ?R (list_all fullyTyped (ds_fields ds) \<and> None \<notin> set (retired_fields ds)) (datasetIDs ds)"
    unfolding nil ids datasetIDs_def fieldsIDs_def .
  moreover have "validateFieldIDs ds = Inr () \<longleftrightarrow> (\<exists>s. ?R = Inr s)"
    by (auto simp: validateFieldIDs_def andThen_eq_Inr)
  ultimately show ?thesis by (cases ?R) (auto simp: claims_def)
qed

lemma compiled_validIDs:
  assumes "CompileMessage E descriptor previous = Inr ds" "well_typed E descriptor"
  shows "validateFieldIDs ds = Inr ()"
proof -
  have ids: "map snd (schemaEntries ds @ retiredEntries ds) = datasetIDs ds"
    by (simp add: schemaEntries_def retiredEntries_def datasetIDs_def comp_def)
  from assms have last: "last_field_id ds \<le> maxStableID" and ret: "None \<notin> set (retired_fields ds)"
    by (rule CompileMessage_run; auto simp: inv_defs)+
  have "1 \<le> n \<and> n \<le> last_field_id ds" if n: "n \<in> set (datasetIDs ds)" for n
  proof -
    from n have "n \<in> snd ` set (schemaEntries ds @ retiredEntries ds)" unfolding ids [symmetric] list.set_map .
    then obtain i where "(i, n) \<in> set (schemaEntries ds @ retiredEntries ds)" by (metis imageE prod.collapse)
    then show ?thesis using compiled_ledger(1,4) [OF assms] by blast
  qed
  then have "validIDs [] (datasetIDs ds)"
    using last compiled_ledger(2) [OF assms] unfolding ids validIDs_def maxFieldID_def maxStableID_def by force
  moreover have "list_all fullyTyped (ds_fields ds)"
    using compiled_fields [OF assms(1)] compiled_fullyTyped
    by (auto simp: compiledFields_def compiledMember_def list_all_iff split: option.splits)
  ultimately show ?thesis using ret by (simp add: validate_claims)
qed

lemma implicitDefault_fits:
  assumes "compiledKind (GetKind t)" "plainKind (GetKind t)"
  shows "(\<exists>v. iceberg_implicitDefault t path = Inr v) \<longleftrightarrow>
    GetPrimitive (Some t) \<noteq> None \<or> GetEnum (Some t) \<noteq> None \<and> EnumGetValues (GetEnum (Some t)) \<noteq> []"
  using assms
  by (cases t) (auto simp: iceberg_implicitDefault_def compiledKind_def plainKind_def GetPrimitive_def GetEnum_def
      PrimitiveGetKind_def EnumGetValues_def Let_def split: type_kind.splits option.splits primitive_kind.splits list.splits)

lemma fieldDefaults_fits:
  assumes "compiledRole f" "GetType f = Some t" "compiledKind (GetKind t)"
  shows "(\<exists>v. iceberg_fieldDefaults f t path = Inr v) \<longleftrightarrow> icebergFits f"
proof (cases "GetPresence f")
  case PRESENCE_IMPLICIT
  then have "isMember f" using assms(1) by (auto simp: compiledRole_def isSynthetic_def)
  then have "\<not> GetNullable f" and "plainKind (GetKind t)"
    using assms PRESENCE_IMPLICIT member_plain [of t] by (auto simp: isMember_def)
  then show ?thesis
    using PRESENCE_IMPLICIT implicitDefault_fits [OF assms(3), of path] assms(2)
    by (simp add: iceberg_fieldDefaults_def icebergFits_def andThen_eq_Inr)
qed (use assms in \<open>auto simp: iceberg_fieldDefaults_def icebergFits_def compiledRole_def isMember_def isSynthetic_def\<close>)

lemma iceberg_mapPrimitive_ok: "compiledKind (DataType_Primitive p) \<Longrightarrow> \<exists>r. iceberg_mapPrimitive (PrimitiveGetKind p) = Some r"
  by (auto simp: compiledKind_def PrimitiveGetKind_def iceberg_mapPrimitive_def split: option.splits primitive_kind.splits)

lemma iceberg_mapType_ok:
  assumes "compiledKind (GetKind t)"
  shows "(\<exists>r. iceberg_mapType mapField t path = Inr r) \<longleftrightarrow>
    (\<forall>(c, p) \<in> set (childPaths path (GetKind t)). \<exists>r. mapField c p = Inr r)"
proof (cases "GetKind t")
  case (DataType_Struct s)
  have "(\<exists>r. iceberg_mapType mapField t path = Inr r) \<longleftrightarrow>
      (\<exists>r. mapMembers (\<lambda>c. mapField c (joinPath path (nilGetName c))) (StructGetFields s) = Inr r)"
    using DataType_Struct by (auto simp: iceberg_mapType_def andThen_eq_Inr)
  then show ?thesis unfolding mapMembers_ok using DataType_Struct by auto
next
  case (DataType_Primitive p)
  then show ?thesis
    using iceberg_mapPrimitive_ok [of p] assms by (auto simp: iceberg_mapType_def childPaths_def)
next
  case (DataType_Decimal d)
  then show ?thesis
    using assms by (cases "decimalParameters d") (auto simp: iceberg_mapType_def childPaths_def compiledKind_def)
next
  case (DataType_FixedBytes b)
  then show ?thesis
    using assms by (cases "fixedByteWidth maxInt32 b") (auto simp: iceberg_mapType_def childPaths_def compiledKind_def)
qed (use assms in \<open>auto simp: iceberg_mapType_def childPaths_def compiledKind_def andThen_eq_Inr\<close>)

lemma iceberg_mapField_ok:
  "everyField compiledNode f \<Longrightarrow> compiledRole f \<Longrightarrow>
   (\<exists>r. iceberg_mapField (Some f) path = Inr r) \<longleftrightarrow> everyField icebergFits f"
proof (induction f arbitrary: path rule: field_tree_induct)
  case (Field d t)
  let ?f = "Field d t"
  obtain dt where t: "t = Some dt" and k: "compiledKind (GetKind dt)"
    using everyField_node [OF Field.prems(1)] by (auto simp: compiledNode_def split: option.splits)
  have kids: "typeChildren t = kindChildren (GetKind dt)" by (cases dt) (simp add: t typeChildren_def)
  have "(\<exists>r. iceberg_mapField (Some ?f) path = Inr r) \<longleftrightarrow>
      (\<exists>r. iceberg_mapType iceberg_mapField dt path = Inr r) \<and> (\<exists>v. iceberg_fieldDefaults ?f dt path = Inr v)"
    by (auto simp: t andThen_eq_Inr)
  also have "(\<exists>v. iceberg_fieldDefaults ?f dt path = Inr v) \<longleftrightarrow> icebergFits ?f"
    by (rule fieldDefaults_fits) (use Field.prems(2) k t in simp_all)
  also have "(\<exists>r. iceberg_mapType iceberg_mapField dt path = Inr r) \<longleftrightarrow>
      (\<forall>c \<in> set (kindChildren (GetKind dt)). \<exists>g. c = Some g \<and> everyField icebergFits g)"
  proof -
    have sub: "(\<exists>r. iceberg_mapField c p = Inr r) \<longleftrightarrow> (\<exists>g. c = Some g \<and> everyField icebergFits g)"
      if "c \<in> set (kindChildren (GetKind dt))" for c p
    proof -
      from compiled_child_roles [OF k that] obtain g where g: "c = Some g" "compiledRole g" by blast
      then have "Some g \<in> set (typeChildren t)" using that kids by simp
      with Field.IH [OF this _ g(2), of p] everyField_child [OF Field.prems(1), of g] show ?thesis
        by (simp add: g)
    qed
    have "set (kindChildren (GetKind dt)) = fst ` set (childPaths path (GetKind dt))"
      by (metis map_fst_childPaths list.set_map)
    moreover have "(\<forall>x \<in> set (childPaths path (GetKind dt)). case x of (c, p) \<Rightarrow> \<exists>r. iceberg_mapField c p = Inr r) \<longleftrightarrow>
        (\<forall>x \<in> set (childPaths path (GetKind dt)). \<exists>g. fst x = Some g \<and> everyField icebergFits g)"
    proof (intro ball_cong refl)
      fix x assume mem: "x \<in> set (childPaths path (GetKind dt))"
      obtain c p where x: "x = (c, p)" by (cases x)
      with mem have c: "c \<in> set (kindChildren (GetKind dt))" by (auto dest: childPaths_kindChildren)
      show "(case x of (c, p) \<Rightarrow> \<exists>r. iceberg_mapField c p = Inr r) \<longleftrightarrow> (\<exists>g. fst x = Some g \<and> everyField icebergFits g)"
        unfolding x prod.case fst_conv by (rule sub [OF c])
    qed
    ultimately show ?thesis unfolding iceberg_mapType_ok [OF k] by (simp del: iceberg_mapField.simps)
  qed
  also have "\<dots> \<longleftrightarrow> list_all (\<lambda>c. case c of None \<Rightarrow> True | Some g \<Rightarrow> everyField icebergFits g) (typeChildren t)"
    unfolding kids list_all_iff by (intro ball_cong refl) (auto dest!: compiled_child_roles [OF k])
  finally show ?case by (simp add: everyField.simps conj_commute)
qed

lemma icebergMembers_eq: "icebergMembers g = g # icebergTypeMembers (ib_Type g)"
  by (cases g) simp

lemma iceberg_mapPrimitive_members: "iceberg_mapPrimitive k = Some (mt, level, message) \<Longrightarrow> icebergTypeMembers mt = []"
  by (cases k) (auto simp: iceberg_mapPrimitive_def)

lemma iceberg_mapType_members:
  assumes "iceberg_mapType mapField t path = Inr (mt, children, level, message)" "g \<in> set (icebergTypeMembers mt)"
  shows "\<exists>c p y ds. (c, p) \<in> set (childPaths path (GetKind t)) \<and> mapField c p = Inr (y, ds) \<and>
    (g \<in> set (icebergTypeMembers (ib_Type y)) \<or> g = y \<and> (\<exists>s. GetKind t = DataType_Struct s))"
proof (cases "GetKind t")
  case (DataType_Struct s)
  with assms(1) obtain fs where m: "mapMembers (\<lambda>c. mapField c (joinPath path (nilGetName c))) (StructGetFields s) = Inr (fs, children)"
    and mt: "mt = IcebergStruct fs" by (auto simp: iceberg_mapType_def andThen_eq_Inr)
  from m obtain rs where rs: "map (\<lambda>c. mapField c (joinPath path (nilGetName c))) (StructGetFields s) = map Inr rs"
    and fs: "fs = map fst rs" unfolding mapMembers_eq by blast
  from assms(2) obtain r where r: "r \<in> set rs" "g \<in> set (icebergMembers (fst r))" by (auto simp: mt fs)
  then have "Inr r \<in> set (map (\<lambda>c. mapField c (joinPath path (nilGetName c))) (StructGetFields s))" unfolding rs by simp
  then obtain c where "c \<in> set (StructGetFields s)" "mapField c (joinPath path (nilGetName c)) = Inr r" by auto
  then show ?thesis using r(2) DataType_Struct
    by (intro exI [of _ c] exI [of _ "joinPath path (nilGetName c)"] exI [of _ "fst r"] exI [of _ "snd r"])
      (auto simp: icebergMembers_eq)
next
  case (DataType_Map m)
  with assms(1) obtain k kd v vd where kv: "mapField (MapGetKey m) (path @ ''.key'') = Inr (k, kd)"
    "mapField (MapGetValue m) (path @ ''.value'') = Inr (v, vd)"
    and "mt = IcebergMap (ib_ID k) (ib_Type k) (ib_ID v) (ib_Type v) (ib_Required v)"
    by (auto simp: iceberg_mapType_def andThen_eq_Inr)
  with assms(2) consider "g \<in> set (icebergTypeMembers (ib_Type k))" | "g \<in> set (icebergTypeMembers (ib_Type v))" by auto
  then show ?thesis using kv DataType_Map by cases auto
qed (use assms in \<open>auto simp: iceberg_mapType_def andThen_eq_Inr split: option.splits if_splits
      dest!: iceberg_mapPrimitive_members\<close>)

lemma implicitDefault_not_nil: "iceberg_implicitDefault t path = Inr v \<Longrightarrow> v \<noteq> DefaultNil"
  by (auto simp: iceberg_implicitDefault_def Let_def split: type_kind.splits if_splits list.splits)

lemma member_safeDefault:
  assumes "isMember f" "GetType f = Some t" "iceberg_fieldDefaults f t path = Inr (a, b)"
  shows "a = b \<and> (iceberg_required f t \<longleftrightarrow> a \<noteq> DefaultNil)"
proof -
  have "GetMap (Some t) \<noteq> None \<Longrightarrow> GetList (Some t) = None"
    by (cases t) (auto simp: getter_defs split: type_kind.splits)
  then show ?thesis
    using assms by (cases "GetPresence f")
      (auto simp: isMember_def iceberg_fieldDefaults_def iceberg_required_def andThen_eq_Inr
        split: if_splits dest: implicitDefault_not_nil)
qed

lemma iceberg_mapField_safe:
  "everyField compiledNode f \<Longrightarrow> iceberg_mapField (Some f) path = Inr (y, ds) \<Longrightarrow>
   (\<forall>g \<in> set (icebergTypeMembers (ib_Type y)). safeDefault g) \<and> (isMember f \<longrightarrow> safeDefault y)"
proof (induction f arbitrary: path y ds rule: field_tree_induct)
  case (Field d t)
  from Field.prems(2) obtain dt mt children level message a b where t: "t = Some dt"
    and mt: "iceberg_mapType iceberg_mapField dt path = Inr (mt, children, level, message)"
    and def: "iceberg_fieldDefaults (Field d t) dt path = Inr (a, b)"
    and y: "y = NestedField (stable_id d) (field_name d) (iceberg_required (Field d t) dt) (description d) mt a b"
    by (rule iceberg_mapField_cases) auto
  have k: "compiledKind (GetKind dt)" using everyField_node [OF Field.prems(1)] by (simp add: compiledNode_def t)
  have "safeDefault g" if g: "g \<in> set (icebergTypeMembers mt)" for g
  proof -
    from iceberg_mapType_members [OF mt g] obtain c p z es where c: "(c, p) \<in> set (childPaths path (GetKind dt))"
      and z: "iceberg_mapField c p = Inr (z, es)"
      and or: "g \<in> set (icebergTypeMembers (ib_Type z)) \<or> g = z \<and> (\<exists>s. GetKind dt = DataType_Struct s)" by blast
    from z obtain h where h: "c = Some h" by (cases c) auto
    have "Some h \<in> set (typeChildren t)"
      using childPaths_kindChildren [OF c] by (cases dt) (simp add: t h typeChildren_def)
    with Field.IH [OF this, of p z es] everyField_child [OF Field.prems(1), of h] z have
      "(\<forall>g \<in> set (icebergTypeMembers (ib_Type z)). safeDefault g) \<and> (isMember h \<longrightarrow> safeDefault z)" by (simp add: h)
    moreover have "isMember h" if "GetKind dt = DataType_Struct s" for s
      using k childPaths_kindChildren [OF c] that
      by (auto simp: compiledKind_def kindChildren_def StructGetFields_def list_all_iff h split: option.splits)
    ultimately show ?thesis using or by blast
  qed
  moreover have "isMember (Field d t) \<Longrightarrow> safeDefault y"
    using member_safeDefault [OF _ _ def] by (simp add: t y safeDefault_def)
  ultimately show ?case by (simp add: y)
qed

lemma IcebergSchema_cases:
  assumes "IcebergSchema (Some ds) = Inr (schema, diagnostics)"
  obtains rs where "validateFieldIDs ds = Inr ()"
    "map (\<lambda>f. iceberg_mapField f (nilGetName f)) (ds_fields ds) = map Inr rs"
    "iceberg_fields schema = map fst rs" "diagnostics = concat (map snd rs)"
    "mapMembers (\<lambda>f. iceberg_mapField f (nilGetName f)) (ds_fields ds) = Inr (iceberg_fields schema, diagnostics)"
proof -
  from assms have "validateFieldIDs ds = Inr ()"
    and m: "mapMembers (\<lambda>f. iceberg_mapField f (nilGetName f)) (ds_fields ds) = Inr (iceberg_fields schema, diagnostics)"
    by (auto simp: IcebergSchema_def andThen_eq_Inr mapFields_eq)
  moreover from m obtain rs where "map (\<lambda>f. iceberg_mapField f (nilGetName f)) (ds_fields ds) = map Inr rs"
    "iceberg_fields schema = map fst rs" "diagnostics = concat (map snd rs)" unfolding mapMembers_eq by blast
  ultimately show ?thesis using that by blast
qed

section \<open>Properties\<close>

text \<open>(C17) The Iceberg check of field IDs accepts a dataset exactly if it has no nil field, type or
  tombstone and its IDs, those of tombstones included, are pairwise different and inside the range
  that Iceberg leaves to tables.\<close>

theorem iceberg_ids_accepted_iff:
  "validateFieldIDs ds = Inr () \<longleftrightarrow>
     list_all fullyTyped (ds_fields ds) \<and> None \<notin> set (retired_fields ds) \<and> distinct (datasetIDs ds)
     \<and> list_all (\<lambda>i. 1 \<le> i \<and> i \<le> 2147483447) (datasetIDs ds)"
  by (auto simp: validate_claims validIDs_def maxFieldID_def list_all_iff)

text \<open>(C14) Composition with the compiler: Iceberg accepts a compiled schema exactly if no field in it is
  required and every field of implicit presence is a scalar or an enum with a value.\<close>

theorem compiled_schema_fits_iceberg:
  assumes "CompileMessage E descriptor previous = Inr ds" "well_typed E descriptor"
  shows "(\<exists>r. IcebergSchema (Some ds) = Inr r) \<longleftrightarrow>
    list_all (\<lambda>c. case c of None \<Rightarrow> False | Some f \<Rightarrow> everyField icebergFits f) (ds_fields ds)"
proof -
  have "(\<exists>r. IcebergSchema (Some ds) = Inr r) \<longleftrightarrow>
      (\<exists>r. mapMembers (\<lambda>f. iceberg_mapField f (nilGetName f)) (ds_fields ds) = Inr r)"
    using compiled_validIDs [OF assms] by (auto simp: IcebergSchema_def andThen_eq_Inr mapFields_eq)
  also have "\<dots> \<longleftrightarrow> (\<forall>c \<in> set (ds_fields ds). \<exists>r. iceberg_mapField c (nilGetName c) = Inr r)"
    by (rule mapMembers_ok)
  also have "\<dots> \<longleftrightarrow> list_all (\<lambda>c. case c of None \<Rightarrow> False | Some f \<Rightarrow> everyField icebergFits f) (ds_fields ds)"
    unfolding list_all_iff
  proof (intro ball_cong refl)
    fix c assume c: "c \<in> set (ds_fields ds)"
    then obtain f where f: "c = Some f" "compiledMember f"
      using compiled_fields [OF assms(1)] by (auto simp: compiledFields_def list_all_iff split: option.splits)
    then show "(\<exists>r. iceberg_mapField c (nilGetName c) = Inr r) \<longleftrightarrow> (case c of None \<Rightarrow> False | Some f \<Rightarrow> everyField icebergFits f)"
      using iceberg_mapField_ok [of f "nilGetName c"] by (simp add: compiledMember_def compiledRole_def)
  qed
  finally show ?thesis .
qed

text \<open>(C15) The field IDs of an Iceberg schema are the stable IDs of the logical schema, in the same order,
  list elements and map entries included, and no ID occurs twice.\<close>

theorem iceberg_schema_ids:
  assumes "IcebergSchema (Some ds) = Inr (schema, diagnostics)"
  shows "concat (map icebergFieldIDs (iceberg_fields schema)) = fieldsIDs (ds_fields ds)
    \<and> distinct (concat (map icebergFieldIDs (iceberg_fields schema)))"
  using assms
proof (rule IcebergSchema_cases)
  assume ok: "validateFieldIDs ds = Inr ()"
    and "mapMembers (\<lambda>f. iceberg_mapField f (nilGetName f)) (ds_fields ds) = Inr (iceberg_fields schema, diagnostics)"
  from iceberg.dataset_ids [OF this(2)] have "concat (map icebergFieldIDs (iceberg_fields schema)) = fieldsIDs (ds_fields ds)"
    by simp
  moreover have "distinct (datasetIDs ds)" using ok by (simp add: validate_claims validIDs_def)
  ultimately show ?thesis by (simp add: datasetIDs_def)
qed

text \<open>(C18) The Iceberg dialect reports every logical field once: its diagnostics are those of the walk
  over the fields, parents before children.\<close>

theorem iceberg_diagnostics_complete:
  assumes "IcebergSchema (Some ds) = Inr (schema, diagnostics)"
  shows "map field_path diagnostics = concat (map (\<lambda>f. fieldPaths f (nilGetName f)) (ds_fields ds))"
  using assms by (rule IcebergSchema_cases) (rule iceberg.dataset_diagnostics(1))

text \<open>(C16) In the Iceberg schema of a compiled dataset a member, at any depth, is required exactly if it
  has a default for the rows written before it was added, and the default for new rows is the same: a
  member added later never makes old rows unreadable.\<close>

theorem iceberg_members_additive:
  assumes "CompileMessage E descriptor previous = Inr ds" and "IcebergSchema (Some ds) = Inr (schema, diagnostics)"
    and "g \<in> set (concat (map icebergMembers (iceberg_fields schema)))"
  shows "ib_WriteDefault g = ib_InitialDefault g \<and> (ib_Required g \<longleftrightarrow> ib_InitialDefault g \<noteq> DefaultNil)"
  using assms(2)
proof (rule IcebergSchema_cases)
  fix rs assume rs: "map (\<lambda>f. iceberg_mapField f (nilGetName f)) (ds_fields ds) = map Inr rs"
    and fields: "iceberg_fields schema = map fst rs"
  from assms(3) obtain r where r: "r \<in> set rs" "g \<in> set (icebergMembers (fst r))" by (auto simp: fields)
  then have "Inr r \<in> set (map (\<lambda>f. iceberg_mapField f (nilGetName f)) (ds_fields ds))" unfolding rs by simp
  then obtain c where c: "c \<in> set (ds_fields ds)" "iceberg_mapField c (nilGetName c) = Inr r" by auto
  then obtain f where f: "c = Some f" "compiledMember f"
    using compiled_fields [OF assms(1)] by (auto simp: compiledFields_def list_all_iff split: option.splits)
  with c(2) iceberg_mapField_safe [of f "nilGetName c" "fst r" "snd r"] r(2) have "safeDefault g"
    by (auto simp: compiledMember_def icebergMembers_eq)
  then show ?thesis by (simp add: safeDefault_def)
qed

lemma iceberg_V1: "IcebergSchema (Some schemaV1) = Inr (fst icebergV1, snd icebergV1)"
proof -
  have "isl (IcebergSchema (Some schemaV1)) = False" by code_simp
  then show ?thesis unfolding icebergV1_def by (cases "IcebergSchema (Some schemaV1)") auto
qed

theorem compiled_schema_fits_iceberg_witness: "\<exists>r. IcebergSchema (Some schemaV1) = Inr r"
proof -
  have "list_all (\<lambda>c. case c of None \<Rightarrow> False | Some f \<Rightarrow> everyField icebergFits f) (ds_fields schemaV1)" by code_simp
  then show ?thesis using compiled_schema_fits_iceberg [OF compile_V1 shop_typed(1)] by blast
qed

theorem iceberg_schema_ids_witness: "distinct (concat (map icebergFieldIDs (iceberg_fields (fst icebergV1))))"
  using iceberg_schema_ids [OF iceberg_V1] by blast

theorem iceberg_diagnostics_complete_witness:
  "map field_path (snd icebergV1) = concat (map (\<lambda>f. fieldPaths f (nilGetName f)) (ds_fields schemaV1))"
  by (rule iceberg_diagnostics_complete [OF iceberg_V1])

theorem iceberg_members_additive_witness:
  "ib_WriteDefault (hd (iceberg_fields (fst icebergV1))) = ib_InitialDefault (hd (iceberg_fields (fst icebergV1)))"
proof -
  have "iceberg_fields (fst icebergV1) \<noteq> []" by code_simp
  then have "hd (iceberg_fields (fst icebergV1)) \<in> set (concat (map icebergMembers (iceberg_fields (fst icebergV1))))"
    by (cases "iceberg_fields (fst icebergV1)") (simp_all add: icebergMembers_eq)
  from iceberg_members_additive [OF compile_V1 iceberg_V1 this] show ?thesis by blast
qed

end
