(* ===== verification/Arrow.thy ===== *)
theory Arrow
  imports Dialects Storage_Name
begin

text \<open>
  The Apache Arrow dialect (\<^verbatim>\<open>go/data/arrow/schema.go\<close>). The types of the library \<^verbatim>\<open>arrow-go\<close> that
  the code builds are datatypes with the constructors it calls, and field metadata is the Go map the
  code fills. The canonical JSON extension type, the text of a type and the IPC writer are library
  code and parameters.
\<close>

section \<open>Arrow schemas\<close>

datatype arrow_type =
    ArrowBoolean | ArrowInt32 | ArrowInt64 | ArrowUint32 | ArrowUint64 | ArrowFloat32 | ArrowFloat64
  | ArrowString | ArrowBinary | ArrowTimestampNsUTC | ArrowDurationNs | ArrowUUID
  | ArrowExtension string
  | ArrowDecimal128 nat nat
  | ArrowFixedSizeBinary nat
  | ArrowStruct "arrow_field list"
  | ArrowList arrow_field
  | ArrowFixedSizeList int arrow_field
  | ArrowMap arrow_field arrow_field
  and arrow_field =
    ArrowField (ar_Name: string) (ar_Type: arrow_type) (ar_Nullable: bool)
      (ar_Metadata: "(string \<times> string) list")

record arrow_schema =
  arrow_fields :: "arrow_field list"
  arrow_metadata :: "(string \<times> string) list"

text \<open>\<^verbatim>\<open>extensions.NewJSONType\<close> on a storage type, and \<^verbatim>\<open>String()\<close> of a type.\<close>

record arrow_lib =
  NewJSONType :: "arrow_type \<Rightarrow> string + string"
  arrowTypeString :: "arrow_type \<Rightarrow> string"

datatype arrow_error =
    ArrowNilDataset
  | ArrowNilField string
  | ArrowNoType string
  | ArrowPrimitive string primitive_kind
  | ArrowFixedListTooLong string nat
  | ArrowTimestamp string
  | ArrowDuration string
  | ArrowJSONType string string
  | ArrowParameter string parameter_error
  | ArrowInvalidUuid string
  | ArrowUnspecifiedType string

section \<open>Metadata\<close>

definition logicalTypeName :: "data_type \<Rightarrow> string" where
  "logicalTypeName dataType = (case GetKind dataType of
       DataType_Primitive _ \<Rightarrow> ''primitive''
     | DataType_Enum _ \<Rightarrow> ''enum''
     | DataType_Struct _ \<Rightarrow> ''struct''
     | DataType_List l \<Rightarrow> if ListGetFixedLength l \<noteq> 0 then ''fixed_list'' else ''list''
     | DataType_Map _ \<Rightarrow> ''map''
     | DataType_Timestamp _ \<Rightarrow> ''timestamp''
     | DataType_Duration _ \<Rightarrow> ''duration''
     | DataType_Json _ \<Rightarrow> ''json''
     | DataType_Decimal _ \<Rightarrow> ''decimal''
     | DataType_Uuid _ \<Rightarrow> ''uuid''
     | DataType_FixedBytes _ \<Rightarrow> ''fixed_bytes''
     | Kind_nil \<Rightarrow> ''unspecified'')"

definition numberPath :: "nat list \<Rightarrow> string" where
  "numberPath numbers = join ''.'' (map FormatUint numbers)"

definition primitiveName :: "primitive_kind \<Rightarrow> string" where
  "primitiveName kind = map ToLower (TrimPrefix (primitiveKindString kind) ''PRIMITIVE_KIND_'')"

definition compactMetadata :: "(string \<times> string) list \<Rightarrow> (string \<times> string) list" where
  "compactMetadata values = filter (\<lambda>(_, v). v \<noteq> []) values"

definition FormatBool :: "bool \<Rightarrow> string" where
  "FormatBool b = (if b then ''true'' else ''false'')"

text \<open>\<^verbatim>\<open>json.Marshal\<close> of one \<^verbatim>\<open>enumMetadataValue\<close> and of the slice; a nil value has zero members. An
  empty description is left out. Strings and integers always encode.\<close>

definition enumValueJSON :: "enum_value option \<Rightarrow> string" where
  "enumValueJSON v = (case v of
       None \<Rightarrow> [CHR ''{''] @ jsonString ''name'' @ '':'' @ jsonString [] @ '','' @ jsonString ''number'' @ '':0}''
     | Some x \<Rightarrow> [CHR ''{''] @ jsonString ''name'' @ '':'' @ jsonString (ev_name x) @ '','' @ jsonString ''number''
         @ '':'' @ FormatInt (ev_number x)
         @ (if ev_description x = [] then [] else '','' @ jsonString ''description'' @ '':'' @ jsonString (ev_description x))
         @ ''}'')"

definition enumValuesJSON :: "enum_value option list \<Rightarrow> string" where
  "enumValuesJSON vs = ''['' @ join '','' (map enumValueJSON vs) @ '']''"

definition arrow_fieldMetadata :: "field \<Rightarrow> data_type \<Rightarrow> (string \<times> string) list" where
  "arrow_fieldMetadata f t =
     (let metadata = compactMetadata
            [(''invariant.description'', GetDescription f),
             (''invariant.logical_type'', logicalTypeName t),
             (''invariant.oneof'', GetOneof f),
             (''invariant.presence'', presenceString (GetPresence f)),
             (''invariant.proto.full_name'', GetProtoFullName f),
             (''invariant.proto.has_default'', FormatBool (has_default (data f))),
             (''invariant.proto.json_name'', json_name (data f)),
             (''invariant.proto.number_path'', numberPath (GetProtoNumberPath f)),
             (''invariant.protobuf_type'', GetProtobufType t),
             (''invariant.stable_id'', FormatInt (GetStableId f)),
             (''PARQUET:field_id'', FormatInt (GetStableId f))];
          metadata = (if has_default (data f)
            then AList.update ''invariant.proto.default'' (protobuf_default (data f)) metadata else metadata)
      in case GetEnum (Some t) of
           None \<Rightarrow> metadata
         | Some e \<Rightarrow> AList.update ''invariant.enum.values'' (enumValuesJSON (et_values e))
             (AList.update ''invariant.enum.closed'' (FormatBool (et_closed e)) metadata))"

section \<open>Types\<close>

definition arrow_mapPrimitive :: "primitive_kind \<Rightarrow> arrow_type option" where
  "arrow_mapPrimitive kind = (case kind of
       PRIMITIVE_KIND_DOUBLE \<Rightarrow> Some ArrowFloat64
     | PRIMITIVE_KIND_FLOAT \<Rightarrow> Some ArrowFloat32
     | PRIMITIVE_KIND_INT64 \<Rightarrow> Some ArrowInt64
     | PRIMITIVE_KIND_SFIXED64 \<Rightarrow> Some ArrowInt64
     | PRIMITIVE_KIND_SINT64 \<Rightarrow> Some ArrowInt64
     | PRIMITIVE_KIND_UINT64 \<Rightarrow> Some ArrowUint64
     | PRIMITIVE_KIND_FIXED64 \<Rightarrow> Some ArrowUint64
     | PRIMITIVE_KIND_INT32 \<Rightarrow> Some ArrowInt32
     | PRIMITIVE_KIND_SFIXED32 \<Rightarrow> Some ArrowInt32
     | PRIMITIVE_KIND_SINT32 \<Rightarrow> Some ArrowInt32
     | PRIMITIVE_KIND_FIXED32 \<Rightarrow> Some ArrowUint32
     | PRIMITIVE_KIND_UINT32 \<Rightarrow> Some ArrowUint32
     | PRIMITIVE_KIND_BOOL \<Rightarrow> Some ArrowBoolean
     | PRIMITIVE_KIND_STRING \<Rightarrow> Some ArrowString
     | PRIMITIVE_KIND_BYTES \<Rightarrow> Some ArrowBinary
     | _ \<Rightarrow> None)"

text \<open>The assignments \<^verbatim>\<open>mapped.Name = ...\<close> and \<^verbatim>\<open>key.Nullable = false\<close>.\<close>

fun arrow_rename :: "string \<Rightarrow> arrow_field \<Rightarrow> arrow_field" where
  "arrow_rename n (ArrowField _ t b m) = ArrowField n t b m"

fun arrow_notNull :: "arrow_field \<Rightarrow> arrow_field" where
  "arrow_notNull (ArrowField n t _ m) = ArrowField n t False m"

type_synonym arrow_mapped = "arrow_type \<times> mapping_diagnostic list \<times> mapping_compatibility \<times> string"

text \<open>\<^verbatim>\<open>mapType\<close>; the call of \<^verbatim>\<open>mapField\<close> on the children is an argument.\<close>

definition arrow_mapType ::
    "arrow_lib \<Rightarrow> (field option \<Rightarrow> string \<Rightarrow> arrow_error + arrow_field \<times> mapping_diagnostic list)
     \<Rightarrow> data_type \<Rightarrow> string \<Rightarrow> arrow_error + arrow_mapped" where
  "arrow_mapType lib mapField dataType path =
     (case GetKind dataType of
        DataType_Primitive p \<Rightarrow>
          (case arrow_mapPrimitive (PrimitiveGetKind p) of
             None \<Rightarrow> Inl (ArrowPrimitive path (PrimitiveGetKind p))
           | Some mapped \<Rightarrow> Inr (mapped, [], MAPPING_COMPATIBILITY_LOSSLESS,
               ''protobuf '' @ primitiveName (PrimitiveGetKind p) @ '' maps losslessly to Arrow '' @ arrowTypeString lib mapped))
      | DataType_Enum e \<Rightarrow>
          if EnumGetClosed e
          then Inr (ArrowInt32, [], MAPPING_COMPATIBILITY_RANGE_WIDENED,
            ''closed protobuf enum numbers map to unconstrained Arrow int32; symbols, aliases, and the closed value set are field metadata'')
          else Inr (ArrowInt32, [], MAPPING_COMPATIBILITY_LOSSLESS,
            ''open protobuf enum numbers map losslessly to Arrow int32; symbols and aliases are field metadata'')
      | DataType_Struct s \<Rightarrow>
          andThen (mapMembers (\<lambda>child. mapField child (joinPath path (nilGetName child)))
            (StructGetFields s)) (\<lambda>(fields, diagnostics).
          Inr (ArrowStruct fields, diagnostics, MAPPING_COMPATIBILITY_LOSSLESS,
            ''protobuf message maps to an Arrow struct''))
      | DataType_List l \<Rightarrow>
          andThen (mapField (ListGetElement l) (path @ ''[]'')) (\<lambda>(mapped, diagnostics).
          let item = arrow_rename ''item'' mapped; len = ListGetFixedLength l in
          if len \<noteq> 0 then
            if int len > maxInt32 then Inl (ArrowFixedListTooLong path len)
            else Inr (ArrowFixedSizeList (int len) item, diagnostics, MAPPING_COMPATIBILITY_LOSSLESS,
              ''fixed-cardinality protobuf repeated field maps losslessly to Arrow fixed_size_list['' @ FormatUint len @ '']'')
          else Inr (ArrowList item, diagnostics, MAPPING_COMPATIBILITY_LOSSLESS,
            ''protobuf repeated field maps to an Arrow list''))
      | DataType_Map m \<Rightarrow>
          andThen (mapField (MapGetKey m) (path @ ''.key'')) (\<lambda>(key, keyDiagnostics).
          andThen (mapField (MapGetValue m) (path @ ''.value'')) (\<lambda>(val, valueDiagnostics).
          Inr (ArrowMap (arrow_notNull (arrow_rename ''key'' key)) (arrow_rename ''value'' val),
            keyDiagnostics @ valueDiagnostics, MAPPING_COMPATIBILITY_LOSSLESS,
            ''protobuf map maps to an Arrow map with typed key and value children'')))
      | DataType_Timestamp ts \<Rightarrow>
          if TimestampGetUnit ts \<noteq> TIME_UNIT_NANOSECOND \<or> TimestampGetTimezone ts \<noteq> ''UTC''
          then Inl (ArrowTimestamp path)
          else Inr (ArrowTimestampNsUTC, [], MAPPING_COMPATIBILITY_RANGE_REDUCED,
            ''Arrow timestamp[ns, tz=UTC] preserves nanosecond precision but its int64 range is narrower than protobuf Timestamp'')
      | DataType_Duration d \<Rightarrow>
          if DurationGetUnit d \<noteq> TIME_UNIT_NANOSECOND then Inl (ArrowDuration path)
          else Inr (ArrowDurationNs, [], MAPPING_COMPATIBILITY_RANGE_REDUCED,
            ''Arrow duration[ns] preserves nanosecond precision but its int64 range is narrower than protobuf Duration'')
      | DataType_Json j \<Rightarrow>
          andThen (mapErr (ArrowJSONType path) (NewJSONType lib ArrowString)) (\<lambda>jsonType.
          Inr (ArrowExtension jsonType, [], MAPPING_COMPATIBILITY_RANGE_REDUCED,
            ''protobuf '' @ jsonKindString (JsonGetKind j)
              @ '' is encoded as RFC 8259 text in Arrow'' @ [CHR 0x27] @ ''s canonical JSON extension type; ''
              @ jsonRangeReduction (JsonGetKind j)))
      | DataType_Decimal d \<Rightarrow>
          andThen (mapErr (ArrowParameter path) (decimalParameters d)) (\<lambda>(precision, scale).
          Inr (ArrowDecimal128 precision scale, [], MAPPING_COMPATIBILITY_REPRESENTATION_CHANGED,
            ''canonical decimal text is decoded into Arrow decimal128('' @ FormatUint precision @ '', '' @ FormatUint scale
              @ ''); precision and scale are preserved but the physical representation changes''))
      | DataType_Uuid u \<Rightarrow>
          if u = None then Inl (ArrowInvalidUuid path)
          else Inr (ArrowUUID, [], MAPPING_COMPATIBILITY_REPRESENTATION_CHANGED,
            ''canonical UUID text is decoded into Arrow'' @ [CHR 0x27] @ ''s canonical arrow.uuid extension over fixed-size binary[16]'')
      | DataType_FixedBytes b \<Rightarrow>
          andThen (mapErr (ArrowParameter path) (fixedByteWidth maxInt32 b)) (\<lambda>width.
          Inr (ArrowFixedSizeBinary width, [], MAPPING_COMPATIBILITY_LOSSLESS,
            ''exact-width protobuf bytes map losslessly to Arrow fixed_size_binary['' @ FormatUint width @ '']''))
      | Kind_nil \<Rightarrow> Inl (ArrowUnspecifiedType path))"

lemma arrow_mapType_cong [fundef_cong]:
  assumes "lib = lib'" "t = t'" "path = path'"
    and "\<And>c p. (c, p) \<in> set (childPaths path' (GetKind t')) \<Longrightarrow> mapField c p = mapField' c p"
  shows "arrow_mapType lib mapField t path = arrow_mapType lib' mapField' t' path'"
proof (cases "GetKind t'")
  case (DataType_Struct s)
  then have "mapField c (joinPath path' (nilGetName c)) = mapField' c (joinPath path' (nilGetName c))"
    if "c \<in> set (StructGetFields s)" for c using that by (intro assms(4)) auto
  then show ?thesis
    using assms(1-3) DataType_Struct by (simp add: arrow_mapType_def cong: mapMembers_cong)
qed (use assms in \<open>simp_all add: arrow_mapType_def\<close>)

section \<open>Fields and schemas\<close>

definition arrow_diagnostic ::
    "field \<Rightarrow> string \<Rightarrow> mapping_compatibility \<Rightarrow> string \<Rightarrow> mapping_diagnostic" where
  "arrow_diagnostic f path level message =
     (if GetOneof f \<noteq> []
      then \<lparr>field_path = path,
            compatibility = (if level = MAPPING_COMPATIBILITY_LOSSLESS
                             then MAPPING_COMPATIBILITY_RANGE_WIDENED else level),
            diag_message = message @ ''; Arrow records membership in oneof '' @ Quote (GetOneof f)
              @ '' as metadata but does not enforce mutual exclusivity''\<rparr>
      else \<lparr>field_path = path, compatibility = level, diag_message = message\<rparr>)"

function arrow_mapField ::
    "arrow_lib \<Rightarrow> field option \<Rightarrow> string \<Rightarrow> arrow_error + arrow_field \<times> mapping_diagnostic list" where
  "arrow_mapField lib None path = Inl (ArrowNilField path)"
| "arrow_mapField lib (Some f) path =
     (case GetType f of
        None \<Rightarrow> Inl (ArrowNoType path)
      | Some t \<Rightarrow>
          andThen (arrow_mapType lib (arrow_mapField lib) t path) (\<lambda>(mappedType, children, level, message).
          Inr (ArrowField (GetName f) mappedType (GetNullable f) (arrow_fieldMetadata f t),
               arrow_diagnostic f path level message # children)))"
  by pat_completeness auto
termination
  by (relation "measure (\<lambda>(_, f, _). size_option size f)") (auto simp: size_childPaths_option)

definition ArrowSchema ::
    "arrow_lib \<Rightarrow> dataset_schema option
     \<Rightarrow> (arrow_error \<times> mapping_diagnostic list) + arrow_schema \<times> mapping_diagnostic list" where
  "ArrowSchema lib dataset =
     (case dataset of
        None \<Rightarrow> Inl (ArrowNilDataset, [])
      | Some ds \<Rightarrow>
          andThen (mapFields (arrow_mapField lib) (ds_fields ds)) (\<lambda>(fields, diagnostics).
          Inr (\<lparr>arrow_fields = fields,
                arrow_metadata = compactMetadata
                  [(''invariant.description'', ds_description ds),
                   (''invariant.dataset'', ds_name ds),
                   (''invariant.last_field_id'', FormatInt (last_field_id ds)),
                   (''invariant.source_message'', source_message ds)]\<rparr>, diagnostics)))"

datatype ipc_error = NilWriter | NilIPCSchema | IPCClose string

definition WriteIPC :: "('w \<Rightarrow> arrow_schema \<Rightarrow> string option) \<Rightarrow> 'w option \<Rightarrow> arrow_schema option \<Rightarrow> ipc_error + unit" where
  "WriteIPC writeAndClose w schema =
     (case w of
        None \<Rightarrow> Inl NilWriter
      | Some writer \<Rightarrow>
          (case schema of
             None \<Rightarrow> Inl NilIPCSchema
           | Some s \<Rightarrow> (case writeAndClose writer s of None \<Rightarrow> Inr () | Some e \<Rightarrow> Inl (IPCClose e))))"

end
