(* ===== verification/Parquet.thy ===== *)
theory Parquet
  imports Arrow
begin

text \<open>
  The Apache Parquet dialect (\<^verbatim>\<open>go/data/parquet/schema.go\<close>). It maps the Arrow schema once more, walking
  it together with the logical schema, replaces durations by 64-bit integers and hands the result to
  Arrow's own bridge to Parquet, which is library code and a parameter.
\<close>

section \<open>The Arrow bridge\<close>

datatype parquet_error =
    ParquetNilDataset
  | ParquetArrow arrow_error
  | ParquetFieldCount
  | ParquetNoType string
  | ParquetStructBridge string
  | ParquetLostFixed string
  | ParquetInconsistentFixed string
  | ParquetListBridge string
  | ParquetMapBridge string
  | ParquetLibrary string string

fun arrow_setType :: "arrow_type \<Rightarrow> arrow_field \<Rightarrow> arrow_field" where
  "arrow_setType t (ArrowField n _ b m) = ArrowField n t b m"

text \<open>The Arrow element of a list field, or the error of the bridge check.\<close>

definition parquet_element :: "arrow_type \<Rightarrow> (field option \<times> nat) option \<Rightarrow> string \<Rightarrow> parquet_error + arrow_field" where
  "parquet_element t l path =
     (case t of
        ArrowList e \<Rightarrow> if ListGetFixedLength l \<noteq> 0 then Inl (ParquetLostFixed path) else Inr e
      | ArrowFixedSizeList len e \<Rightarrow>
          if ListGetFixedLength l = 0 \<or> len mod 2 ^ 32 \<noteq> int (ListGetFixedLength l)
          then Inl (ParquetInconsistentFixed path) else Inr e
      | _ \<Rightarrow> Inl (ParquetListBridge path))"

text \<open>The loop over the members of a struct, and over the fields of a schema: the Arrow fields and the
  logical fields side by side.\<close>

definition compatibleMembers ::
    "(arrow_field \<Rightarrow> field option \<Rightarrow> string \<Rightarrow> parquet_error + arrow_field) \<Rightarrow> string
     \<Rightarrow> arrow_field list \<Rightarrow> field option list \<Rightarrow> parquet_error + arrow_field list" where
  "compatibleMembers compatibleField path as fs =
     foldE (\<lambda>done (a, f). andThen (compatibleField a f (joinPath path (nilGetName f)))
       (\<lambda>mapped. Inr (done @ [mapped]))) [] (zip as fs)"

definition compatibleType ::
    "(arrow_field \<Rightarrow> field option \<Rightarrow> string \<Rightarrow> parquet_error + arrow_field)
     \<Rightarrow> arrow_type \<Rightarrow> data_type \<Rightarrow> string \<Rightarrow> parquet_error + arrow_type" where
  "compatibleType compatibleField t logical path =
     (case GetKind logical of
        DataType_Duration _ \<Rightarrow> Inr ArrowInt64
      | DataType_Struct s \<Rightarrow>
          (case t of
             ArrowStruct as \<Rightarrow>
               if length as \<noteq> length (StructGetFields s) then Inl (ParquetStructBridge path)
               else andThen (compatibleMembers compatibleField path as (StructGetFields s)) (\<lambda>children.
                    Inr (ArrowStruct children))
           | _ \<Rightarrow> Inl (ParquetStructBridge path))
      | DataType_List l \<Rightarrow>
          andThen (parquet_element t l path) (\<lambda>elementField.
          andThen (compatibleField elementField (ListGetElement l) (path @ ''[]'')) (\<lambda>element.
          if ListGetFixedLength l = 0 then Inr (ArrowList element)
          else Inr (ArrowFixedSizeList (toInt32 (ListGetFixedLength l)) element)))
      | DataType_Map m \<Rightarrow>
          (case t of
             ArrowMap k v \<Rightarrow>
               andThen (compatibleField k (MapGetKey m) (path @ ''.key'')) (\<lambda>key.
               andThen (compatibleField v (MapGetValue m) (path @ ''.value'')) (\<lambda>val.
               Inr (ArrowMap (arrow_notNull key) val)))
           | _ \<Rightarrow> Inl (ParquetMapBridge path))
      | _ \<Rightarrow> Inr t)"

lemma compatibleMembers_cong [fundef_cong]:
  assumes "path = path'" "as = as'" "fs = fs'"
    and "\<And>a f. f \<in> set fs' \<Longrightarrow> g a f (joinPath path' (nilGetName f)) = h a f (joinPath path' (nilGetName f))"
  shows "compatibleMembers g path as fs = compatibleMembers h path' as' fs'"
  unfolding compatibleMembers_def assms(1-3)
  by (rule foldE_cong) (auto simp: assms(4) dest: set_zip_rightD)

lemma compatibleType_cong [fundef_cong]:
  assumes "t = t'" "l = l'" "path = path'"
    and "\<And>a c p. (c, p) \<in> set (childPaths path' (GetKind l')) \<Longrightarrow> g a c p = h a c p"
  shows "compatibleType g t l path = compatibleType h t' l' path'"
proof (cases "GetKind l'")
  case (DataType_Struct s)
  have "compatibleMembers g path' as (StructGetFields s) = compatibleMembers h path' as (StructGetFields s)" for as
    using DataType_Struct by (intro compatibleMembers_cong refl assms(4)) auto
  then show ?thesis using assms(1-3) DataType_Struct by (simp add: compatibleType_def split: arrow_type.splits)
qed (use assms in \<open>simp_all add: compatibleType_def split: arrow_type.splits\<close>)

function compatibleArrowField :: "arrow_field \<Rightarrow> field option \<Rightarrow> string \<Rightarrow> parquet_error + arrow_field" where
  "compatibleArrowField a None path = Inl (ParquetNoType path)"
| "compatibleArrowField a (Some f) path =
     (case GetType f of
        None \<Rightarrow> Inl (ParquetNoType path)
      | Some t \<Rightarrow>
          andThen (compatibleType compatibleArrowField (ar_Type a) t path) (\<lambda>mapped.
          Inr (arrow_setType mapped a)))"
  by pat_completeness auto
termination
  by (relation "measure (\<lambda>(_, f, _). size_option size f)") (auto simp: size_childPaths_option)

definition compatibleArrowSchema :: "arrow_schema \<Rightarrow> dataset_schema \<Rightarrow> parquet_error + arrow_schema" where
  "compatibleArrowSchema schema ds =
     (if length (arrow_fields schema) \<noteq> length (ds_fields ds) then Inl ParquetFieldCount
      else andThen (compatibleMembers compatibleArrowField [] (arrow_fields schema) (ds_fields ds)) (\<lambda>fields.
           Inr (schema\<lparr>arrow_fields := fields\<rparr>)))"

section \<open>Diagnostics\<close>

text \<open>Compatibility and message of one field, before the note on its oneof.\<close>

definition parquet_report :: "data_type \<Rightarrow> mapping_compatibility \<times> string" where
  "parquet_report t =
     (case GetKind t of
        DataType_Struct _ \<Rightarrow> (MAPPING_COMPATIBILITY_LOSSLESS, ''protobuf message maps to a Parquet group'')
      | DataType_List l \<Rightarrow>
          if ListGetFixedLength l = 0
          then (MAPPING_COMPATIBILITY_LOSSLESS, ''protobuf repeated field maps to Parquet'' @ [CHR 0x27] @ ''s canonical LIST shape'')
          else (MAPPING_COMPATIBILITY_RANGE_WIDENED, ''Arrow validates fixed cardinality '' @ FormatUint (ListGetFixedLength l)
            @ '' before writing, but Parquet'' @ [CHR 0x27] @ ''s physical LIST shape does not enforce element count; generic Parquet writers and readers must retain SchemaBundle validation'')
      | DataType_Map _ \<Rightarrow>
          (MAPPING_COMPATIBILITY_LOSSLESS, ''protobuf map maps to Parquet'' @ [CHR 0x27] @ ''s canonical MAP shape'')
      | DataType_Timestamp _ \<Rightarrow> (MAPPING_COMPATIBILITY_RANGE_REDUCED,
          ''Parquet TIMESTAMP(NANOS, adjustedToUTC=true) preserves nanosecond precision but its int64 range is narrower than protobuf Timestamp'')
      | DataType_Duration _ \<Rightarrow> (MAPPING_COMPATIBILITY_RANGE_REDUCED,
          ''Parquet has no duration logical type; exact nanoseconds use INT64, whose range is narrower than protobuf Duration'')
      | DataType_Json j \<Rightarrow> (MAPPING_COMPATIBILITY_RANGE_REDUCED, ''protobuf '' @ jsonKindString (JsonGetKind j)
          @ '' is encoded as RFC 8259 text with Parquet'' @ [CHR 0x27] @ ''s JSON logical annotation; '' @ jsonRangeReduction (JsonGetKind j))
      | DataType_Decimal d \<Rightarrow> (MAPPING_COMPATIBILITY_REPRESENTATION_CHANGED,
          ''canonical decimal text is decoded into Parquet DECIMAL('' @ FormatUint (DecimalGetPrecision d) @ '', ''
          @ FormatUint (DecimalGetScale d) @ ''); precision and scale are preserved but the physical representation changes'')
      | DataType_Uuid _ \<Rightarrow> (MAPPING_COMPATIBILITY_REPRESENTATION_CHANGED,
          ''canonical UUID text is decoded into Parquet'' @ [CHR 0x27] @ ''s UUID logical type over FIXED_LEN_BYTE_ARRAY(16)'')
      | DataType_FixedBytes b \<Rightarrow> (MAPPING_COMPATIBILITY_LOSSLESS,
          ''exact-width protobuf bytes map losslessly to Parquet FIXED_LEN_BYTE_ARRAY('' @ FormatUint (FixedBytesGetByteLength b) @ '')'')
      | DataType_Enum e \<Rightarrow>
          if EnumGetClosed e
          then (MAPPING_COMPATIBILITY_RANGE_WIDENED,
            ''closed protobuf enum numbers map to unconstrained Parquet INT32; the physical type admits undeclared values'')
          else (MAPPING_COMPATIBILITY_LOSSLESS, ''open protobuf enum numbers map losslessly to Parquet INT32'')
      | _ \<Rightarrow> (MAPPING_COMPATIBILITY_LOSSLESS, ''protobuf value domain maps losslessly to a Parquet logical or physical type''))"

function parquet_fieldDiagnostics :: "field option \<Rightarrow> string \<Rightarrow> mapping_diagnostic list" where
  "parquet_fieldDiagnostics None path = []"
| "parquet_fieldDiagnostics (Some f) path =
     (case GetType f of
        None \<Rightarrow> []
      | Some t \<Rightarrow>
          let (level, message) = parquet_report t;
              children = (case GetKind t of
                  DataType_Struct s \<Rightarrow>
                    concat (map (\<lambda>child. parquet_fieldDiagnostics child (joinPath path (nilGetName child))) (StructGetFields s))
                | DataType_List l \<Rightarrow> parquet_fieldDiagnostics (ListGetElement l) (path @ ''[]'')
                | DataType_Map m \<Rightarrow>
                    parquet_fieldDiagnostics (MapGetKey m) (path @ ''.key'')
                    @ parquet_fieldDiagnostics (MapGetValue m) (path @ ''.value'')
                | _ \<Rightarrow> [])
          in (if GetOneof f \<noteq> []
              then \<lparr>field_path = path,
                    compatibility = (if level = MAPPING_COMPATIBILITY_LOSSLESS
                                     then MAPPING_COMPATIBILITY_RANGE_WIDENED else level),
                    diag_message = message @ ''; Parquet does not enforce mutual exclusivity for oneof '' @ Quote (GetOneof f)\<rparr>
              else \<lparr>field_path = path, compatibility = level, diag_message = message\<rparr>) # children)"
  by pat_completeness auto
termination
  by (relation "measure (\<lambda>(f, _). size_option size f)") (auto intro!: size_kindChildren_option simp: kindChildren_def)

definition parquet_diagnostics :: "dataset_schema \<Rightarrow> mapping_diagnostic list" where
  "parquet_diagnostics ds = concat (map (\<lambda>f. parquet_fieldDiagnostics f (nilGetName f)) (ds_fields ds))"

section \<open>Schemas\<close>

text \<open>\<^verbatim>\<open>Schema\<close>: the library call takes the name of the root and the Arrow schema.\<close>

definition ParquetSchema ::
    "arrow_lib \<Rightarrow> (string \<Rightarrow> arrow_schema \<Rightarrow> string + 'p) \<Rightarrow> dataset_schema option
     \<Rightarrow> parquet_error + 'p \<times> mapping_diagnostic list" where
  "ParquetSchema lib toParquet dataset =
     (case dataset of
        None \<Rightarrow> Inl ParquetNilDataset
      | Some ds \<Rightarrow>
          andThen (mapErr (\<lambda>(e, _). ParquetArrow e) (ArrowSchema lib dataset)) (\<lambda>(arrowSchema, _).
          andThen (compatibleArrowSchema arrowSchema ds) (\<lambda>compatible.
          andThen (mapErr (ParquetLibrary (source_message ds)) (toParquet (ds_name ds) compatible)) (\<lambda>mapped.
          Inr (mapped, parquet_diagnostics ds)))))"

end
