(* ===== verification/Arrow_Properties.thy ===== *)
theory Arrow_Properties
  imports Parquet Compiler_Shape Examples
begin

text \<open>
  The properties of the Arrow dialect and of the Parquet dialect behind it. The Arrow dialect provides
  the contracts \<^verbatim>\<open>field_mapping\<close> and \<^verbatim>\<open>field_id_mapping\<close>: one diagnostic and one recorded field ID for
  every logical field. The bridge of the Parquet dialect is the Arrow mapping with 64-bit integers for
  durations, and accepts whatever the Arrow dialect returns for a compiled schema.
\<close>

text \<open>The field IDs recorded in the metadata of an Arrow schema, parents before children.\<close>

definition recordedID :: "(string \<times> string) list \<Rightarrow> string" where
  "recordedID m = (case map_of m ''PARQUET:field_id'' of None \<Rightarrow> [] | Some v \<Rightarrow> v)"

fun arrowTypeIDs :: "arrow_type \<Rightarrow> string list" and arrowFieldIDs :: "arrow_field \<Rightarrow> string list" where
  "arrowTypeIDs (ArrowStruct fs) = concat (map arrowFieldIDs fs)"
| "arrowTypeIDs (ArrowList e) = arrowFieldIDs e"
| "arrowTypeIDs (ArrowFixedSizeList _ e) = arrowFieldIDs e"
| "arrowTypeIDs (ArrowMap k v) = arrowFieldIDs k @ arrowFieldIDs v"
| "arrowTypeIDs _ = []"
| "arrowFieldIDs (ArrowField _ t _ m) = recordedID m # arrowTypeIDs t"

text \<open>The specification of the bridge: the same Arrow type with integers for durations.\<close>

fun durationsAsInt64 :: "arrow_type \<Rightarrow> arrow_type" and fieldDurationsAsInt64 :: "arrow_field \<Rightarrow> arrow_field" where
  "durationsAsInt64 ArrowDurationNs = ArrowInt64"
| "durationsAsInt64 (ArrowStruct fs) = ArrowStruct (map fieldDurationsAsInt64 fs)"
| "durationsAsInt64 (ArrowList e) = ArrowList (fieldDurationsAsInt64 e)"
| "durationsAsInt64 (ArrowFixedSizeList n e) = ArrowFixedSizeList n (fieldDurationsAsInt64 e)"
| "durationsAsInt64 (ArrowMap k v) = ArrowMap (fieldDurationsAsInt64 k) (fieldDurationsAsInt64 v)"
| "durationsAsInt64 t = t"
| "fieldDurationsAsInt64 (ArrowField n t b m) = ArrowField n (durationsAsInt64 t) b m"

text \<open>\<^verbatim>\<open>NewJSONType\<close> is documented to accept string storage.\<close>

definition acceptsStrings :: "arrow_lib \<Rightarrow> bool" where
  "acceptsStrings lib \<longleftrightarrow> \<not> isl (NewJSONType lib ArrowString)"

text \<open>Every logical field below a field with its path, parents before children, and the fields whose value
  domain Parquet keeps: not in a oneof, and of a type without loss.\<close>

function fieldNodes :: "field option \<Rightarrow> string \<Rightarrow> (string \<times> field) list" where
  "fieldNodes None path = []"
| "fieldNodes (Some f) path =
     (case GetType f of
        None \<Rightarrow> []
      | Some t \<Rightarrow> (path, f) # concat (map (\<lambda>(c, p). fieldNodes c p) (childPaths path (GetKind t))))"
  by pat_completeness auto
termination
  by (relation "measure (\<lambda>(f, _). size_option size f)") (auto simp: size_childPaths_option)

definition parquetLossless :: "field \<Rightarrow> bool" where
  "parquetLossless f \<longleftrightarrow> GetOneof f = [] \<and> (case GetType f of
       None \<Rightarrow> True
     | Some t \<Rightarrow>
         (case GetKind t of
            DataType_List l \<Rightarrow> ListGetFixedLength l = 0
          | DataType_Timestamp _ \<Rightarrow> False
          | DataType_Duration _ \<Rightarrow> False
          | DataType_Json _ \<Rightarrow> False
          | DataType_Decimal _ \<Rightarrow> False
          | DataType_Uuid _ \<Rightarrow> False
          | DataType_Enum e \<Rightarrow> \<not> EnumGetClosed e
          | _ \<Rightarrow> True))"

definition reportsNode :: "string \<times> field \<Rightarrow> mapping_diagnostic \<Rightarrow> bool" where
  "reportsNode x d \<longleftrightarrow> field_path d = fst x
     \<and> (compatibility d = MAPPING_COMPATIBILITY_LOSSLESS \<longleftrightarrow> parquetLossless (snd x))"

definition plainArrow :: arrow_lib where
  "plainArrow = \<lparr>NewJSONType = (\<lambda>t. if t = ArrowString then Inr ''arrow.json'' else Inl ''unsupported storage''),
     arrowTypeString = (\<lambda>_. ''type'')\<rparr>"

definition arrowV1 :: "arrow_schema \<times> mapping_diagnostic list" where
  "arrowV1 = projr (ArrowSchema plainArrow (Some schemaV1))"

lemma arrowFieldIDs_eq: "arrowFieldIDs g = recordedID (ar_Metadata g) # arrowTypeIDs (ar_Type g)"
  by (cases g) simp

lemma arrow_field_updates [simp]:
  "ar_Type (arrow_rename n g) = ar_Type g" "ar_Metadata (arrow_rename n g) = ar_Metadata g"
  "ar_Type (arrow_notNull g) = ar_Type g" "ar_Metadata (arrow_notNull g) = ar_Metadata g"
  by (cases g; simp)+

lemma arrowFieldIDs_updates [simp]:
  "arrowFieldIDs (arrow_rename n g) = arrowFieldIDs g" "arrowFieldIDs (arrow_notNull g) = arrowFieldIDs g"
  by (simp_all add: arrowFieldIDs_eq)

lemma FormatInt_nonempty [simp]: "FormatInt i \<noteq> []"
  by (simp add: FormatInt_def)

lemma map_of_compactMetadata:
  "map_of (compactMetadata []) k = None"
  "map_of (compactMetadata ((l, v) # m)) k = (if l = k \<and> v \<noteq> [] then Some v else map_of (compactMetadata m) k)"
  by (simp_all add: compactMetadata_def)

lemma recordedID_fieldMetadata [simp]: "recordedID (arrow_fieldMetadata f t) = FormatInt (GetStableId f)"
  by (simp add: recordedID_def arrow_fieldMetadata_def map_of_compactMetadata update_conv' Let_def split: option.splits)

lemma arrow_mapField_cases:
  assumes "arrow_mapField lib f path = Inr (y, ds)"
  obtains g t mt children level message where "f = Some g" "GetType g = Some t"
    "arrow_mapType lib (arrow_mapField lib) t path = Inr (mt, children, level, message)"
    "y = ArrowField (GetName g) mt (GetNullable g) (arrow_fieldMetadata g t)"
    "ds = arrow_diagnostic g path level message # children"
  using assms by (cases f) (auto simp: andThen_eq_Inr split: option.splits prod.splits)

lemma arrow_mapPrimitive_flat:
  "arrow_mapPrimitive k = Some mt \<Longrightarrow> arrowTypeIDs mt = [] \<and> durationsAsInt64 mt = mt"
  by (cases k) (auto simp: arrow_mapPrimitive_def)

lemma arrow_mapType_children:
  assumes "arrow_mapType lib mapField t path = Inr (mt, children, level, message)"
  shows "\<exists>rs. map (\<lambda>(c, p). mapField c p) (childPaths path (GetKind t)) = map Inr rs
    \<and> children = concat (map snd rs)
    \<and> arrowTypeIDs mt = concat (map (\<lambda>r. arrowFieldIDs (fst r)) rs)"
proof (cases "GetKind t")
  case (DataType_Struct s)
  with assms obtain fs where m: "mapMembers (\<lambda>c. mapField c (joinPath path (nilGetName c))) (StructGetFields s) = Inr (fs, children)"
    and mt: "mt = ArrowStruct fs" by (auto simp: arrow_mapType_def andThen_eq_Inr)
  from m obtain rs where "map (\<lambda>c. mapField c (joinPath path (nilGetName c))) (StructGetFields s) = map Inr rs"
    "fs = map fst rs" "children = concat (map snd rs)" unfolding mapMembers_eq by blast
  then show ?thesis using DataType_Struct mt by (intro exI [of _ rs]) (simp add: comp_def)
next
  case (DataType_List l)
  with assms obtain y where "mapField (ListGetElement l) (path @ ''[]'') = Inr (y, children)"
    "mt = ArrowList (arrow_rename ''item'' y) \<or> (\<exists>n. mt = ArrowFixedSizeList n (arrow_rename ''item'' y))"
    by (auto simp: arrow_mapType_def andThen_eq_Inr Let_def split: if_splits)
  then show ?thesis using DataType_List by (intro exI [of _ "[(y, children)]"]) auto
next
  case (DataType_Map m)
  with assms obtain k kd v vd where "mapField (MapGetKey m) (path @ ''.key'') = Inr (k, kd)"
    "mapField (MapGetValue m) (path @ ''.value'') = Inr (v, vd)" "children = kd @ vd"
    "mt = ArrowMap (arrow_notNull (arrow_rename ''key'' k)) (arrow_rename ''value'' v)"
    by (auto simp: arrow_mapType_def andThen_eq_Inr)
  then show ?thesis
    using DataType_Map by (intro exI [of _ "[(k, kd), (v, vd)]"]) simp
qed (use assms in \<open>auto simp: arrow_mapType_def andThen_eq_Inr childPaths_def split: option.splits if_splits
      dest: arrow_mapPrimitive_flat\<close>)

lemma field_path_arrow_diagnostic [simp]: "field_path (arrow_diagnostic f path level message) = path"
  by (simp add: arrow_diagnostic_def)

interpretation arrow: field_id_mapping "arrow_mapField lib" arrowFieldIDs FormatInt for lib
proof
  fix f path y ds
  assume "arrow_mapField lib f path = Inr (y, ds)"
  then show "\<exists>g t d rs. f = Some g \<and> GetType g = Some t \<and> field_path d = path
      \<and> map (\<lambda>(c, p). arrow_mapField lib c p) (childPaths path (GetKind t)) = map Inr rs
      \<and> ds = d # concat (map snd rs)"
    by (rule arrow_mapField_cases) (metis arrow_mapType_children field_path_arrow_diagnostic)
next
  fix g path y ds t rs
  assume "arrow_mapField lib (Some g) path = Inr (y, ds)" and t: "GetType g = Some t"
    and rs: "map (\<lambda>(c, p). arrow_mapField lib c p) (childPaths path (GetKind t)) = map Inr rs"
  then obtain mt children level message where
    "arrow_mapType lib (arrow_mapField lib) t path = Inr (mt, children, level, message)"
    and y: "ar_Metadata y = arrow_fieldMetadata g t" "ar_Type y = mt" by (auto simp: andThen_eq_Inr)
  from arrow_mapType_children [OF this(1)] rs have "arrowTypeIDs mt = concat (map (\<lambda>r. arrowFieldIDs (fst r)) rs)"
    by (auto dest: map_Inr_inject)
  then show "arrowFieldIDs y = FormatInt (GetStableId g) # concat (map (\<lambda>r. arrowFieldIDs (fst r)) rs)"
    by (simp add: arrowFieldIDs_eq y)
qed

section \<open>Compiled schemas fit\<close>

lemma arrow_mapPrimitive_ok: "compiledKind (DataType_Primitive p) \<Longrightarrow> \<exists>r. arrow_mapPrimitive (PrimitiveGetKind p) = Some r"
  by (auto simp: compiledKind_def PrimitiveGetKind_def arrow_mapPrimitive_def split: option.splits primitive_kind.splits)

lemma arrow_mapType_ok:
  assumes "compiledKind (GetKind t)" "acceptsStrings lib"
    and "\<And>c p. (c, p) \<in> set (childPaths path (GetKind t)) \<Longrightarrow> \<exists>r. mapField c p = Inr r"
  shows "\<exists>r. arrow_mapType lib mapField t path = Inr r"
proof (cases "GetKind t")
  case (DataType_Struct s)
  then have "\<exists>r. mapMembers (\<lambda>c. mapField c (joinPath path (nilGetName c))) (StructGetFields s) = Inr r"
    unfolding mapMembers_ok using assms(3) by auto
  then show ?thesis using DataType_Struct by (auto simp: arrow_mapType_def)
next
  case (DataType_Primitive p)
  then show ?thesis using arrow_mapPrimitive_ok [of p] assms(1) by (auto simp: arrow_mapType_def)
next
  case (DataType_List l)
  with assms(3) obtain r where "mapField (ListGetElement l) (path @ ''[]'') = Inr r" by fastforce
  then show ?thesis
    using DataType_List assms(1) by (cases r) (simp add: arrow_mapType_def compiledKind_def Let_def)
next
  case (DataType_Map m)
  with assms(3) obtain k v where "mapField (MapGetKey m) (path @ ''.key'') = Inr k"
    "mapField (MapGetValue m) (path @ ''.value'') = Inr v" by fastforce
  then show ?thesis using DataType_Map by (cases k; cases v) (simp add: arrow_mapType_def)
next
  case (DataType_Json j)
  then show ?thesis
    using assms(2) by (cases "NewJSONType lib ArrowString") (auto simp: arrow_mapType_def acceptsStrings_def)
next
  case (DataType_Decimal d)
  then show ?thesis
    using assms(1) by (cases "decimalParameters d") (auto simp: arrow_mapType_def compiledKind_def)
next
  case (DataType_FixedBytes b)
  then show ?thesis
    using assms(1) by (cases "fixedByteWidth maxInt32 b") (auto simp: arrow_mapType_def compiledKind_def)
qed (use assms(1) in \<open>auto simp: arrow_mapType_def compiledKind_def\<close>)

lemma arrow_mapField_ok:
  assumes "acceptsStrings lib"
  shows "everyField compiledNode f \<Longrightarrow> \<exists>r. arrow_mapField lib (Some f) path = Inr r"
proof (induction f arbitrary: path rule: field_tree_induct)
  case (Field d t)
  obtain dt where t: "t = Some dt" and k: "compiledKind (GetKind dt)"
    using everyField_node [OF Field.prems] by (auto simp: compiledNode_def split: option.splits)
  have kids: "typeChildren t = kindChildren (GetKind dt)" by (cases dt) (simp add: t typeChildren_def)
  have "\<exists>r. arrow_mapField lib c p = Inr r" if "(c, p) \<in> set (childPaths path (GetKind dt))" for c p
  proof -
    from compiled_child_roles [OF k childPaths_kindChildren [OF that]] obtain g where g: "c = Some g" by blast
    then have "Some g \<in> set (typeChildren t)" using childPaths_kindChildren [OF that] kids by simp
    with Field.IH [OF this, of p] everyField_child [OF Field.prems, of g] show ?thesis by (simp add: g)
  qed
  then have "\<exists>r. arrow_mapType lib (arrow_mapField lib) dt path = Inr r" by (rule arrow_mapType_ok [OF k assms])
  then show ?case by (auto simp: t)
qed

section \<open>The bridge to Parquet\<close>

lemma fieldDurationsAsInt64_eq: "fieldDurationsAsInt64 a = arrow_setType (durationsAsInt64 (ar_Type a)) a"
  by (cases a) simp

lemma fieldDurationsAsInt64_updates [simp]:
  "fieldDurationsAsInt64 (arrow_rename n a) = arrow_rename n (fieldDurationsAsInt64 a)"
  "fieldDurationsAsInt64 (arrow_notNull a) = arrow_notNull (fieldDurationsAsInt64 a)"
  "arrow_notNull (arrow_notNull a) = arrow_notNull a"
  by (cases a; simp)+

lemma compatibleMembers_map:
  assumes "length as = length fs"
    and "\<And>a f. (a, f) \<in> set (zip as fs) \<Longrightarrow> g a f (joinPath path (nilGetName f)) = Inr (h a)"
  shows "compatibleMembers g path as fs = Inr (map h as)"
proof -
  have "foldE (\<lambda>done (a, f). andThen (g a f (joinPath path (nilGetName f))) (\<lambda>mapped. Inr (done @ [mapped]))) us (zip as fs)
      = Inr (us @ map h as)" for us
    using assms by (induction as fs arbitrary: us rule: list_induct2) auto
  then show ?thesis by (simp add: compatibleMembers_def)
qed

lemma toInt32_small: "int n \<le> maxInt32 \<Longrightarrow> toInt32 n = int n"
  by (simp add: toInt32_def maxInt32_def)

lemma bridge_type:
  assumes mt: "arrow_mapType lib mapField t path = Inr (mt, children, level, message)"
    and sub: "\<And>w c p r x es. c \<in> set (kindChildren (GetKind t)) \<Longrightarrow> mapField c r = Inr (x, es) \<Longrightarrow>
      ar_Type w = ar_Type x \<Longrightarrow> adapt w c p = Inr (fieldDurationsAsInt64 w)"
  shows "compatibleType adapt mt t q = Inr (durationsAsInt64 mt)"
proof (cases "GetKind t")
  case (DataType_Struct s)
  with mt obtain fs where m: "mapMembers (\<lambda>c. mapField c (joinPath path (nilGetName c))) (StructGetFields s) = Inr (fs, children)"
    and mt': "mt = ArrowStruct fs" by (auto simp: arrow_mapType_def andThen_eq_Inr)
  have "adapt a c p = Inr (fieldDurationsAsInt64 a)" if "(a, c) \<in> set (zip fs (StructGetFields s))" for a c p
  proof -
    from mapMembers_zip(2) [OF m that] obtain es where "mapField c (joinPath path (nilGetName c)) = Inr (a, es)" by blast
    then show ?thesis
      using that by (intro sub) (auto simp: DataType_Struct kindChildren_def dest: set_zip_rightD)
  qed
  with mapMembers_zip(1) [OF m] show ?thesis
    by (simp add: compatibleType_def DataType_Struct mt' compatibleMembers_map)
next
  case (DataType_List l)
  with mt obtain e es where e: "mapField (ListGetElement l) (path @ ''[]'') = Inr (e, es)"
    and mt': "mt = (if ListGetFixedLength l = 0 then ArrowList (arrow_rename ''item'' e)
        else ArrowFixedSizeList (int (ListGetFixedLength l)) (arrow_rename ''item'' e))"
    and small: "int (ListGetFixedLength l) \<le> maxInt32 \<or> ListGetFixedLength l = 0"
    by (auto simp: arrow_mapType_def andThen_eq_Inr Let_def split: if_splits)
  have "adapt (arrow_rename ''item'' e) (ListGetElement l) (q @ ''[]'') = Inr (fieldDurationsAsInt64 (arrow_rename ''item'' e))"
    by (rule sub [OF _ e]) (simp_all add: DataType_List kindChildren_def)
  then show ?thesis using small
    by (auto simp: compatibleType_def DataType_List mt' parquet_element_def toInt32_small maxInt32_def)
next
  case (DataType_Map m)
  with mt obtain k kd v vd where k: "mapField (MapGetKey m) (path @ ''.key'') = Inr (k, kd)"
    and v: "mapField (MapGetValue m) (path @ ''.value'') = Inr (v, vd)"
    and mt': "mt = ArrowMap (arrow_notNull (arrow_rename ''key'' k)) (arrow_rename ''value'' v)"
    by (auto simp: arrow_mapType_def andThen_eq_Inr)
  have "adapt (arrow_notNull (arrow_rename ''key'' k)) (MapGetKey m) (q @ ''.key'')
      = Inr (fieldDurationsAsInt64 (arrow_notNull (arrow_rename ''key'' k)))"
    by (rule sub [OF _ k]) (simp_all add: DataType_Map kindChildren_def)
  moreover have "adapt (arrow_rename ''value'' v) (MapGetValue m) (q @ ''.value'')
      = Inr (fieldDurationsAsInt64 (arrow_rename ''value'' v))"
    by (rule sub [OF _ v]) (simp_all add: DataType_Map kindChildren_def)
  ultimately show ?thesis by (simp add: compatibleType_def DataType_Map mt')
qed (use mt in \<open>auto simp: arrow_mapType_def compatibleType_def andThen_eq_Inr split: option.splits if_splits
    dest: arrow_mapPrimitive_flat\<close>)

lemma bridge_field:
  "arrow_mapField lib (Some f) path = Inr (y, ds) \<Longrightarrow> ar_Type z = ar_Type y \<Longrightarrow>
   compatibleArrowField z (Some f) q = Inr (fieldDurationsAsInt64 z)"
proof (induction f arbitrary: path y ds z q rule: field_tree_induct)
  case (Field d ft)
  from Field.prems(1) obtain t mt children level message where t: "ft = Some t"
    and mt: "arrow_mapType lib (arrow_mapField lib) t path = Inr (mt, children, level, message)" and y: "ar_Type y = mt"
    by (rule arrow_mapField_cases) auto
  have "compatibleType compatibleArrowField mt t q = Inr (durationsAsInt64 mt)"
  proof (rule bridge_type [OF mt])
    fix w c p r x es
    assume kid: "c \<in> set (kindChildren (GetKind t))" and m: "arrow_mapField lib c r = Inr (x, es)"
      and w: "ar_Type w = ar_Type x"
    obtain g where g: "c = Some g" using m by (cases c) auto
    then have "Some g \<in> set (typeChildren ft)" using kid by (cases t) (simp add: t typeChildren_def)
    with Field.IH [OF this] m w show "compatibleArrowField w c p = Inr (fieldDurationsAsInt64 w)" by (simp add: g)
  qed
  then show ?case by (simp add: t fieldDurationsAsInt64_eq y Field.prems(2))
qed

lemma ArrowSchema_members:
  "ArrowSchema lib (Some ds) = Inr (schema, diagnostics) \<Longrightarrow>
   mapMembers (\<lambda>f. arrow_mapField lib f (nilGetName f)) (ds_fields ds) = Inr (arrow_fields schema, diagnostics)"
  by (auto simp: ArrowSchema_def andThen_eq_Inr mapFields_eq)

lemma bridge_schema:
  assumes "ArrowSchema lib (Some ds) = Inr (schema, diagnostics)"
  shows "compatibleArrowSchema schema ds =
    Inr (schema\<lparr>arrow_fields := map fieldDurationsAsInt64 (arrow_fields schema)\<rparr>)"
proof -
  note m = ArrowSchema_members [OF assms]
  have "compatibleArrowField a f p = Inr (fieldDurationsAsInt64 a)"
    if "(a, f) \<in> set (zip (arrow_fields schema) (ds_fields ds))" for a f p
  proof -
    from mapMembers_zip(2) [OF m that] obtain es where y: "arrow_mapField lib f (nilGetName f) = Inr (a, es)" by blast
    then obtain g where "f = Some g" by (cases f) auto
    with bridge_field [of lib g] y show ?thesis by blast
  qed
  with mapMembers_zip(1) [OF m] show ?thesis by (simp add: compatibleArrowSchema_def compatibleMembers_map)
qed

lemma compiled_arrow:
  assumes "CompileMessage E descriptor previous = Inr ds" "acceptsStrings lib"
  shows "\<exists>r. ArrowSchema lib (Some ds) = Inr r"
proof -
  have "\<exists>r. arrow_mapField lib f (nilGetName f) = Inr r" if "f \<in> set (ds_fields ds)" for f
  proof -
    from that compiled_fields [OF assms(1)] obtain g where "f = Some g" "compiledMember g"
      by (auto simp: compiledFields_def list_all_iff split: option.splits)
    then show ?thesis using arrow_mapField_ok [OF assms(2), of g] by (simp add: compiledMember_def)
  qed
  then have "\<exists>r. mapMembers (\<lambda>f. arrow_mapField lib f (nilGetName f)) (ds_fields ds) = Inr r"
    unfolding mapMembers_ok by blast
  then show ?thesis by (auto simp: ArrowSchema_def andThen_eq_Inr mapFields_eq)
qed

section \<open>Properties\<close>

text \<open>(C19) Composition with the compiler: if the Arrow library accepts strings as storage of its JSON type,
  every compiled schema maps to Arrow, and none of the Parquet dialect's own errors occurs: its result is
  the answer of the Parquet library to the Arrow schema with integers for durations and nothing else
  changed. Whether that library accepts the schema is not claimed.\<close>

theorem compiled_schema_to_parquet:
  assumes "CompileMessage E descriptor previous = Inr ds" "acceptsStrings lib"
  shows "\<exists>schema diagnostics. ArrowSchema lib (Some ds) = Inr (schema, diagnostics) \<and>
    ParquetSchema lib toParquet (Some ds) =
      (case toParquet (ds_name ds) (schema\<lparr>arrow_fields := map fieldDurationsAsInt64 (arrow_fields schema)\<rparr>) of
         Inl e \<Rightarrow> Inl (ParquetLibrary (source_message ds) e)
       | Inr p \<Rightarrow> Inr (p, parquet_diagnostics ds))"
proof -
  obtain schema diagnostics where a: "ArrowSchema lib (Some ds) = Inr (schema, diagnostics)"
    using compiled_arrow [OF assms] by auto
  have "ParquetSchema lib toParquet (Some ds) =
      (case toParquet (ds_name ds) (schema\<lparr>arrow_fields := map fieldDurationsAsInt64 (arrow_fields schema)\<rparr>) of
         Inl e \<Rightarrow> Inl (ParquetLibrary (source_message ds) e)
       | Inr p \<Rightarrow> Inr (p, parquet_diagnostics ds))"
    by (simp add: ParquetSchema_def a bridge_schema [OF a] split: sum.splits)
  with a show ?thesis by blast
qed

text \<open>(C20) Stable IDs survive the trip through Arrow metadata: reading the field IDs recorded in the Arrow
  schema of a compiled dataset back as 32-bit integers gives the stable IDs of all its fields.\<close>

theorem arrow_field_ids_roundtrip:
  assumes "CompileMessage E descriptor previous = Inr ds" "well_typed E descriptor"
    and "ArrowSchema lib (Some ds) = Inr (schema, diagnostics)"
  shows "map (ParseInt 32) (concat (map arrowFieldIDs (arrow_fields schema))) = map Some (fieldsIDs (ds_fields ds))"
proof -
  have "ParseInt 32 (FormatInt i) = Some i" if i: "i \<in> set (fieldsIDs (ds_fields ds))" for i
  proof -
    have "i \<in> snd ` set (schemaEntries ds)"
      using i fieldsEntries_ids [of "[]" "ds_fields ds"] unfolding schemaEntries_def by (metis list.set_map)
    then obtain n where "(n, i) \<in> set (schemaEntries ds @ retiredEntries ds)" by force
    then have "1 \<le> i" "i \<le> last_field_id ds" using compiled_ledger(1,4) [OF assms(1,2)] by blast+
    moreover have "last_field_id ds \<le> maxStableID" using assms(1,2) by (rule CompileMessage_run) (auto simp: inv_defs)
    ultimately show ?thesis by (intro ParseInt_FormatInt) (simp_all add: maxStableID_def)
  qed
  with arrow.dataset_ids [OF ArrowSchema_members [OF assms(3)]] show ?thesis by simp
qed

text \<open>(C21) The Arrow dialect reports every logical field once, parents before children.\<close>

theorem arrow_diagnostics_complete:
  assumes "ArrowSchema lib (Some ds) = Inr (schema, diagnostics)"
  shows "map field_path diagnostics = concat (map (\<lambda>f. fieldPaths f (nilGetName f)) (ds_fields ds))"
  by (rule arrow.dataset_diagnostics(1) [OF ArrowSchema_members [OF assms]])

lemma parquet_report_lossless:
  "GetType f = Some t \<Longrightarrow> GetOneof f = [] \<Longrightarrow>
   fst (parquet_report t) = MAPPING_COMPATIBILITY_LOSSLESS \<longleftrightarrow> parquetLossless f"
  by (cases "GetKind t") (simp_all add: parquet_report_def parquetLossless_def)

lemma reportsNode_pair:
  "reportsNode (path, f) d \<longleftrightarrow> field_path d = path
     \<and> (compatibility d = MAPPING_COMPATIBILITY_LOSSLESS \<longleftrightarrow> parquetLossless f)"
  by (simp add: reportsNode_def)

lemma list_all2_concat: "list_all2 (list_all2 P) xss yss \<Longrightarrow> list_all2 P (concat xss) (concat yss)"
  by (induction rule: list_all2_induct) (simp_all add: list_all2_appendI)

lemma parquet_field_diagnostics:
  "list_all2 reportsNode (fieldNodes (Some f) path) (parquet_fieldDiagnostics (Some f) path)"
proof (induction f arbitrary: path rule: field_tree_induct)
  case (Field fd ft)
  show ?case
  proof (cases ft)
    case (Some t)
    let ?cp = "childPaths path (GetKind t)"
    have "list_all2 reportsNode (fieldNodes c p) (parquet_fieldDiagnostics c p)" if "(c, p) \<in> set ?cp" for c p
    proof (cases c)
      case (Some g)
      then have "Some g \<in> set (typeChildren ft)"
        using childPaths_kindChildren [OF that] \<open>ft = Some t\<close> by (cases t) (simp add: typeChildren_def)
      then show ?thesis using Field.IH Some by simp
    qed simp
    then have "list_all2 (list_all2 reportsNode) (map (\<lambda>(c, p). fieldNodes c p) ?cp)
        (map (\<lambda>(c, p). parquet_fieldDiagnostics c p) ?cp)"
      unfolding list_all2_map1 list_all2_map2 by (intro list_all2_same [THEN iffD2]) auto
    note kids = list_all2_concat [OF this]
    obtain level message where r: "parquet_report t = (level, message)" by (cases "parquet_report t")
    have "level = MAPPING_COMPATIBILITY_LOSSLESS \<longleftrightarrow> parquetLossless (Field fd ft)" if "GetOneof (Field fd ft) = []"
      using parquet_report_lossless [of "Field fd ft" t] that Some r by simp
    moreover have "\<not> parquetLossless (Field fd ft)" if "GetOneof (Field fd ft) \<noteq> []" using that by (simp add: parquetLossless_def)
    ultimately show ?thesis
      using kids Some by (simp add: kindSwitch_childPaths [where g = parquet_fieldDiagnostics] r Let_def reportsNode_pair)
  qed simp
qed

text \<open>(C22) The Parquet dialect reports every logical field of an accepted dataset once, parents before
  children: every field has a type, and its diagnostic claims a lossless mapping exactly if the field is
  in no oneof and has no fixed-length list, time, JSON, decimal, UUID or closed enum type.\<close>

theorem parquet_diagnostics_complete:
  assumes "ParquetSchema lib toParquet (Some ds) = Inr (p, diagnostics)"
  shows "list_all fullyTyped (ds_fields ds)
    \<and> list_all2 reportsNode (concat (map (\<lambda>f. fieldNodes f (nilGetName f)) (ds_fields ds))) diagnostics"
proof -
  from assms obtain schema arrowDiagnostics where a: "ArrowSchema lib (Some ds) = Inr (schema, arrowDiagnostics)"
    and d: "diagnostics = parquet_diagnostics ds" by (auto simp: ParquetSchema_def andThen_eq_Inr)
  have typed: "list_all fullyTyped (ds_fields ds)" by (rule arrow.dataset_diagnostics(2) [OF ArrowSchema_members [OF a]])
  have "list_all2 reportsNode (fieldNodes f n) (parquet_fieldDiagnostics f n)" if "f \<in> set (ds_fields ds)" for f n
    using typed that parquet_field_diagnostics by (cases f) (auto simp: list_all_iff)
  then have "list_all2 (list_all2 reportsNode) (map (\<lambda>f. fieldNodes f (nilGetName f)) (ds_fields ds))
      (map (\<lambda>f. parquet_fieldDiagnostics f (nilGetName f)) (ds_fields ds))"
    unfolding list_all2_map1 list_all2_map2 by (intro list_all2_same [THEN iffD2]) auto
  then show ?thesis using typed list_all2_concat by (simp add: d parquet_diagnostics_def)
qed

section \<open>Examples\<close>

lemma plainArrow_ok: "acceptsStrings plainArrow"
  by (simp add: acceptsStrings_def plainArrow_def)

lemma arrow_V1: "ArrowSchema plainArrow (Some schemaV1) = Inr (fst arrowV1, snd arrowV1)"
  using compiled_arrow [OF compile_V1 plainArrow_ok] by (auto simp: arrowV1_def)

theorem compiled_schema_to_parquet_witness:
  "ParquetSchema plainArrow (\<lambda>_ schema. Inr schema) (Some schemaV1) =
     Inr ((fst arrowV1)\<lparr>arrow_fields := map fieldDurationsAsInt64 (arrow_fields (fst arrowV1))\<rparr>, parquet_diagnostics schemaV1)"
proof -
  obtain schema diagnostics where a: "ArrowSchema plainArrow (Some schemaV1) = Inr (schema, diagnostics)"
    and p: "ParquetSchema plainArrow (\<lambda>_ schema. Inr schema) (Some schemaV1) =
      Inr (schema\<lparr>arrow_fields := map fieldDurationsAsInt64 (arrow_fields schema)\<rparr>, parquet_diagnostics schemaV1)"
    using compiled_schema_to_parquet [OF compile_V1 plainArrow_ok, of "\<lambda>_ schema. Inr schema"] by auto
  have "schema = fst arrowV1" using a unfolding arrow_V1 by (simp only: sum.inject prod.inject)
  with p show ?thesis by (simp only:)
qed

theorem arrow_field_ids_roundtrip_witness:
  "map (ParseInt 32) (concat (map arrowFieldIDs (arrow_fields (fst arrowV1)))) = map Some (fieldsIDs (ds_fields schemaV1))"
  by (rule arrow_field_ids_roundtrip [OF compile_V1 shop_typed(1) arrow_V1])

theorem arrow_diagnostics_complete_witness:
  "map field_path (snd arrowV1) = concat (map (\<lambda>f. fieldPaths f (nilGetName f)) (ds_fields schemaV1))"
  by (rule arrow_diagnostics_complete [OF arrow_V1])

theorem parquet_diagnostics_complete_witness:
  "list_all2 reportsNode (concat (map (\<lambda>f. fieldNodes f (nilGetName f)) (ds_fields schemaV1))) (parquet_diagnostics schemaV1)"
proof -
  obtain schema diagnostics where
    "ParquetSchema plainArrow (\<lambda>_ schema. Inr schema) (Some schemaV1) = Inr (schema, diagnostics)"
    "diagnostics = parquet_diagnostics schemaV1"
    using arrow_V1 bridge_schema [OF arrow_V1] by (auto simp: ParquetSchema_def case_prod_beta)
  from parquet_diagnostics_complete [OF this(1)] this(2) show ?thesis by simp
qed

end
