(* ===== verification/Sql_Text.thy ===== *)
theory Sql_Text
  imports Utf8
begin

text \<open>
  How a database reads the SQL text the dialects write: quoted identifiers and string literals with
  the quote doubled inside, line comments, and the characters between them. Whatever stands in a name
  or a description stays inside its quotes, so a statement is read back part by part as it was written.
\<close>

section \<open>Quoting\<close>

definition doubleQuotes :: "char \<Rightarrow> string \<Rightarrow> string" where
  "doubleQuotes q v = [q] @ replaceAll [q] [q, q] v @ [q]"

section \<open>Reading\<close>

text \<open>What follows an opening quote: the text up to the closing quote, and the rest.\<close>

fun scanQuoted :: "char \<Rightarrow> string \<Rightarrow> (string \<times> string) option" where
  "scanQuoted q [] = None"
| "scanQuoted q (c # cs) =
     (if c \<noteq> q then map_option (\<lambda>(v, rest). (c # v, rest)) (scanQuoted q cs)
      else if cs \<noteq> [] \<and> hd cs = q then map_option (\<lambda>(v, rest). (q # v, rest)) (scanQuoted q (tl cs))
      else Some ([], cs))"

lemma scanQuoted_length: "scanQuoted q s = Some (v, rest) \<Longrightarrow> length rest < length s"
proof (induction q s arbitrary: v rest rule: scanQuoted.induct)
  case (2 q c cs)
  then show ?case by (cases cs) (fastforce split: if_splits)+
qed simp

text \<open>The parts of a statement: characters outside quotes, identifiers, literals and comments.\<close>

datatype sql_part = SqlChar char | SqlIdent string | SqlLiteral string | SqlComment string

definition quotedPart :: "char \<Rightarrow> string \<Rightarrow> sql_part" where
  "quotedPart q v = (if q = CHR 0x22 then SqlIdent v else SqlLiteral v)"

definition sqlText :: "string \<Rightarrow> sql_part list" where
  "sqlText s = map SqlChar s"

fun sepBy :: "'a list \<Rightarrow> 'a list list \<Rightarrow> 'a list" where
  "sepBy sep [] = []"
| "sepBy sep [x] = x"
| "sepBy sep (x # y # xs) = x @ sep @ sepBy sep (y # xs)"

function sqlParts :: "string \<Rightarrow> sql_part list option" where
  "sqlParts s =
     (case s of
        [] \<Rightarrow> Some []
      | c # cs \<Rightarrow>
          if c = CHR 0x22 \<or> c = CHR 0x27 then
            (case scanQuoted c cs of
               None \<Rightarrow> None
             | Some (v, rest) \<Rightarrow> map_option (\<lambda>ps. quotedPart c v # ps) (sqlParts rest))
          else if c = CHR ''-'' \<and> cs \<noteq> [] \<and> hd cs = CHR ''-'' then
            map_option (\<lambda>ps. SqlComment (takeWhile (\<lambda>x. x \<noteq> CHR 0x0A) (tl cs)) # ps)
              (sqlParts (dropWhile (\<lambda>x. x \<noteq> CHR 0x0A) (tl cs)))
          else map_option (\<lambda>ps. SqlChar c # ps) (sqlParts cs))"
  by pat_completeness auto
termination
proof (relation "measure length")
  fix s c cs x v rest assume "s = c # cs" "scanQuoted c cs = Some x" "(v, rest) = x"
  then show "(rest, s) \<in> measure length" using scanQuoted_length [of c cs v rest] by auto
next
  fix s :: string and c cs assume "s = c # cs"
  then show "(dropWhile (\<lambda>x. x \<noteq> CHR 0x0A) (tl cs), s) \<in> measure length"
    using length_dropWhile_le [of "\<lambda>x. x \<noteq> CHR 0x0A" "tl cs"] by auto
qed auto

declare sqlParts.simps [simp del]

text \<open>Text without quotes and comments.\<close>

fun plainText :: "string \<Rightarrow> bool" where
  "plainText [] = True"
| "plainText (c # cs) = (c \<noteq> CHR 0x22 \<and> c \<noteq> CHR 0x27 \<and>
     (c = CHR ''-'' \<longrightarrow> cs \<noteq> [] \<and> hd cs \<noteq> CHR ''-'') \<and> plainText cs)"

definition notQuote :: "string \<Rightarrow> bool" where
  "notQuote t \<longleftrightarrow> t = [] \<or> (hd t \<noteq> CHR 0x22 \<and> hd t \<noteq> CHR 0x27)"

text \<open>A piece of a statement with the parts it contributes, wherever it stands.\<close>

definition reads :: "string \<Rightarrow> sql_part list \<Rightarrow> bool" where
  "reads s ps \<longleftrightarrow> (\<forall>t. notQuote t \<longrightarrow> sqlParts (s @ t) = map_option (\<lambda>qs. ps @ qs) (sqlParts t))"

section \<open>Statements as pieces\<close>

datatype piece = Txt string | Idn string | Lit string

fun renderPiece :: "piece \<Rightarrow> string" where
  "renderPiece (Txt s) = s"
| "renderPiece (Idn v) = doubleQuotes CHR 0x22 v"
| "renderPiece (Lit v) = doubleQuotes CHR 0x27 v"

definition render :: "piece list \<Rightarrow> string" where
  "render ps = concat (map renderPiece ps)"

fun pieceParts :: "piece list \<Rightarrow> sql_part list" where
  "pieceParts [] = []"
| "pieceParts (Txt s # ps) = sqlText s @ pieceParts ps"
| "pieceParts (Idn v # ps) = SqlIdent v # pieceParts ps"
| "pieceParts (Lit v # ps) = SqlLiteral v # pieceParts ps"

text \<open>Plain text is plain, and two quoted parts have text between them.\<close>

fun separated :: "piece list \<Rightarrow> bool" where
  "separated [] = True"
| "separated (Txt s # _) = (s \<noteq> [])"
| "separated _ = False"

fun okPieces :: "piece list \<Rightarrow> bool" where
  "okPieces [] = True"
| "okPieces (Txt s # ps) = (plainText s \<and> okPieces ps)"
| "okPieces (Idn _ # ps) = (separated ps \<and> okPieces ps)"
| "okPieces (Lit _ # ps) = (separated ps \<and> okPieces ps)"

section \<open>Facts\<close>

lemma replaceAll_byte: "replaceAll [c] new s = replaceBytes (\<lambda>x. if x = c then new else [x]) s"
  by (induction s) (simp_all add: replaceBytes_def)

lemma scanQuoted_double:
  assumes "t = [] \<or> hd t \<noteq> q"
  shows "scanQuoted q (replaceAll [q] [q, q] v @ q # t) = Some (v, t)"
  using assms by (induction v) auto

lemma sqlParts_Nil [simp]: "sqlParts [] = Some []"
  by (simp add: sqlParts.simps)

lemma sqlParts_double:
  assumes "q = CHR 0x22 \<or> q = CHR 0x27" and "notQuote t"
  shows "sqlParts (doubleQuotes q v @ t) = map_option (\<lambda>ps. quotedPart q v # ps) (sqlParts t)"
proof -
  have "t = [] \<or> hd t \<noteq> q" using assms by (auto simp: notQuote_def)
  then have s: "scanQuoted q (replaceAll [q] [q, q] v @ q # t) = Some (v, t)" by (rule scanQuoted_double)
  have d: "doubleQuotes q v @ t = q # (replaceAll [q] [q, q] v @ q # t)" by (simp add: doubleQuotes_def)
  show ?thesis unfolding d by (subst sqlParts.simps) (use assms(1) s in auto)
qed

lemma sqlText_simps [simp]:
  "sqlText [] = []" "sqlText (c # s) = SqlChar c # sqlText s" "sqlText (s @ t) = sqlText s @ sqlText t"
  by (simp_all add: sqlText_def)

lemma sqlParts_plain: "plainText s \<Longrightarrow> sqlParts (s @ t) = map_option (\<lambda>ps. sqlText s @ ps) (sqlParts t)"
proof (induction s)
  case (Cons c s)
  then have "\<not> (c = CHR ''-'' \<and> s @ t \<noteq> [] \<and> hd (s @ t) = CHR ''-'')" by (cases s) auto
  with Cons show ?case by (cases "sqlParts t") (auto simp: sqlParts.simps [of "c # s @ t"])
qed (cases "sqlParts t"; simp)

lemma sqlParts_comment:
  assumes "CHR 0x0A \<notin> set body"
  shows "sqlParts (''--'' @ body @ CHR 0x0A # t) = map_option (\<lambda>ps. SqlComment body # SqlChar CHR 0x0A # ps) (sqlParts t)"
proof -
  have "takeWhile (\<lambda>x. x \<noteq> CHR 0x0A) (body @ CHR 0x0A # t) = body"
    "dropWhile (\<lambda>x. x \<noteq> CHR 0x0A) (body @ CHR 0x0A # t) = CHR 0x0A # t"
    using assms by (induction body) auto
  moreover have "sqlParts (CHR 0x0A # t) = map_option (\<lambda>ps. SqlChar CHR 0x0A # ps) (sqlParts t)" by (subst sqlParts.simps) simp
  ultimately show ?thesis
    by (cases "sqlParts t") (simp_all add: sqlParts.simps [of "CHR ''-'' # CHR ''-'' # body @ CHR 0x0A # t"])
qed

lemma reads_whole: "reads s ps \<Longrightarrow> sqlParts s = Some ps"
  unfolding reads_def by (drule spec [of _ "[]"]) (simp add: notQuote_def)

lemma reads_Nil: "reads [] []"
  by (simp add: reads_def option.map_ident)

lemma reads_text: "plainText s \<Longrightarrow> reads s (sqlText s)"
  by (simp add: reads_def sqlParts_plain)

lemma reads_plain: "plainText s \<Longrightarrow> reads t ps \<Longrightarrow> reads (s @ t) (sqlText s @ ps)"
  by (simp add: reads_def sqlParts_plain option.map_comp comp_def)

lemma notQuote_append: "notQuote s \<Longrightarrow> notQuote t \<Longrightarrow> notQuote (s @ t)"
  by (cases s) (simp_all add: notQuote_def)

lemma reads_append: "reads s ps \<Longrightarrow> notQuote t \<Longrightarrow> reads t qs \<Longrightarrow> reads (s @ t) (ps @ qs)"
  by (simp add: reads_def notQuote_append option.map_comp comp_def)

lemma reads_quoted: "q = CHR 0x22 \<or> q = CHR 0x27 \<Longrightarrow> reads (doubleQuotes q v) [quotedPart q v]"
  by (simp add: reads_def sqlParts_double)

lemma reads_comment: "CHR 0x0A \<notin> set body \<Longrightarrow> reads (''--'' @ body @ [CHR 0x0A]) [SqlComment body, SqlChar CHR 0x0A]"
  unfolding reads_def using sqlParts_comment [of body] by (simp add: fun_eq_iff cong: option.map_cong)

lemma plainText_append: "plainText s \<Longrightarrow> plainText t \<Longrightarrow> plainText (s @ t)"
  by (induction s) auto

lemma plainText_digits: "\<forall>c \<in> set s. isDigit c \<Longrightarrow> plainText s"
  by (induction s) (auto simp: isDigit_def less_eq_char_def)

lemma plainText_FormatUint [simp]: "plainText (FormatUint n)"
  by (rule plainText_digits [OF FormatUint_isDigit])

lemma plainText_FormatInt [simp]: "plainText (FormatInt i)"
proof (cases "i < 0")
  case True
  have "hd (FormatUint (nat (- i))) \<noteq> CHR ''-''"
    using FormatUint_isDigit [of "nat (- i)"] isDigit_not_sign [of "hd (FormatUint (nat (- i)))"] by simp
  with True show ?thesis by (simp add: FormatInt_def)
qed (simp add: FormatInt_def)

lemma reads_join:
  assumes "plainText sep" "sep \<noteq> []" "list_all2 reads xs pss"
  shows "reads (join sep xs) (sepBy (sqlText sep) pss)"
  using assms(3)
proof (induction xs arbitrary: pss rule: induct_list012)
  case (2 x)
  then show ?case by (auto simp: list_all2_Cons1)
next
  case (3 x y xs)
  then obtain p ps where p: "pss = p # ps" "reads x p" "list_all2 reads (y # xs) ps"
    by (auto simp: list_all2_Cons1)
  have "notQuote (sep @ join sep (y # xs))" using assms(1,2) by (cases sep) (simp_all add: notQuote_def)
  moreover from p(3) obtain q qs where ps: "ps = q # qs" by (auto simp: list_all2_Cons1)
  ultimately show ?case using p 3(2) [OF p(3)] assms(1) by (simp add: reads_append reads_plain)
qed (simp add: reads_Nil)

lemma render_simps [simp]: "render [] = []" "render (p # ps) = renderPiece p @ render ps"
  by (simp_all add: render_def)

lemma separated_notQuote: "separated ps \<Longrightarrow> okPieces ps \<Longrightarrow> notQuote (render ps)"
  by (cases ps rule: separated.cases) (auto simp: notQuote_def neq_Nil_conv)

lemma reads_ident: "reads (doubleQuotes CHR 0x22 v) [SqlIdent v]"
  using reads_quoted [of "CHR 0x22" v] by (simp add: quotedPart_def)

lemma reads_literal: "reads (doubleQuotes CHR 0x27 v) [SqlLiteral v]"
  using reads_quoted [of "CHR 0x27" v] by (simp add: quotedPart_def)

lemma reads_render: "okPieces ps \<Longrightarrow> reads (render ps) (pieceParts ps)"
proof (induction ps rule: pieceParts.induct)
  case (2 s ps)
  then show ?case using reads_plain [of s "render ps"] by simp
next
  case (3 v ps)
  then show ?case using reads_append [OF reads_ident [of v] separated_notQuote [of ps]] by simp
next
  case (4 v ps)
  then show ?case using reads_append [OF reads_literal [of v] separated_notQuote [of ps]] by simp
qed (simp add: reads_Nil)

lemma reads_renderI: "s = render ps \<Longrightarrow> okPieces ps \<Longrightarrow> pieceParts ps = qs \<Longrightarrow> reads s qs"
  using reads_render by blast

lemma doubleQuotes_plain: "q \<notin> set v \<Longrightarrow> doubleQuotes q v = [q] @ v @ [q]"
  unfolding doubleQuotes_def replaceAll_byte by (induction v) (auto simp: replaceBytes_def)

lemma notQuote_simps [simp]:
  "notQuote []" "notQuote (c # cs) \<longleftrightarrow> c \<noteq> CHR 0x22 \<and> c \<noteq> CHR 0x27"
  by (simp_all add: notQuote_def)

end
