(* ===== verification/Postgres.thy ===== *)
theory Postgres
  imports Dialects Sql_Text
begin

text \<open>
  The PostgreSQL dialect (\<^verbatim>\<open>go/data/postgres/schema.go\<close>): the DDL of one dataset as text, with the
  diagnostics of every logical field. SHA-256 is a parameter: a function from a byte string to its 32
  bytes. On an error the code also returns the diagnostics collected so far; \<open>PostgresDDL\<close> returns
  them with the error.
\<close>

section \<open>Identifiers and text\<close>

definition maxIdentifierBytes :: int where
  "maxIdentifierBytes = 63"

datatype pg_text_error = PgEmptyIdentifier | PgInvalidUTF8 | PgNulByte

definition pg_validateText :: "string \<Rightarrow> pg_text_error + unit" where
  "pg_validateText v =
     (if \<not> ValidString v then Inl PgInvalidUTF8
      else if CHR 0x00 \<in> set v then Inl PgNulByte
      else Inr ())"

text \<open>\<^verbatim>\<open>hex.EncodeToString\<close>\<close>

definition hexEncode :: "string \<Rightarrow> string" where
  "hexEncode s = concat (map (\<lambda>c. [hexDigit (byteVal c div 16), hexDigit (byteVal c mod 16)]) s)"

text \<open>The loop that keeps the runes that fit the limit.\<close>

fun pg_prefix :: "int \<Rightarrow> string \<Rightarrow> nat list \<Rightarrow> string" where
  "pg_prefix limit pre [] = pre"
| "pg_prefix limit pre (r # rs) =
     (if int (length pre) + RuneLen r > limit then pre else pg_prefix limit (pre @ EncodeRune r) rs)"

definition pg_identifier :: "(string \<Rightarrow> string) \<Rightarrow> string \<Rightarrow> pg_text_error + string" where
  "pg_identifier sha256 v =
     (if v = [] then Inl PgEmptyIdentifier
      else andThen (pg_validateText v) (\<lambda>_.
        if int (length v) \<le> maxIdentifierBytes then Inr v
        else let suffix = ''_'' @ hexEncode (take 6 (sha256 v));
                 limit = maxIdentifierBytes - int (length suffix)
             in Inr (pg_prefix limit [] (map fst (runes v)) @ suffix)))"

definition pg_quoteIdentifier :: "string \<Rightarrow> string" where
  "pg_quoteIdentifier v = [CHR 0x22] @ replaceAll [CHR 0x22] [CHR 0x22, CHR 0x22] v @ [CHR 0x22]"

definition pg_quoteLiteral :: "string \<Rightarrow> string" where
  "pg_quoteLiteral v = [CHR 0x27] @ replaceAll [CHR 0x27] [CHR 0x27, CHR 0x27] v @ [CHR 0x27]"

section \<open>Types\<close>

datatype pg_type_error =
    PgPrimitive primitive_kind
  | PgParameter parameter_error
  | PgInvalidUuid
  | PgUnspecifiedType
  | PgImplicitRefined

type_synonym pg_mapped = "string \<times> mapping_compatibility \<times> string"

definition pg_mapPrimitive :: "primitive_kind \<Rightarrow> pg_type_error + pg_mapped" where
  "pg_mapPrimitive kind =
     (let signed64 = Inr (''BIGINT'', MAPPING_COMPATIBILITY_LOSSLESS,
            ''protobuf signed 64-bit integer maps losslessly to PostgreSQL BIGINT'');
          unsigned64 = Inr (''NUMERIC(20,0)'', MAPPING_COMPATIBILITY_RANGE_WIDENED,
            ''protobuf unsigned 64-bit integer maps to PostgreSQL NUMERIC(20,0), which contains its full domain'');
          signed32 = Inr (''INTEGER'', MAPPING_COMPATIBILITY_LOSSLESS,
            ''protobuf signed 32-bit integer maps losslessly to PostgreSQL INTEGER'');
          unsigned32 = Inr (''BIGINT'', MAPPING_COMPATIBILITY_RANGE_WIDENED,
            ''protobuf unsigned 32-bit integer widens to PostgreSQL BIGINT'')
      in case kind of
       PRIMITIVE_KIND_DOUBLE \<Rightarrow> Inr (''DOUBLE PRECISION'', MAPPING_COMPATIBILITY_LOSSLESS,
         ''protobuf double maps losslessly to PostgreSQL DOUBLE PRECISION'')
     | PRIMITIVE_KIND_FLOAT \<Rightarrow> Inr (''REAL'', MAPPING_COMPATIBILITY_LOSSLESS,
         ''protobuf float maps losslessly to PostgreSQL REAL'')
     | PRIMITIVE_KIND_INT64 \<Rightarrow> signed64
     | PRIMITIVE_KIND_SFIXED64 \<Rightarrow> signed64
     | PRIMITIVE_KIND_SINT64 \<Rightarrow> signed64
     | PRIMITIVE_KIND_UINT64 \<Rightarrow> unsigned64
     | PRIMITIVE_KIND_FIXED64 \<Rightarrow> unsigned64
     | PRIMITIVE_KIND_INT32 \<Rightarrow> signed32
     | PRIMITIVE_KIND_SFIXED32 \<Rightarrow> signed32
     | PRIMITIVE_KIND_SINT32 \<Rightarrow> signed32
     | PRIMITIVE_KIND_FIXED32 \<Rightarrow> unsigned32
     | PRIMITIVE_KIND_UINT32 \<Rightarrow> unsigned32
     | PRIMITIVE_KIND_BOOL \<Rightarrow> Inr (''BOOLEAN'', MAPPING_COMPATIBILITY_LOSSLESS,
         ''protobuf bool maps losslessly to PostgreSQL BOOLEAN'')
     | PRIMITIVE_KIND_STRING \<Rightarrow> Inr (''TEXT'', MAPPING_COMPATIBILITY_RANGE_REDUCED,
         ''protobuf string maps to PostgreSQL TEXT, which cannot represent U+0000'')
     | PRIMITIVE_KIND_BYTES \<Rightarrow> Inr (''BYTEA'', MAPPING_COMPATIBILITY_LOSSLESS,
         ''protobuf bytes maps losslessly to PostgreSQL BYTEA'')
     | _ \<Rightarrow> Inl (PgPrimitive kind))"

function canContainNUL :: "data_type option \<Rightarrow> bool" where
  "canContainNUL None = False"
| "canContainNUL (Some t) =
     (case GetKind t of
        DataType_Primitive p \<Rightarrow> PrimitiveGetKind p = PRIMITIVE_KIND_STRING
      | DataType_Struct s \<Rightarrow> list_ex (\<lambda>f. canContainNUL (nilGetType f)) (StructGetFields s)
      | DataType_List l \<Rightarrow> canContainNUL (nilGetType (ListGetElement l))
      | DataType_Map m \<Rightarrow> canContainNUL (nilGetType (MapGetKey m)) \<or> canContainNUL (nilGetType (MapGetValue m))
      | DataType_Json _ \<Rightarrow> True
      | _ \<Rightarrow> False)"
  by pat_completeness auto
termination
  by (relation "measure (size_option size)") (auto simp: kindChildren_def intro!: size_nilGetType)

definition pg_mapType :: "data_type \<Rightarrow> pg_type_error + pg_mapped" where
  "pg_mapType t =
     (case GetKind t of
        DataType_Primitive p \<Rightarrow> pg_mapPrimitive (PrimitiveGetKind p)
      | DataType_Enum e \<Rightarrow>
          if EnumGetClosed e
          then Inr (''INTEGER'', MAPPING_COMPATIBILITY_RANGE_WIDENED,
            ''closed protobuf enum numbers map to unconstrained PostgreSQL INTEGER; the column admits undeclared values'')
          else Inr (''INTEGER'', MAPPING_COMPATIBILITY_LOSSLESS,
            ''open protobuf enum numbers map losslessly to PostgreSQL INTEGER'')
      | DataType_Timestamp _ \<Rightarrow> Inr (''TIMESTAMPTZ'', MAPPING_COMPATIBILITY_PRECISION_REDUCED,
          ''PostgreSQL TIMESTAMPTZ retains the protobuf Timestamp range and UTC instant semantics but reduces nanoseconds to microseconds'')
      | DataType_Duration _ \<Rightarrow> Inr (''BIGINT'', MAPPING_COMPATIBILITY_RANGE_REDUCED,
          ''PostgreSQL has no exact protobuf Duration type; exact nanoseconds use BIGINT, whose range is narrower than protobuf Duration'')
      | DataType_Struct _ \<Rightarrow>
          if canContainNUL (Some t)
          then Inr (''JSONB'', MAPPING_COMPATIBILITY_RANGE_REDUCED,
            ''nested protobuf message is stored as one JSONB column; PostgreSQL JSONB cannot represent the protobuf string value U+0000'')
          else Inr (''JSONB'', MAPPING_COMPATIBILITY_REPRESENTATION_CHANGED,
            ''nested protobuf message is stored as one JSONB column'')
      | DataType_List l \<Rightarrow>
          if ListGetFixedLength l \<noteq> 0
          then Inr (''JSONB'', MAPPING_COMPATIBILITY_RANGE_WIDENED,
            ''fixed-cardinality protobuf repeated field is stored as JSONB with an exact top-level array-length check of ''
              @ FormatUint (ListGetFixedLength l)
              @ ''; PostgreSQL does not enforce the protobuf float element domain inside JSONB'')
          else if canContainNUL (Some t)
          then Inr (''JSONB'', MAPPING_COMPATIBILITY_RANGE_REDUCED,
            ''protobuf repeated field is stored as one JSONB array column; PostgreSQL JSONB cannot represent the protobuf string value U+0000'')
          else Inr (''JSONB'', MAPPING_COMPATIBILITY_REPRESENTATION_CHANGED,
            ''protobuf repeated field is stored as one JSONB array column'')
      | DataType_Map _ \<Rightarrow>
          if canContainNUL (Some t)
          then Inr (''JSONB'', MAPPING_COMPATIBILITY_RANGE_REDUCED,
            ''protobuf map is stored as one JSONB object column; PostgreSQL JSONB cannot represent the protobuf string value U+0000'')
          else Inr (''JSONB'', MAPPING_COMPATIBILITY_REPRESENTATION_CHANGED,
            ''protobuf map is stored as one JSONB object column'')
      | DataType_Json j \<Rightarrow> Inr (''JSONB'', MAPPING_COMPATIBILITY_RANGE_REDUCED,
          ''protobuf '' @ jsonKindString (JsonGetKind j)
            @ '' is encoded with protobuf JSON semantics in PostgreSQL JSONB, which cannot represent the protobuf string value U+0000; ''
            @ jsonRangeReduction (JsonGetKind j))
      | DataType_Decimal d \<Rightarrow>
          andThen (mapErr PgParameter (decimalParameters d)) (\<lambda>(precision, scale).
          Inr (''NUMERIC('' @ FormatUint precision @ '','' @ FormatUint scale @ '')'',
            MAPPING_COMPATIBILITY_REPRESENTATION_CHANGED,
            ''canonical decimal text is decoded into PostgreSQL NUMERIC('' @ FormatUint precision @ '','' @ FormatUint scale
              @ ''); precision and scale are preserved but the representation changes''))
      | DataType_Uuid u \<Rightarrow>
          if u = None then Inl PgInvalidUuid
          else Inr (''UUID'', MAPPING_COMPATIBILITY_REPRESENTATION_CHANGED,
            ''canonical UUID text is decoded into PostgreSQL UUID'')
      | DataType_FixedBytes b \<Rightarrow>
          andThen (mapErr PgParameter (fixedByteWidth maxInt32 b)) (\<lambda>width.
          Inr (''BYTEA'', MAPPING_COMPATIBILITY_LOSSLESS,
            ''exact-width protobuf bytes map losslessly to PostgreSQL BYTEA with an octet_length check of '' @ FormatUint width))
      | Kind_nil \<Rightarrow> Inl PgUnspecifiedType)"

section \<open>Defaults\<close>

definition pg_implicitDefault :: "data_type \<Rightarrow> string" where
  "pg_implicitDefault t =
     (if GetEnum (Some t) \<noteq> None then ''0''
      else case GetPrimitive (Some t) of
             None \<Rightarrow> []
           | Some p \<Rightarrow>
               if p = PRIMITIVE_KIND_BOOL then ''FALSE''
               else if p = PRIMITIVE_KIND_STRING then [CHR 0x27, CHR 0x27]
               else if p = PRIMITIVE_KIND_BYTES then [CHR 0x27, CHR 0x5C, CHR ''x'', CHR 0x27] @ ''::bytea''
               else ''0'')"

definition pg_defaultExpression :: "field \<Rightarrow> data_type \<Rightarrow> pg_type_error + string" where
  "pg_defaultExpression f t =
     (case GetPresence f of
        PRESENCE_REPEATED \<Rightarrow>
          if GetList (Some t) \<noteq> None \<and> ListGetFixedLength (GetList (Some t)) \<noteq> 0 then Inr []
          else Inr ([CHR 0x27] @ ''[]'' @ [CHR 0x27] @ ''::jsonb'')
      | PRESENCE_MAP \<Rightarrow> Inr ([CHR 0x27] @ ''{}'' @ [CHR 0x27] @ ''::jsonb'')
      | PRESENCE_IMPLICIT \<Rightarrow>
          if GetDecimal (Some t) \<noteq> None \<or> GetUuid (Some t) \<noteq> None \<or> GetFixedBytes (Some t) \<noteq> None
          then Inl PgImplicitRefined
          else Inr (pg_implicitDefault t)
      | _ \<Rightarrow> Inr [])"

section \<open>Diagnostics of nested fields\<close>

definition pg_embedded :: "data_type \<Rightarrow> string \<Rightarrow> mapping_diagnostic" where
  "pg_embedded t path =
     (let message = ''logical child is embedded in its parent PostgreSQL JSONB column rather than projected as a relational column''
      in if GetList (Some t) \<noteq> None \<and> ListGetFixedLength (GetList (Some t)) \<noteq> 0
         then \<lparr>field_path = path, compatibility = MAPPING_COMPATIBILITY_RANGE_WIDENED,
               diag_message = ''fixed-cardinality logical child is embedded in its parent PostgreSQL JSONB column; the nested JSONB representation does not enforce length ''
                 @ FormatUint (ListGetFixedLength (GetList (Some t)))\<rparr>
         else if canContainNUL (Some t)
         then \<lparr>field_path = path, compatibility = MAPPING_COMPATIBILITY_RANGE_REDUCED,
               diag_message = message @ ''; PostgreSQL JSONB cannot represent the protobuf string value U+0000''\<rparr>
         else \<lparr>field_path = path, compatibility = MAPPING_COMPATIBILITY_REPRESENTATION_CHANGED, diag_message = message\<rparr>)"

text \<open>The closure \<^verbatim>\<open>addEmbedded\<close> appends to the diagnostics; the function returns what it appends.\<close>

function pg_addEmbedded :: "field option \<Rightarrow> string \<Rightarrow> mapping_diagnostic list" where
  "pg_addEmbedded None path = []"
| "pg_addEmbedded (Some f) path =
     (case GetType f of
        None \<Rightarrow> []
      | Some t \<Rightarrow> pg_embedded t path #
          (case GetKind t of
             DataType_Struct s \<Rightarrow>
               concat (map (\<lambda>child. pg_addEmbedded child (joinPath path (nilGetName child))) (StructGetFields s))
           | DataType_List l \<Rightarrow> pg_addEmbedded (ListGetElement l) (path @ ''[]'')
           | DataType_Map m \<Rightarrow>
               pg_addEmbedded (MapGetKey m) (path @ ''.key'') @ pg_addEmbedded (MapGetValue m) (path @ ''.value'')
           | _ \<Rightarrow> []))"
  by pat_completeness auto
termination
  by (relation "measure (\<lambda>(f, _). size_option size f)") (auto intro!: size_kindChildren_option simp: kindChildren_def)

definition pg_nestedDiagnostics :: "data_type \<Rightarrow> string \<Rightarrow> mapping_diagnostic list" where
  "pg_nestedDiagnostics t path =
     (case GetKind t of
        DataType_Struct s \<Rightarrow>
          concat (map (\<lambda>child. pg_addEmbedded child (joinPath path (nilGetName child))) (StructGetFields s))
      | DataType_List l \<Rightarrow> pg_addEmbedded (ListGetElement l) (path @ ''[]'')
      | DataType_Map m \<Rightarrow>
          pg_addEmbedded (MapGetKey m) (path @ ''.key'') @ pg_addEmbedded (MapGetValue m) (path @ ''.value'')
      | _ \<Rightarrow> [])"

section \<open>Columns\<close>

record pg_column =
  col_name :: string
  col_description :: string
  col_sqlType :: string
  col_defaultSQL :: string
  col_notNull :: bool
  col_oneof :: string
  col_fixedBytes :: nat
  col_fixedList :: nat

datatype pg_error =
    PgNilDataset
  | PgDatasetName pg_text_error
  | PgDatasetDescription pg_text_error
  | PgFieldNoType
  | PgFieldName string pg_text_error
  | PgSameIdentifier string string string
  | PgFieldDescription string pg_text_error
  | PgFieldType string pg_type_error
  | PgFixedBytesCheck string pg_text_error
  | PgFixedListCheck string pg_text_error
  | PgOneofCheck string pg_text_error

text \<open>One round of the loop over the fields: the column and the diagnostics of one field, with the map
  \<^verbatim>\<open>seenNames\<close>.\<close>

definition pg_field ::
    "(string \<Rightarrow> string) \<Rightarrow> (string \<times> string) list \<Rightarrow> field option
     \<Rightarrow> pg_error + (pg_column \<times> mapping_diagnostic list) \<times> (string \<times> string) list" where
  "pg_field sha256 seenNames field =
     (case field of
        None \<Rightarrow> Inl PgFieldNoType
      | Some f \<Rightarrow>
          (case GetType f of
             None \<Rightarrow> Inl PgFieldNoType
           | Some t \<Rightarrow>
               andThen (mapErr (PgFieldName (GetProtoFullName f)) (pg_identifier sha256 (GetName f))) (\<lambda>name.
               case map_of seenNames name of
                 Some previous \<Rightarrow> Inl (PgSameIdentifier previous (GetName f) name)
               | None \<Rightarrow>
                   andThen (mapErr (PgFieldDescription (GetName f)) (pg_validateText (GetDescription f))) (\<lambda>_.
                   andThen (mapErr (PgFieldType (GetName f)) (pg_mapType t)) (\<lambda>(typeName, level, message).
                   andThen (mapErr (PgFieldType (GetName f)) (pg_defaultExpression f t)) (\<lambda>defaultSQL.
                   Inr ((\<lparr>col_name = name, col_description = GetDescription f, col_sqlType = typeName,
                          col_defaultSQL = defaultSQL, col_notNull = (\<not> GetNullable f), col_oneof = GetOneof f,
                          col_fixedBytes = FixedBytesGetByteLength (GetFixedBytes (Some t)),
                          col_fixedList = ListGetFixedLength (GetList (Some t))\<rparr>,
                         \<lparr>field_path = GetName f, compatibility = level, diag_message = message\<rparr>
                           # pg_nestedDiagnostics t (GetName f)),
                        AList.update name (GetName f) seenNames)))))))"

definition pg_columns ::
    "(string \<Rightarrow> string) \<Rightarrow> field option list
     \<Rightarrow> (pg_error \<times> mapping_diagnostic list) + pg_column list \<times> mapping_diagnostic list" where
  "pg_columns sha256 fs =
     andThen (foldE (\<lambda>(columns, diagnostics, seenNames) f.
         andThen (mapErr (\<lambda>e. (e, diagnostics)) (pg_field sha256 seenNames f)) (\<lambda>((col, ds), seenNames').
         Inr (columns @ [col], diagnostics @ ds, seenNames'))) ([], [], []) fs)
       (\<lambda>(columns, diagnostics, _). Inr (columns, diagnostics))"

section \<open>Checks of oneofs\<close>

text \<open>The members of every oneof, and the oneofs in the order of their first member.\<close>

definition pg_groups :: "pg_column list \<Rightarrow> (string \<times> string list) list \<times> string list" where
  "pg_groups columns =
     foldl (\<lambda>st (g, m). addMember g m st) ([], []) (map (\<lambda>col. (col_oneof col, col_name col)) columns)"

definition pg_oneofCheck :: "string \<Rightarrow> string list \<Rightarrow> string" where
  "pg_oneofCheck constraint members =
     ''  CONSTRAINT '' @ pg_quoteIdentifier constraint @ '' CHECK (num_nonnulls(''
       @ join '', '' (map pg_quoteIdentifier members) @ '') <= 1)''"

definition pg_oneofChecks ::
    "(string \<Rightarrow> string) \<Rightarrow> string \<Rightarrow> pg_column list \<Rightarrow> pg_error + string list" where
  "pg_oneofChecks sha256 tableName columns =
     (let (groups, order) = pg_groups columns
      in foldE (\<lambda>checks oneof.
           let members = (case map_of groups oneof of None \<Rightarrow> [] | Some ms \<Rightarrow> ms)
           in if length members < 2 then Inr checks
              else andThen (mapErr (PgOneofCheck oneof) (pg_identifier sha256 (tableName @ ''_'' @ oneof @ ''_oneof_check'')))
                (\<lambda>constraint. Inr (checks @ [pg_oneofCheck constraint members])))
         [] order)"

section \<open>The statement\<close>

definition pg_fixedBytesCheck ::
    "(string \<Rightarrow> string) \<Rightarrow> string \<Rightarrow> pg_column \<Rightarrow> pg_error + string" where
  "pg_fixedBytesCheck sha256 tableName col =
     (if col_fixedBytes col > 0 then
        andThen (mapErr (PgFixedBytesCheck (col_name col))
          (pg_identifier sha256 (tableName @ ''_'' @ col_name col @ ''_fixed_bytes_check''))) (\<lambda>constraint.
        Inr ('' CONSTRAINT '' @ pg_quoteIdentifier constraint @ '' CHECK (octet_length('' @ pg_quoteIdentifier (col_name col)
          @ '') = '' @ FormatUint (col_fixedBytes col) @ '')''))
      else Inr [])"

definition pg_fixedListCheck ::
    "(string \<Rightarrow> string) \<Rightarrow> string \<Rightarrow> pg_column \<Rightarrow> pg_error + string" where
  "pg_fixedListCheck sha256 tableName col =
     (if col_fixedList col > 0 then
        andThen (mapErr (PgFixedListCheck (col_name col))
          (pg_identifier sha256 (tableName @ ''_'' @ col_name col @ ''_fixed_list_check''))) (\<lambda>constraint.
        Inr ('' CONSTRAINT '' @ pg_quoteIdentifier constraint @ '' CHECK (CASE WHEN jsonb_typeof(''
          @ pg_quoteIdentifier (col_name col) @ '') = '' @ [CHR 0x27] @ ''array'' @ [CHR 0x27] @ '' THEN jsonb_array_length(''
          @ pg_quoteIdentifier (col_name col) @ '') = '' @ FormatUint (col_fixedList col) @ '' ELSE FALSE END)''))
      else Inr [])"

definition pg_definition :: "(string \<Rightarrow> string) \<Rightarrow> string \<Rightarrow> pg_column \<Rightarrow> pg_error + string" where
  "pg_definition sha256 tableName col =
     andThen (pg_fixedBytesCheck sha256 tableName col) (\<lambda>bytesCheck.
     andThen (pg_fixedListCheck sha256 tableName col) (\<lambda>listCheck.
     Inr (''  '' @ pg_quoteIdentifier (col_name col) @ '' '' @ col_sqlType col
       @ (if col_notNull col then '' NOT NULL'' else [])
       @ (if col_defaultSQL col \<noteq> [] then '' DEFAULT '' @ col_defaultSQL col else [])
       @ bytesCheck @ listCheck)))"

definition pg_columnComment :: "string \<Rightarrow> pg_column \<Rightarrow> string" where
  "pg_columnComment tableName col =
     (if col_description col \<noteq> []
      then ''COMMENT ON COLUMN '' @ pg_quoteIdentifier tableName @ ''.'' @ pg_quoteIdentifier (col_name col)
        @ '' IS '' @ pg_quoteLiteral (col_description col) @ '';'' @ [CHR 0x0A]
      else [])"

definition pg_statement :: "string \<Rightarrow> string \<Rightarrow> string list \<Rightarrow> pg_column list \<Rightarrow> string" where
  "pg_statement tableName comment definitions columns =
     ''CREATE TABLE '' @ pg_quoteIdentifier tableName @ '' ('' @ [CHR 0x0A]
       @ join ('','' @ [CHR 0x0A]) definitions @ [CHR 0x0A] @ '');'' @ [CHR 0x0A]
       @ (if comment \<noteq> []
          then ''COMMENT ON TABLE '' @ pg_quoteIdentifier tableName @ '' IS '' @ pg_quoteLiteral comment @ '';'' @ [CHR 0x0A]
          else [])
       @ concat (map (pg_columnComment tableName) columns)"

definition PostgresDDL ::
    "(string \<Rightarrow> string) \<Rightarrow> dataset_schema option
     \<Rightarrow> (pg_error \<times> mapping_diagnostic list) + string \<times> mapping_diagnostic list" where
  "PostgresDDL sha256 dataset =
     (case dataset of
        None \<Rightarrow> Inl (PgNilDataset, [])
      | Some ds \<Rightarrow>
          andThen (mapErr (\<lambda>e. (PgDatasetName e, [])) (pg_identifier sha256 (ds_name ds))) (\<lambda>tableName.
          andThen (mapErr (\<lambda>e. (PgDatasetDescription e, [])) (pg_validateText (ds_description ds))) (\<lambda>_.
          andThen (pg_columns sha256 (ds_fields ds)) (\<lambda>(columns, diagnostics).
          andThen (mapErr (\<lambda>e. (e, diagnostics)) (pg_oneofChecks sha256 tableName columns)) (\<lambda>checks.
          andThen (mapErr (\<lambda>e. (e, diagnostics)) (foldE (\<lambda>definitions col.
              andThen (pg_definition sha256 tableName col) (\<lambda>d. Inr (definitions @ [d]))) [] columns)) (\<lambda>definitions.
          Inr (pg_statement tableName (ds_description ds) (definitions @ checks) columns, diagnostics)))))))"

end
