(* ===== verification/Postgres_Properties.thy ===== *)
theory Postgres_Properties
  imports Postgres Compiler_Shape Examples
begin

text \<open>
  The properties of the PostgreSQL dialect: identifiers are short, valid and distinct, the statement is
  read back exactly as intended whatever stands in names and descriptions, every oneof of two or more
  columns has its check, every logical field has a diagnostic, and compiled schemas are accepted.
\<close>

text \<open>What a column owes to its field.\<close>

definition pg_columnOf :: "(string \<Rightarrow> string) \<Rightarrow> field option \<Rightarrow> pg_column \<Rightarrow> bool" where
  "pg_columnOf sha256 f col \<longleftrightarrow>
     (\<exists>g t message level. f = Some g \<and> GetType g = Some t \<and> pg_identifier sha256 (GetName g) = Inr (col_name col)
        \<and> pg_mapType t = Inr (col_sqlType col, level, message) \<and> pg_defaultExpression g t = Inr (col_defaultSQL col)
        \<and> col_description col = GetDescription g \<and> col_oneof col = GetOneof g \<and> col_notNull col = (\<not> GetNullable g)
        \<and> col_fixedBytes col = FixedBytesGetByteLength (GetFixedBytes (Some t))
        \<and> col_fixedList col = ListGetFixedLength (GetList (Some t)))"

text \<open>The oneofs with a name, in the order of their first column, and the columns of one.\<close>

definition pg_oneofs :: "pg_column list \<Rightarrow> string list" where
  "pg_oneofs columns = groupNames (map (\<lambda>col. (col_oneof col, col_name col)) columns)"

definition pg_members :: "pg_column list \<Rightarrow> string \<Rightarrow> string list" where
  "pg_members columns = groupMembers (map (\<lambda>col. (col_oneof col, col_name col)) columns)"

text \<open>A column of a field with its type.\<close>

definition pg_columnFor :: "(string \<Rightarrow> string) \<Rightarrow> field \<times> data_type \<Rightarrow> pg_column \<Rightarrow> bool" where
  "pg_columnFor sha256 = (\<lambda>(f, t) col. GetType f = Some t \<and> pg_columnOf sha256 (Some f) col)"

definition identifierOf :: "(string \<Rightarrow> string) \<Rightarrow> string \<Rightarrow> string" where
  "identifierOf sha256 v = (case pg_identifier sha256 v of Inr w \<Rightarrow> w | Inl _ \<Rightarrow> [])"

text \<open>The statement of a dataset, part by part, from the dataset alone. The SQL type of every logical
  type:\<close>

definition pg_sqlType :: "data_type \<Rightarrow> string" where
  "pg_sqlType t =
     (case GetKind t of
        DataType_Primitive p \<Rightarrow>
          (let k = PrimitiveGetKind p
           in if k = PRIMITIVE_KIND_DOUBLE then ''DOUBLE PRECISION''
              else if k = PRIMITIVE_KIND_FLOAT then ''REAL''
              else if k = PRIMITIVE_KIND_BOOL then ''BOOLEAN''
              else if k = PRIMITIVE_KIND_STRING then ''TEXT''
              else if k = PRIMITIVE_KIND_BYTES then ''BYTEA''
              else if k \<in> {PRIMITIVE_KIND_UINT64, PRIMITIVE_KIND_FIXED64} then ''NUMERIC(20,0)''
              else if k \<in> {PRIMITIVE_KIND_INT32, PRIMITIVE_KIND_SINT32, PRIMITIVE_KIND_SFIXED32} then ''INTEGER''
              else ''BIGINT'')
      | DataType_Enum _ \<Rightarrow> ''INTEGER''
      | DataType_Timestamp _ \<Rightarrow> ''TIMESTAMPTZ''
      | DataType_Duration _ \<Rightarrow> ''BIGINT''
      | DataType_Decimal d \<Rightarrow>
          ''NUMERIC('' @ FormatUint (DecimalGetPrecision d) @ '','' @ FormatUint (DecimalGetScale d) @ '')''
      | DataType_Uuid _ \<Rightarrow> ''UUID''
      | DataType_FixedBytes _ \<Rightarrow> ''BYTEA''
      | _ \<Rightarrow> ''JSONB'')"

text \<open>The protobuf default of a type without explicit presence: the zero number, the empty text and
  the empty bytes; an empty JSON array or object for repeated fields and maps.\<close>

definition pg_zero :: "data_type \<Rightarrow> sql_part list" where
  "pg_zero t =
     (case GetKind t of
        DataType_Enum (Some _) \<Rightarrow> sqlText ''0''
      | DataType_Primitive (Some PRIMITIVE_KIND_BOOL) \<Rightarrow> sqlText ''FALSE''
      | DataType_Primitive (Some PRIMITIVE_KIND_STRING) \<Rightarrow> [SqlLiteral []]
      | DataType_Primitive (Some PRIMITIVE_KIND_BYTES) \<Rightarrow> [SqlLiteral [CHR 0x5C, CHR ''x'']] @ sqlText ''::bytea''
      | DataType_Primitive (Some _) \<Rightarrow> sqlText ''0''
      | _ \<Rightarrow> [])"

definition pg_defaultSpec :: "field \<Rightarrow> data_type \<Rightarrow> sql_part list" where
  "pg_defaultSpec f t =
     (case GetPresence f of
        PRESENCE_REPEATED \<Rightarrow>
          if ListGetFixedLength (GetList (Some t)) = 0 then [SqlLiteral ''[]''] @ sqlText ''::jsonb'' else []
      | PRESENCE_MAP \<Rightarrow> [SqlLiteral ''{}''] @ sqlText ''::jsonb''
      | PRESENCE_IMPLICIT \<Rightarrow> pg_zero t
      | _ \<Rightarrow> [])"

definition pg_constraint :: "string \<Rightarrow> sql_part list \<Rightarrow> sql_part list" where
  "pg_constraint name condition =
     sqlText '' CONSTRAINT '' @ [SqlIdent name] @ sqlText '' CHECK ('' @ condition @ sqlText '')''"

text \<open>The checks of a column: exactly \<open>n\<close> bytes for fixed bytes, and a JSON array of exactly \<open>n\<close>
  elements for a list of fixed length.\<close>

definition pg_widthSpec :: "(string \<Rightarrow> string) \<Rightarrow> string \<Rightarrow> string \<Rightarrow> nat \<Rightarrow> sql_part list" where
  "pg_widthSpec sha256 table name n =
     (if n = 0 then []
      else pg_constraint (identifierOf sha256 (table @ ''_'' @ name @ ''_fixed_bytes_check''))
        (sqlText ''octet_length('' @ [SqlIdent name] @ sqlText ('') = '' @ FormatUint n)))"

definition pg_lengthSpec :: "(string \<Rightarrow> string) \<Rightarrow> string \<Rightarrow> string \<Rightarrow> nat \<Rightarrow> sql_part list" where
  "pg_lengthSpec sha256 table name n =
     (if n = 0 then []
      else pg_constraint (identifierOf sha256 (table @ ''_'' @ name @ ''_fixed_list_check''))
        (sqlText ''CASE WHEN jsonb_typeof('' @ [SqlIdent name] @ sqlText '') = '' @ [SqlLiteral ''array'']
         @ sqlText '' THEN jsonb_array_length('' @ [SqlIdent name] @ sqlText ('') = '' @ FormatUint n @ '' ELSE FALSE END'')))"

definition pg_columnSpec :: "(string \<Rightarrow> string) \<Rightarrow> string \<Rightarrow> field \<times> data_type \<Rightarrow> sql_part list" where
  "pg_columnSpec sha256 table = (\<lambda>(f, t).
     let name = identifierOf sha256 (GetName f)
     in sqlText ''  '' @ [SqlIdent name] @ sqlText ('' '' @ pg_sqlType t)
        @ (if GetNullable f then [] else sqlText '' NOT NULL'')
        @ (if pg_defaultSpec f t = [] then [] else sqlText '' DEFAULT '' @ pg_defaultSpec f t)
        @ pg_widthSpec sha256 table name (FixedBytesGetByteLength (GetFixedBytes (Some t)))
        @ pg_lengthSpec sha256 table name (ListGetFixedLength (GetList (Some t))))"

text \<open>A oneof of two columns or more: at most one of them is not null.\<close>

definition pg_oneofMembers :: "(string \<Rightarrow> string) \<Rightarrow> dataset_schema \<Rightarrow> (string \<times> string) list" where
  "pg_oneofMembers sha256 ds =
     map (\<lambda>(f, _). (GetOneof f, identifierOf sha256 (GetName f))) (typedFields (ds_fields ds))"

definition pg_oneofSpec :: "(string \<Rightarrow> string) \<Rightarrow> string \<Rightarrow> (string \<times> string) list \<Rightarrow> string \<Rightarrow> sql_part list" where
  "pg_oneofSpec sha256 table xs o' =
     sqlText '' '' @ pg_constraint (identifierOf sha256 (table @ ''_'' @ o' @ ''_oneof_check''))
       (sqlText ''num_nonnulls('' @ sepBy (sqlText '', '') (map (\<lambda>m. [SqlIdent m]) (groupMembers xs o')) @ sqlText '') <= 1'')"

definition pg_commentSpec :: "(string \<Rightarrow> string) \<Rightarrow> string \<Rightarrow> field \<times> data_type \<Rightarrow> sql_part list" where
  "pg_commentSpec sha256 table = (\<lambda>(f, t).
     if GetDescription f = [] then []
     else sqlText ''COMMENT ON COLUMN '' @ [SqlIdent table] @ sqlText ''.'' @ [SqlIdent (identifierOf sha256 (GetName f))]
       @ sqlText '' IS '' @ [SqlLiteral (GetDescription f)] @ sqlText ('';'' @ [CHR 0x0A]))"

definition pg_spec :: "(string \<Rightarrow> string) \<Rightarrow> dataset_schema \<Rightarrow> sql_part list" where
  "pg_spec sha256 ds =
     (let table = identifierOf sha256 (ds_name ds);
          fs = typedFields (ds_fields ds);
          xs = pg_oneofMembers sha256 ds
      in sqlText ''CREATE TABLE '' @ [SqlIdent table] @ sqlText ('' ('' @ [CHR 0x0A])
         @ sepBy (sqlText ('','' @ [CHR 0x0A]))
             (map (pg_columnSpec sha256 table) fs
              @ map (pg_oneofSpec sha256 table xs) (filter (\<lambda>o'. 2 \<le> length (groupMembers xs o')) (groupNames xs)))
         @ sqlText ([CHR 0x0A] @ '');'' @ [CHR 0x0A])
         @ (if ds_description ds = [] then []
            else sqlText ''COMMENT ON TABLE '' @ [SqlIdent table] @ sqlText '' IS '' @ [SqlLiteral (ds_description ds)]
              @ sqlText ('';'' @ [CHR 0x0A]))
         @ concat (map (pg_commentSpec sha256 table) fs))"

text \<open>The texts of a dataset are fit for PostgreSQL: valid UTF-8 without NUL, and names that are not
  truncated.\<close>

definition pg_texts :: "dataset_schema \<Rightarrow> bool" where
  "pg_texts ds \<longleftrightarrow> ds_name ds \<noteq> [] \<and> pg_validateText (ds_name ds) = Inr () \<and> pg_validateText (ds_description ds) = Inr ()
     \<and> list_all (\<lambda>c. case c of None \<Rightarrow> True | Some f \<Rightarrow>
          length (GetName f) \<le> 63 \<and> pg_validateText (GetName f) = Inr () \<and> pg_validateText (GetDescription f) = Inr ()
          \<and> pg_validateText (GetOneof f) = Inr ()) (ds_fields ds)"

definition plainHash :: "string \<Rightarrow> string" where
  "plainHash v = replicate 32 CHR ''x''"

definition longName :: string where
  "longName = replicate 70 CHR ''n''"

definition postgresV1 :: "string \<times> mapping_diagnostic list" where
  "postgresV1 = (case PostgresDDL plainHash (Some schemaV1) of Inr r \<Rightarrow> r | Inl _ \<Rightarrow> ([], []))"

section \<open>Identifiers\<close>

lemma decodeRune_take: "decodeRune s = Some (r, n) \<Longrightarrow> decodeRune (take n s) = Some (r, n)"
  by (cases s) (auto split: if_splits list.splits)

lemma runes_valid: "ValidString s \<Longrightarrow> (r, u) \<in> set (runes s) \<Longrightarrow> ValidString u"
proof (induction s rule: runes.induct)
  case (1 s)
  show ?case
  proof (cases "s = []")
    case False
    with "1.prems"(1) obtain q n where d: "decodeRune s = Some (q, n)" and v: "ValidString (drop n s)"
      by (auto simp: ValidString.simps [of s] split: option.splits)
    have "ValidString (take n s)"
      using decodeRune_take [OF d] by (simp add: ValidString.simps [of "take n s"] ValidString.simps [of "[]"])
    with "1.prems"(2) False d "1.IH"(2) [OF False d refl v] show ?thesis
      by (auto simp: runes.simps [of s])
  qed (use "1.prems" in simp)
qed

lemma hexDigit_ascii:
  assumes "d < 16"
  shows "byteVal (hexDigit d) < 0x80 \<and> hexDigit d \<noteq> CHR 0x00"
proof -
  have "list_all (\<lambda>d. byteVal (hexDigit d) < 0x80 \<and> hexDigit d \<noteq> CHR 0x00) [0..<16]" by code_simp
  with assms show ?thesis by (simp add: list_all_iff)
qed

lemma hexEncode_facts:
  "length (hexEncode s) = 2 * length s" "ValidString (hexEncode s)" "CHR 0x00 \<notin> set (hexEncode s)"
proof -
  have "byteVal c < 0x80 \<and> c \<noteq> CHR 0x00" if "c \<in> set (hexEncode s)" for c
  proof -
    from that obtain b where "c = hexDigit (byteVal b div 16) \<or> c = hexDigit (byteVal b mod 16)"
      by (auto simp: hexEncode_def)
    moreover have "byteVal b div 16 < 16" by (rule less_mult_imp_div_less) simp
    ultimately show ?thesis using hexDigit_ascii by auto
  qed
  then show "ValidString (hexEncode s)" "CHR 0x00 \<notin> set (hexEncode s)" by (auto intro: ValidString_ascii)
  show "length (hexEncode s) = 2 * length s" by (induction s) (simp_all add: hexEncode_def)
qed

lemma pg_prefix_facts:
  assumes "\<And>r u. (r, u) \<in> set rs \<Longrightarrow> EncodeRune r = u \<and> RuneLen r = int (length u) \<and> ValidString u"
    and "int (length pre) \<le> limit" "ValidString pre"
  shows "int (length (pg_prefix limit pre (map fst rs))) \<le> limit \<and> ValidString (pg_prefix limit pre (map fst rs))
    \<and> set (pg_prefix limit pre (map fst rs)) \<subseteq> set pre \<union> set (concat (map snd rs))"
  using assms
proof (induction rs arbitrary: pre)
  case (Cons x rs)
  obtain r u where x: "x = (r, u)" by (cases x)
  with Cons.prems(1) have u: "EncodeRune r = u" "RuneLen r = int (length u)" "ValidString u" by auto
  show ?case
  proof (cases "int (length pre) + RuneLen r > limit")
    case False
    with u Cons.prems have "int (length (pre @ u)) \<le> limit" "ValidString (pre @ u)"
      by (auto intro: ValidString_append)
    from Cons.IH [OF _ this] Cons.prems(1) have
      "int (length (pg_prefix limit (pre @ u) (map fst rs))) \<le> limit
       \<and> ValidString (pg_prefix limit (pre @ u) (map fst rs))
       \<and> set (pg_prefix limit (pre @ u) (map fst rs)) \<subseteq> set (pre @ u) \<union> set (concat (map snd rs))" by auto
    with False show ?thesis by (auto simp: x u(1))
  qed (use Cons.prems x in auto)
qed auto

lemma pg_validateText_ok: "pg_validateText v = Inr () \<longleftrightarrow> ValidString v \<and> CHR 0x00 \<notin> set v"
  by (simp add: pg_validateText_def)

lemma pg_identifier_total:
  "(\<exists>w. pg_identifier sha256 v = Inr w) \<longleftrightarrow> v \<noteq> [] \<and> pg_validateText v = Inr ()"
  by (auto simp: pg_identifier_def andThen_eq_Inr Let_def)

lemma pg_identifier_facts:
  assumes "length (sha256 v) = 32" "pg_identifier sha256 v = Inr w"
  shows "w \<noteq> []" "length w \<le> 63" "ValidString w" "CHR 0x00 \<notin> set w" "length v \<le> 63 \<Longrightarrow> w = v"
proof -
  have v: "v \<noteq> []" "ValidString v" "CHR 0x00 \<notin> set v"
    using assms(2) pg_identifier_total [of sha256 v] by (auto simp: pg_validateText_ok)
  define suffix where "suffix = ''_'' @ hexEncode (take 6 (sha256 v))"
  define pre where "pre = pg_prefix (63 - int (length suffix)) [] (map fst (runes v))"
  have suffix: "length suffix = 13" "ValidString suffix" "CHR 0x00 \<notin> set suffix"
    using assms(1) ValidString_append [of "''_''"] hexEncode_facts [of "take 6 (sha256 v)"]
    by (auto simp: suffix_def ValidString_ascii byteVal_def)
  have "ValidString []" by (rule ValidString_ascii) simp
  then have "int (length pre) \<le> 63 - int (length suffix) \<and> ValidString pre \<and> set pre \<subseteq> set [] \<union> set (concat (map snd (runes v)))"
    unfolding pre_def using ValidString_runes [OF v(2)] runes_valid [OF v(2)] suffix(1)
    by (intro pg_prefix_facts) auto
  then have pre: "length pre \<le> 50" "ValidString pre" "CHR 0x00 \<notin> set pre"
    using v(3) suffix(1) by (auto simp: runes_concat)
  have w: "w = (if length v \<le> 63 then v else pre @ suffix)"
    using assms(2) v by (auto simp: pg_identifier_def pg_validateText_def maxIdentifierBytes_def pre_def suffix_def Let_def)
  show "w \<noteq> []" "length w \<le> 63" "ValidString w" "CHR 0x00 \<notin> set w" "length v \<le> 63 \<Longrightarrow> w = v"
    using v pre suffix ValidString_append [OF pre(2) suffix(2)] by (auto simp: w)
qed

section \<open>Diagnostics\<close>

lemma pg_addEmbedded_paths: "map field_path (pg_addEmbedded f path) = fieldPaths f path"
proof (induction f arbitrary: path rule: wf_induct_rule [OF wf_measure [of "size_option size"]])
  case (1 f)
  show ?case
  proof (cases "Option.bind f GetType")
    case (Some t)
    then obtain g where f: "f = Some g" "GetType g = Some t" by (auto simp: bind_eq_Some_conv)
    have "map field_path (pg_addEmbedded c p) = fieldPaths c p" if "(c, p) \<in> set (childPaths path (GetKind t))" for c p
      by (rule 1) (use size_childPaths_option [OF that f(2)] f(1) in simp)
    then have "map field_path (concat (map (\<lambda>(c, p). pg_addEmbedded c p) (childPaths path (GetKind t)))) =
        concat (map (\<lambda>(c, p). fieldPaths c p) (childPaths path (GetKind t)))"
      unfolding map_concat map_map comp_def by (intro arg_cong [where f = concat] map_cong [OF refl]) auto
    moreover have "field_path (pg_embedded t path) = path" by (simp add: pg_embedded_def Let_def)
    ultimately show ?thesis using f by (simp add: kindSwitch_childPaths [where g = pg_addEmbedded] del: map_concat)
  qed (cases f; simp)
qed

lemma pg_nestedDiagnostics_paths:
  "map field_path (pg_nestedDiagnostics t path) = concat (map (\<lambda>(c, p). fieldPaths c p) (childPaths path (GetKind t)))"
  unfolding pg_nestedDiagnostics_def kindSwitch_childPaths [where g = pg_addEmbedded] map_concat map_map comp_def
  by (rule arg_cong [where f = concat], rule map_cong [OF refl]) (auto simp: pg_addEmbedded_paths)

section \<open>Columns\<close>

lemma pg_field_cases:
  assumes "pg_field sha256 seen f = Inr ((col, ds), seen')"
  shows "pg_columnOf sha256 f col" "map field_path ds = fieldPaths f (nilGetName f)"
    "map_of seen (col_name col) = None" "fst ` set seen' = insert (col_name col) (fst ` set seen)"
  using assms
  by (auto simp: pg_field_def andThen_eq_Inr pg_columnOf_def pg_nestedDiagnostics_paths nilGetName_def
      update_new_map_of split: option.splits)

lemma pg_columns_facts:
  assumes "pg_columns sha256 fs = Inr (columns, diagnostics)"
  shows "list_all2 (pg_columnOf sha256) fs columns" "distinct (map col_name columns)"
    "map field_path diagnostics = concat (map (\<lambda>f. fieldPaths f (nilGetName f)) fs)"
proof -
  let ?step = "\<lambda>(columns, diagnostics, seenNames) f.
         andThen (mapErr (\<lambda>e. (e, diagnostics)) (pg_field sha256 seenNames f)) (\<lambda>((col, ds), seenNames').
         Inr (columns @ [col], diagnostics @ ds, seenNames'))"
  have "\<exists>more mds. cs' = cs @ more \<and> ds' = ds @ mds \<and> list_all2 (pg_columnOf sha256) fs more
      \<and> distinct (map col_name more) \<and> col_name ` set more \<inter> fst ` set seen = {}
      \<and> map field_path mds = concat (map (\<lambda>f. fieldPaths f (nilGetName f)) fs)"
    if "foldE ?step (cs, ds, seen) fs = Inr (cs', ds', seen')" for cs ds seen cs' ds' seen'
    using that
  proof (induction fs arbitrary: cs ds seen)
    case (Cons f fs)
    from Cons.prems obtain col d seen1 where f: "pg_field sha256 seen f = Inr ((col, d), seen1)"
      and rest: "foldE ?step (cs @ [col], ds @ d, seen1) fs = Inr (cs', ds', seen')"
      by (auto simp: andThen_eq_Inr)
    from Cons.IH [OF rest] obtain more mds where "cs' = (cs @ [col]) @ more" "ds' = (ds @ d) @ mds"
      "list_all2 (pg_columnOf sha256) fs more" "distinct (map col_name more)"
      "col_name ` set more \<inter> fst ` set seen1 = {}"
      "map field_path mds = concat (map (\<lambda>f. fieldPaths f (nilGetName f)) fs)" by blast
    with pg_field_cases [OF f] show ?case
      by (intro exI [of _ "col # more"] exI [of _ "d @ mds"]) (auto simp: map_of_eq_None_iff)
  qed simp
  from this [of "[]" "[]" "[]"] assms show "list_all2 (pg_columnOf sha256) fs columns" "distinct (map col_name columns)"
    "map field_path diagnostics = concat (map (\<lambda>f. fieldPaths f (nilGetName f)) fs)"
    by (auto simp: pg_columns_def andThen_eq_Inr)
qed

section \<open>Oneofs\<close>

lemma pg_groups_spec: "pg_groups columns = (map (\<lambda>o'. (o', pg_members columns o')) (pg_oneofs columns), pg_oneofs columns)"
  by (simp add: pg_groups_def addMember_all pg_oneofs_def pg_members_def)

lemma pg_oneofChecks_eq:
  assumes "pg_oneofChecks sha256 tableName columns = Inr checks"
  shows "list_all2 (\<lambda>o' check. \<exists>constraint.
      pg_identifier sha256 (tableName @ ''_'' @ o' @ ''_oneof_check'') = Inr constraint
      \<and> check = pg_oneofCheck constraint (pg_members columns o'))
    (filter (\<lambda>o'. 2 \<le> length (pg_members columns o')) (pg_oneofs columns)) checks"
    (is "list_all2 ?rel _ _")
proof -
  have "\<exists>more. checks' = done @ more \<and> list_all2 ?rel (filter (\<lambda>o'. 2 \<le> length (pg_members columns o')) os) more"
    if "foldE (\<lambda>checks oneof.
           let members = (case map_of (map (\<lambda>o'. (o', pg_members columns o')) (pg_oneofs columns)) oneof of
                            None \<Rightarrow> [] | Some ms \<Rightarrow> ms)
           in if length members < 2 then Inr checks
              else andThen (mapErr (PgOneofCheck oneof) (pg_identifier sha256 (tableName @ ''_'' @ oneof @ ''_oneof_check'')))
                (\<lambda>constraint. Inr (checks @ [pg_oneofCheck constraint members]))) done os = Inr checks'"
      and "set os \<subseteq> set (pg_oneofs columns)" for "done" os checks'
    using that
  proof (induction os arbitrary: "done")
    case (Cons o' os)
    show ?case
    proof (cases "length (pg_members columns o') < 2")
      case True
      with Cons show ?thesis by (simp add: map_of_keyed Let_def)
    next
      case False
      with Cons.prems obtain constraint where
        c: "pg_identifier sha256 (tableName @ ''_'' @ o' @ ''_oneof_check'') = Inr constraint"
        by (auto simp: map_of_keyed Let_def andThen_eq_Inr)
      with False Cons.prems Cons.IH [of "done @ [pg_oneofCheck constraint (pg_members columns o')]"]
      obtain more where "checks' = done @ pg_oneofCheck constraint (pg_members columns o') # more"
        "list_all2 ?rel (filter (\<lambda>o'. 2 \<le> length (pg_members columns o')) os) more"
        by (auto simp: map_of_keyed Let_def)
      with False c show ?thesis by auto
    qed
  qed simp
  from this [of "[]" "pg_oneofs columns" checks] assms show ?thesis
    by (simp add: pg_oneofChecks_def pg_groups_spec)
qed

section \<open>What the database reads back\<close>

lemma pg_quotes: "pg_quoteIdentifier v = doubleQuotes CHR 0x22 v" "pg_quoteLiteral v = doubleQuotes CHR 0x27 v"
  by (simp_all add: pg_quoteIdentifier_def pg_quoteLiteral_def doubleQuotes_def)

lemma pg_mapType_spec: "pg_mapType t = Inr (ty, level, message) \<Longrightarrow> ty = pg_sqlType t \<and> plainText ty"
proof (cases "GetKind t")
  case (DataType_Primitive p)
  assume "pg_mapType t = Inr (ty, level, message)"
  with DataType_Primitive show ?thesis
    by (cases "PrimitiveGetKind p") (auto simp: pg_mapType_def pg_mapPrimitive_def pg_sqlType_def Let_def)
next
  case (DataType_Decimal d)
  assume "pg_mapType t = Inr (ty, level, message)"
  with DataType_Decimal show ?thesis
    by (auto simp: pg_mapType_def pg_sqlType_def andThen_eq_Inr decimalParameters_def split: if_splits intro!: plainText_append)
qed (auto simp: pg_mapType_def pg_sqlType_def andThen_eq_Inr split: if_splits)

lemma pg_default_texts:
  "reads ''0'' (sqlText ''0'')" "reads ''FALSE'' (sqlText ''FALSE'')" "reads [CHR 0x27, CHR 0x27] [SqlLiteral []]"
  "reads ([CHR 0x27, CHR 0x5C, CHR ''x'', CHR 0x27] @ ''::bytea'') ([SqlLiteral [CHR 0x5C, CHR ''x'']] @ sqlText ''::bytea'')"
  "reads ([CHR 0x27] @ ''[]'' @ [CHR 0x27] @ ''::jsonb'') ([SqlLiteral ''[]''] @ sqlText ''::jsonb'')"
  "reads ([CHR 0x27] @ ''{}'' @ [CHR 0x27] @ ''::jsonb'') ([SqlLiteral ''{}''] @ sqlText ''::jsonb'')"
  by (rule reads_renderI [of _ "[Txt ''0'']"] reads_renderI [of _ "[Txt ''FALSE'']"] reads_renderI [of _ "[Lit []]"]
      reads_renderI [of _ "[Lit [CHR 0x5C, CHR ''x''], Txt ''::bytea'']"]
      reads_renderI [of _ "[Lit ''[]'', Txt ''::jsonb'']"] reads_renderI [of _ "[Lit ''{}'', Txt ''::jsonb'']"];
      simp add: doubleQuotes_plain)+

lemma pg_zero_reads:
  "reads (pg_implicitDefault t) (pg_zero t) \<and> (pg_implicitDefault t = [] \<longleftrightarrow> pg_zero t = [])"
proof (cases t)
  case (DataType doc k)
  show ?thesis
  proof (cases k)
    case (DataType_Primitive p)
    then show ?thesis using pg_default_texts unfolding DataType
      by (auto simp: pg_implicitDefault_def pg_zero_def GetEnum_def GetPrimitive_def reads_Nil
          split: option.splits primitive_kind.splits)
  next
    case (DataType_Enum e)
    then show ?thesis using pg_default_texts unfolding DataType
      by (auto simp: pg_implicitDefault_def pg_zero_def GetEnum_def GetPrimitive_def reads_Nil split: option.splits)
  qed (simp_all add: DataType pg_implicitDefault_def pg_zero_def GetEnum_def GetPrimitive_def reads_Nil)
qed

lemma pg_default_spec:
  assumes "pg_defaultExpression f t = Inr e"
  shows "reads e (pg_defaultSpec f t) \<and> (e = [] \<longleftrightarrow> pg_defaultSpec f t = [])"
  using assms pg_default_texts pg_zero_reads [of t]
  by (cases "GetPresence f")
    (auto simp: pg_defaultExpression_def pg_defaultSpec_def ListGetFixedLength_def reads_Nil split: if_splits option.splits)

lemma pg_fixedBytes_reads:
  assumes "pg_fixedBytesCheck sha256 table col = Inr b"
  shows "notQuote b \<and> reads b (pg_widthSpec sha256 table (col_name col) (col_fixedBytes col))"
proof (cases "col_fixedBytes col > 0")
  case True
  with assms obtain c where c: "pg_identifier sha256 (table @ ''_'' @ col_name col @ ''_fixed_bytes_check'') = Inr c"
    and b: "b = render [Txt '' CONSTRAINT '', Idn c, Txt '' CHECK (octet_length('', Idn (col_name col), Txt '') = '',
      Txt (FormatUint (col_fixedBytes col)), Txt '')'']"
    by (auto simp: pg_fixedBytesCheck_def andThen_eq_Inr pg_quotes)
  show ?thesis using reads_renderI [OF b] True c b by (simp add: identifierOf_def pg_widthSpec_def pg_constraint_def)
qed (use assms in \<open>simp add: pg_fixedBytesCheck_def pg_widthSpec_def reads_Nil\<close>)

lemma pg_fixedList_reads:
  assumes "pg_fixedListCheck sha256 table col = Inr b"
  shows "notQuote b \<and> reads b (pg_lengthSpec sha256 table (col_name col) (col_fixedList col))"
proof (cases "col_fixedList col > 0")
  case True
  with assms obtain c where c: "pg_identifier sha256 (table @ ''_'' @ col_name col @ ''_fixed_list_check'') = Inr c"
    and b: "b = render [Txt '' CONSTRAINT '', Idn c, Txt '' CHECK (CASE WHEN jsonb_typeof('', Idn (col_name col),
      Txt '') = '', Lit ''array'', Txt '' THEN jsonb_array_length('', Idn (col_name col), Txt '') = '',
      Txt (FormatUint (col_fixedList col)), Txt '' ELSE FALSE END)'']"
    by (auto simp: pg_fixedListCheck_def andThen_eq_Inr pg_quotes doubleQuotes_plain)
  show ?thesis using reads_renderI [OF b] True c b by (simp add: identifierOf_def pg_lengthSpec_def pg_constraint_def)
qed (use assms in \<open>simp add: pg_fixedListCheck_def pg_lengthSpec_def reads_Nil\<close>)

lemma pg_columnFor_cases:
  assumes "pg_columnFor sha256 (f, t) col"
  shows "col_name col = identifierOf sha256 (GetName f)" "col_sqlType col = pg_sqlType t" "plainText (col_sqlType col)"
    "reads (col_defaultSQL col) (pg_defaultSpec f t)" "col_defaultSQL col = [] \<longleftrightarrow> pg_defaultSpec f t = []"
    "col_description col = GetDescription f" "col_oneof col = GetOneof f" "col_notNull col \<longleftrightarrow> \<not> GetNullable f"
    "col_fixedBytes col = FixedBytesGetByteLength (GetFixedBytes (Some t))" "col_fixedList col = ListGetFixedLength (GetList (Some t))"
  using assms pg_mapType_spec [of t] pg_default_spec [of f t]
  by (auto simp: pg_columnFor_def pg_columnOf_def identifierOf_def)

lemma pg_definition_reads:
  assumes "pg_definition sha256 table col = Inr sql" and col: "pg_columnFor sha256 (f, t) col"
  shows "reads sql (pg_columnSpec sha256 table (f, t))"
proof -
  note facts = pg_columnFor_cases [OF col]
  define m where "m = '' '' @ pg_sqlType t @ (if GetNullable f then [] else '' NOT NULL'')
        @ (if pg_defaultSpec f t = [] then [] else '' DEFAULT '')"
  from assms(1) obtain b l where b: "pg_fixedBytesCheck sha256 table col = Inr b"
    and l: "pg_fixedListCheck sha256 table col = Inr l"
    and sql: "sql = ''  '' @ doubleQuotes CHR 0x22 (col_name col) @ m @ col_defaultSQL col @ b @ l"
    unfolding pg_definition_def m_def facts(1,2,8) by (cases "pg_defaultSpec f t = []") (auto simp: andThen_eq_Inr pg_quotes facts(5))
  note checks = pg_fixedBytes_reads [OF b] pg_fixedList_reads [OF l]
  let ?checks = "pg_widthSpec sha256 table (col_name col) (col_fixedBytes col) @ pg_lengthSpec sha256 table (col_name col) (col_fixedList col)"
  have "plainText m" unfolding m_def using facts(2,3) by (intro plainText_append) auto
  moreover have "notQuote (m @ col_defaultSQL col @ b @ l)" by (simp add: m_def)
  ultimately have "reads sql (sqlText ''  '' @ [SqlIdent (col_name col)] @ sqlText m @ pg_defaultSpec f t @ ?checks)"
    unfolding sql using checks by (intro reads_plain reads_append reads_ident facts(4)) (auto intro: notQuote_append)
  moreover have "sqlText ''  '' @ [SqlIdent (col_name col)] @ sqlText m @ pg_defaultSpec f t @ ?checks = pg_columnSpec sha256 table (f, t)"
    by (simp add: m_def pg_columnSpec_def facts Let_def)
  ultimately show ?thesis by simp
qed

lemma pg_oneofCheck_reads:
  assumes "pg_identifier sha256 (table @ ''_'' @ o' @ ''_oneof_check'') = Inr constraint"
  shows "reads (pg_oneofCheck constraint (groupMembers xs o')) (pg_oneofSpec sha256 table xs o')"
proof -
  let ?members = "groupMembers xs o'"
  have "list_all2 reads (map pg_quoteIdentifier ?members) (map (\<lambda>m. [SqlIdent m]) ?members)"
    by (auto simp: list_all2_conv_all_nth pg_quotes intro: reads_ident)
  then have "reads (join '', '' (map pg_quoteIdentifier ?members)) (sepBy (sqlText '', '') (map (\<lambda>m. [SqlIdent m]) ?members))"
    by (intro reads_join) auto
  then have "reads (''  CONSTRAINT '' @ doubleQuotes CHR 0x22 constraint @ '' CHECK (num_nonnulls(''
        @ join '', '' (map pg_quoteIdentifier ?members) @ '') <= 1)'')
      (sqlText ''  CONSTRAINT '' @ [SqlIdent constraint] @ sqlText '' CHECK (num_nonnulls(''
        @ sepBy (sqlText '', '') (map (\<lambda>m. [SqlIdent m]) ?members) @ sqlText '') <= 1)'')"
    by (intro reads_plain reads_append reads_ident reads_text) auto
  then show ?thesis
    using assms by (simp add: pg_oneofCheck_def pg_quotes pg_oneofSpec_def pg_constraint_def identifierOf_def)
qed

lemma pg_columnComment_reads:
  assumes "pg_columnFor sha256 (f, t) col"
  shows "notQuote (pg_columnComment table col) \<and> reads (pg_columnComment table col) (pg_commentSpec sha256 table (f, t))"
proof (cases "col_description col = []")
  case False
  then have sql: "pg_columnComment table col = render [Txt ''COMMENT ON COLUMN '', Idn table, Txt ''.'', Idn (col_name col),
      Txt '' IS '', Lit (col_description col), Txt ('';'' @ [CHR 0x0A])]"
    by (simp add: pg_columnComment_def pg_quotes)
  show ?thesis using reads_renderI [OF sql] False sql by (simp add: pg_commentSpec_def pg_columnFor_cases [OF assms])
qed (use pg_columnFor_cases(6) [OF assms] in \<open>simp add: pg_columnComment_def pg_commentSpec_def reads_Nil\<close>)

lemma pg_comments_reads:
  assumes "list_all2 (pg_columnFor sha256) fs columns"
  shows "notQuote (concat (map (pg_columnComment table) columns))
    \<and> reads (concat (map (pg_columnComment table) columns)) (concat (map (pg_commentSpec sha256 table) fs))"
  using assms
proof (induction rule: list_all2_induct)
  case (Cons x fs col columns)
  obtain f t where x: "x = (f, t)" by (cases x)
  with Cons show ?case using pg_columnComment_reads [of sha256 f t col table] by (auto intro!: reads_append notQuote_append)
qed (simp add: reads_Nil)

lemma pg_definitions_reads:
  assumes "list_all2 (pg_columnFor sha256) fs columns"
    and "foldE (\<lambda>definitions col. andThen (pg_definition sha256 table col) (\<lambda>d. Inr (definitions @ [d]))) ds columns = Inr ds'"
  shows "\<exists>more. ds' = ds @ more \<and> list_all2 reads more (map (pg_columnSpec sha256 table) fs)"
  using assms
proof (induction arbitrary: ds rule: list_all2_induct)
  case (Cons x fs col columns)
  obtain f t where x: "x = (f, t)" by (cases x)
  from Cons.prems obtain d where d: "pg_definition sha256 table col = Inr d"
    and rest: "foldE (\<lambda>definitions col. andThen (pg_definition sha256 table col) (\<lambda>d. Inr (definitions @ [d]))) (ds @ [d]) columns = Inr ds'"
    by (auto simp: andThen_eq_Inr)
  from Cons.IH [OF rest] obtain more where "ds' = (ds @ [d]) @ more"
    "list_all2 reads more (map (pg_columnSpec sha256 table) fs)" by auto
  with pg_definition_reads [OF d] Cons.hyps(1) show ?case by (intro exI [of _ "d # more"]) (auto simp: x)
qed simp

lemma pg_checks_reads:
  assumes "pg_oneofChecks sha256 table columns = Inr checks"
    and xs: "map (\<lambda>col. (col_oneof col, col_name col)) columns = xs"
  shows "list_all2 reads checks (map (pg_oneofSpec sha256 table xs)
             (filter (\<lambda>o'. 2 \<le> length (groupMembers xs o')) (groupNames xs)))"
proof -
  note pg_oneofChecks_eq [OF assms(1), unfolded pg_members_def pg_oneofs_def xs]
  then have "list_all2 (\<lambda>o' check. reads check (pg_oneofSpec sha256 table xs o'))
      (filter (\<lambda>o'. 2 \<le> length (groupMembers xs o')) (groupNames xs)) checks"
    by (rule list_all2_mono) (auto simp: pg_oneofCheck_reads)
  then show ?thesis by (simp add: list_all2_conv_all_nth)
qed

lemma pg_ddl_cases:
  assumes "PostgresDDL sha256 (Some ds) = Inr (ddl, diagnostics)"
  obtains tableName columns checks definitions where "pg_identifier sha256 (ds_name ds) = Inr tableName"
    "pg_columns sha256 (ds_fields ds) = Inr (columns, diagnostics)" "pg_oneofChecks sha256 tableName columns = Inr checks"
    "foldE (\<lambda>definitions col. andThen (pg_definition sha256 tableName col) (\<lambda>d. Inr (definitions @ [d]))) [] columns = Inr definitions"
    "ddl = pg_statement tableName (ds_description ds) (definitions @ checks) columns"
  using assms unfolding PostgresDDL_def by (auto simp: andThen_eq_Inr)

lemma pg_tableComment_reads:
  "reads (if comment \<noteq> []
      then ''COMMENT ON TABLE '' @ pg_quoteIdentifier table @ '' IS '' @ pg_quoteLiteral comment @ '';'' @ [CHR 0x0A]
      else []) (if comment = [] then [] else sqlText ''COMMENT ON TABLE '' @ [SqlIdent table] @ sqlText '' IS ''
        @ [SqlLiteral comment] @ sqlText ('';'' @ [CHR 0x0A]))"
proof (cases "comment = []")
  case False
  have "''COMMENT ON TABLE '' @ pg_quoteIdentifier table @ '' IS '' @ pg_quoteLiteral comment @ '';'' @ [CHR 0x0A] =
      render [Txt ''COMMENT ON TABLE '', Idn table, Txt '' IS '', Lit comment, Txt ('';'' @ [CHR 0x0A])]"
    by (simp add: pg_quotes)
  from reads_renderI [OF this] False show ?thesis by simp
qed (simp add: reads_Nil)

lemma pg_statement_reads:
  assumes "list_all2 reads definitions pss" and "list_all2 (pg_columnFor sha256) fs columns"
  shows "reads (pg_statement table comment definitions columns)
    (sqlText ''CREATE TABLE '' @ [SqlIdent table] @ sqlText ('' ('' @ [CHR 0x0A])
     @ sepBy (sqlText ('','' @ [CHR 0x0A])) pss @ sqlText ([CHR 0x0A] @ '');'' @ [CHR 0x0A])
     @ (if comment = [] then [] else sqlText ''COMMENT ON TABLE '' @ [SqlIdent table] @ sqlText '' IS ''
        @ [SqlLiteral comment] @ sqlText ('';'' @ [CHR 0x0A]))
     @ concat (map (pg_commentSpec sha256 table) fs))"
proof -
  have eq: "pg_statement table comment definitions columns =
      ''CREATE TABLE '' @ doubleQuotes CHR 0x22 table @ ('' ('' @ [CHR 0x0A])
       @ join ('','' @ [CHR 0x0A]) definitions @ ([CHR 0x0A] @ '');'' @ [CHR 0x0A])
       @ (if comment \<noteq> []
          then ''COMMENT ON TABLE '' @ pg_quoteIdentifier table @ '' IS '' @ pg_quoteLiteral comment @ '';'' @ [CHR 0x0A]
          else [])
       @ concat (map (pg_columnComment table) columns)"
    by (simp add: pg_statement_def pg_quotes)
  note comments = pg_comments_reads [OF assms(2), of table]
  show ?thesis unfolding eq
    by (intro reads_plain reads_append [OF reads_ident] reads_append [OF reads_join [OF _ _ assms(1)]]
        reads_append [OF pg_tableComment_reads conjunct1 [OF comments] conjunct2 [OF comments]]) auto
qed

lemma pg_ddl_reads:
  assumes "PostgresDDL sha256 (Some ds) = Inr (ddl, diagnostics)"
  shows "map (\<lambda>x. Some (fst x)) (typedFields (ds_fields ds)) = ds_fields ds \<and> sqlParts ddl = Some (pg_spec sha256 ds)"
  using assms
proof (rule pg_ddl_cases)
  fix table columns checks definitions
  assume table: "pg_identifier sha256 (ds_name ds) = Inr table"
    and columns: "pg_columns sha256 (ds_fields ds) = Inr (columns, diagnostics)"
    and checks: "pg_oneofChecks sha256 table columns = Inr checks"
    and definitions: "foldE (\<lambda>definitions col. andThen (pg_definition sha256 table col) (\<lambda>d. Inr (definitions @ [d]))) [] columns = Inr definitions"
    and ddl: "ddl = pg_statement table (ds_description ds) (definitions @ checks) columns"
  let ?fs = "typedFields (ds_fields ds)"
  have fs: "list_all2 (pg_columnFor sha256) ?fs columns \<and> map (\<lambda>x. Some (fst x)) ?fs = ds_fields ds"
    by (rule typedFields_related [OF pg_columns_facts(1) [OF columns]]) (auto simp: pg_columnOf_def pg_columnFor_def)
  then have "list_all2 (\<lambda>x col. (GetOneof (fst x), identifierOf sha256 (GetName (fst x))) = (col_oneof col, col_name col)) ?fs columns"
    by (auto elim!: list_all2_mono simp: pg_columnFor_cases)
  then have xs: "map (\<lambda>col. (col_oneof col, col_name col)) columns = pg_oneofMembers sha256 ds"
    by (simp add: pg_oneofMembers_def case_prod_beta list_eq_iff_nth_eq list_all2_conv_all_nth)
  have t: "identifierOf sha256 (ds_name ds) = table" using table by (simp add: identifierOf_def)
  have "list_all2 reads definitions (map (pg_columnSpec sha256 table) ?fs)"
    using pg_definitions_reads [OF conjunct1 [OF fs] definitions] by auto
  from list_all2_appendI [OF this pg_checks_reads [OF checks xs]] fs
  have "sqlParts ddl = Some (pg_spec sha256 ds)"
    unfolding ddl pg_spec_def Let_def t by (intro reads_whole pg_statement_reads) auto
  with fs show ?thesis by blast
qed

section \<open>Acceptance\<close>

lemma pg_mapType_ok: "compiledKind (GetKind t) \<Longrightarrow> \<exists>ty level message. pg_mapType t = Inr (ty, level, message)"
proof (cases "GetKind t")
  case (DataType_Primitive p)
  assume "compiledKind (GetKind t)"
  with DataType_Primitive show ?thesis
    by (cases p; cases "PrimitiveGetKind p") (auto simp: pg_mapType_def pg_mapPrimitive_def compiledKind_def PrimitiveGetKind_def Let_def)
qed (auto simp: pg_mapType_def compiledKind_def decimalParameters_def fixedByteWidth_def split: if_splits)

lemma pg_default_ok: "isMember f \<Longrightarrow> GetType f = Some t \<Longrightarrow> \<exists>e. pg_defaultExpression f t = Inr e"
  by (auto simp: isMember_def pg_defaultExpression_def split: presence.splits)

lemma pg_identifier_short:
  "pg_validateText v = Inr () \<Longrightarrow> v \<noteq> [] \<Longrightarrow> length v \<le> 63 \<Longrightarrow> pg_identifier sha256 v = Inr v"
  by (simp add: pg_identifier_def maxIdentifierBytes_def)

lemma pg_field_ok:
  assumes "compiledMember f" "GetName f \<noteq> []" "length (GetName f) \<le> 63" "pg_validateText (GetName f) = Inr ()"
    "pg_validateText (GetDescription f) = Inr ()" "map_of seen (GetName f) = None"
  shows "\<exists>col ds. pg_field sha256 seen (Some f) = Inr ((col, ds), AList.update (GetName f) (GetName f) seen)"
proof -
  from assms(1) have m: "isMember f" and "compiledNode f" by (auto simp: compiledMember_def dest: everyField_node)
  then obtain t where t: "GetType f = Some t" "compiledKind (GetKind t)" by (auto simp: compiledNode_def split: option.splits)
  with pg_mapType_ok obtain ty level message where "pg_mapType t = Inr (ty, level, message)" by blast
  moreover obtain e where "pg_defaultExpression f t = Inr e" using pg_default_ok [OF m t(1)] by blast
  moreover have "pg_identifier sha256 (GetName f) = Inr (GetName f)" using assms(2-4) by (simp add: pg_identifier_short)
  ultimately show ?thesis using assms(5,6) t(1) by (simp add: pg_field_def)
qed

lemma pg_columns_ok:
  assumes "compiledFields fs"
    and "\<And>f. Some f \<in> set fs \<Longrightarrow> length (GetName f) \<le> 63 \<and> pg_validateText (GetName f) = Inr () \<and> pg_validateText (GetDescription f) = Inr ()"
  shows "\<exists>r. pg_columns sha256 fs = Inr r"
proof -
  have "\<exists>r. foldE (\<lambda>(columns, diagnostics, seenNames) f.
         andThen (mapErr (\<lambda>e. (e, diagnostics)) (pg_field sha256 seenNames f)) (\<lambda>((col, ds), seenNames').
         Inr (columns @ [col], diagnostics @ ds, seenNames'))) (cs, ds, seen) gs = Inr r"
    if "set gs \<subseteq> set fs" "distinct (map nilGetName gs)" "nilGetName ` set gs \<inter> fst ` set seen = {}" for gs cs ds seen
    using that
  proof (induction gs arbitrary: cs ds seen)
    case (Cons g gs)
    then have g: "g \<in> set fs" by simp
    obtain f where f: "g = Some f" "compiledMember f" "Some f \<in> set fs" "GetName f \<noteq> []"
      using compiledFields_member [OF assms(1) g] g by blast
    have "map_of seen (GetName f) = None"
      using Cons.prems(3) by (auto simp: f(1) nilGetName_def map_of_eq_None_iff)
    then obtain col d where "pg_field sha256 seen (Some f) = Inr ((col, d), seen @ [(GetName f, GetName f)])"
      using pg_field_ok [OF f(2,4), of seen sha256] assms(2) [OF f(3)] by (auto simp: update_new_map_of)
    moreover have "nilGetName ` set gs \<inter> fst ` set (seen @ [(GetName f, GetName f)]) = {}"
      using Cons.prems by (auto simp: f(1) nilGetName_def)
    ultimately show ?case using Cons by (simp add: f(1))
  qed simp
  from this [of fs "[]" "[]" "[]"] assms(1) show ?thesis
    by (auto simp: pg_columns_def compiledFields_def)
qed

lemma pg_validateText_append:
  "pg_validateText s = Inr () \<Longrightarrow> pg_validateText t = Inr () \<Longrightarrow> pg_validateText (s @ t) = Inr ()"
  by (auto simp: pg_validateText_ok ValidString_append)

lemma pg_constraint_ok:
  assumes "pg_validateText table = Inr ()" "pg_validateText name = Inr ()" "list_all (\<lambda>c. 0 < byteVal c \<and> byteVal c < 0x80) suffix"
  shows "\<exists>w. pg_identifier sha256 (table @ ''_'' @ name @ suffix) = Inr w"
proof -
  have "pg_validateText suffix = Inr ()" "pg_validateText ''_'' = Inr ()"
    using assms(3) by (auto simp: pg_validateText_ok list_all_iff byteVal_def intro!: ValidString_ascii)
  with assms show ?thesis unfolding pg_identifier_total by (auto intro!: pg_validateText_append simp del: append.simps)
qed

lemma pg_definition_ok:
  "pg_validateText table = Inr () \<Longrightarrow> pg_validateText (col_name col) = Inr () \<Longrightarrow> \<exists>d. pg_definition sha256 table col = Inr d"
  using pg_constraint_ok [of table "col_name col" "''_fixed_bytes_check''" sha256]
    pg_constraint_ok [of table "col_name col" "''_fixed_list_check''" sha256]
  by (auto simp: pg_definition_def pg_fixedBytesCheck_def pg_fixedListCheck_def byteVal_def)

lemma pg_oneofChecks_ok:
  assumes "pg_validateText table = Inr ()" "\<And>col. col \<in> set columns \<Longrightarrow> pg_validateText (col_oneof col) = Inr ()"
  shows "\<exists>checks. pg_oneofChecks sha256 table columns = Inr checks"
proof -
  have loop: "\<exists>r. foldE (\<lambda>checks o'. if P o' then Inr checks
      else andThen (mapErr (PgOneofCheck o') (pg_identifier sha256 (table @ ''_'' @ o' @ ''_oneof_check'')))
        (\<lambda>constraint. Inr (checks @ [g o' constraint]))) cs os = Inr r"
    if "\<And>o'. o' \<in> set os \<Longrightarrow> pg_validateText o' = Inr ()" for P g cs os
    using that
  proof (induction os arbitrary: cs)
    case (Cons o' os)
    have "pg_validateText o' = Inr ()" by (rule Cons.prems) simp
    moreover have "list_all (\<lambda>c. 0 < byteVal c \<and> byteVal c < 0x80) ''_oneof_check''" by code_simp
    ultimately obtain w where w: "pg_identifier sha256 (table @ ''_'' @ o' @ ''_oneof_check'') = Inr w"
      using pg_constraint_ok [OF assms(1)] by blast
    have "\<And>o'. o' \<in> set os \<Longrightarrow> pg_validateText o' = Inr ()" by (rule Cons.prems) simp
    from Cons.IH [OF this] show ?case by (simp add: w del: append.simps)
  qed simp
  show ?thesis unfolding pg_oneofChecks_def pg_groups_spec prod.case Let_def
    by (rule loop) (use assms(2) in \<open>auto simp: pg_oneofs_def groupNames_def\<close>)
qed

lemma pg_definitions_ok:
  assumes "pg_validateText table = Inr ()" "\<And>col. col \<in> set columns \<Longrightarrow> pg_validateText (col_name col) = Inr ()"
  shows "\<exists>ds'. foldE (\<lambda>definitions col. andThen (pg_definition sha256 table col) (\<lambda>d. Inr (definitions @ [d]))) ds columns = Inr ds'"
  using assms(2)
proof (induction columns arbitrary: ds)
  case (Cons col columns)
  have "pg_validateText (col_name col) = Inr ()" by (rule Cons.prems) simp
  with pg_definition_ok [OF assms(1), of col] obtain d where "pg_definition sha256 table col = Inr d" by blast
  with Cons show ?case by simp
qed simp

lemma pg_ddl_ok:
  assumes sha: "\<And>v. length (sha256 v) = 32" and "compiledFields (ds_fields ds)" "pg_texts ds"
  shows "\<exists>r. PostgresDDL sha256 (Some ds) = Inr r"
proof -
  have fields: "length (GetName f) \<le> 63 \<and> pg_validateText (GetName f) = Inr () \<and> pg_validateText (GetDescription f) = Inr ()
      \<and> pg_validateText (GetOneof f) = Inr ()" if "Some f \<in> set (ds_fields ds)" for f
    using assms(3) that by (auto simp: pg_texts_def list_all_iff)
  obtain table where table: "pg_identifier sha256 (ds_name ds) = Inr table"
    using assms(3) pg_identifier_total [of sha256 "ds_name ds"] by (auto simp: pg_texts_def)
  then have valid: "pg_validateText table = Inr ()"
    using pg_identifier_facts [of sha256 "ds_name ds" table] sha by (simp add: pg_validateText_ok)
  obtain columns diagnostics where columns: "pg_columns sha256 (ds_fields ds) = Inr (columns, diagnostics)"
    using pg_columns_ok [OF assms(2), of sha256] fields by auto
  have col: "pg_validateText (col_name col) = Inr () \<and> pg_validateText (col_oneof col) = Inr ()" if c: "col \<in> set columns" for col
  proof -
    from list_all2_member [OF pg_columns_facts(1) [OF columns] c] obtain f where
      f: "f \<in> set (ds_fields ds)" "pg_columnOf sha256 f col" by blast
    then obtain g where "f = Some g" "pg_identifier sha256 (GetName g) = Inr (col_name col)" "col_oneof col = GetOneof g"
      by (auto simp: pg_columnOf_def)
    with fields f(1) pg_identifier_facts [of sha256 "GetName g" "col_name col"] sha show ?thesis
      by (simp add: pg_validateText_ok)
  qed
  obtain checks where "pg_oneofChecks sha256 table columns = Inr checks" using pg_oneofChecks_ok [OF valid] col by blast
  moreover obtain definitions where
    "foldE (\<lambda>definitions col. andThen (pg_definition sha256 table col) (\<lambda>d. Inr (definitions @ [d]))) [] columns = Inr definitions"
    using pg_definitions_ok [OF valid] col by blast
  ultimately show ?thesis using table columns assms(3) by (simp add: PostgresDDL_def pg_texts_def)
qed

section \<open>Properties\<close>

text \<open>(C26) A PostgreSQL identifier is not empty, has at most 63 bytes, is valid UTF-8 without NUL, and is
  the given name itself where that fits; it exists for every name that is not empty and valid.\<close>

theorem postgres_identifier_bounds:
  assumes "\<And>v. length (sha256 v) = 32" and "v \<noteq> []" "ValidString v" "CHR 0x00 \<notin> set v"
  shows "\<exists>w. pg_identifier sha256 v = Inr w \<and> w \<noteq> [] \<and> length w \<le> 63 \<and> ValidString w \<and> CHR 0x00 \<notin> set w
    \<and> (length v \<le> 63 \<longrightarrow> w = v)"
proof -
  obtain w where "pg_identifier sha256 v = Inr w"
    using assms(2-4) pg_identifier_total [of sha256 v] by (auto simp: pg_validateText_ok)
  with pg_identifier_facts [of sha256 v w] assms(1) show ?thesis by blast
qed

text \<open>(C23) Whatever stands in names and descriptions, a database that reads the statement reads exactly
  the table the dataset asks for, part by part: the table's name, for every field in order its column with
  SQL type, nullability, default and its exact-width or exact-length check, one check that at most one
  member is set for every oneof of two columns or more, and the descriptions as comments. Nothing leaks
  out of its quotes, and no field is missing.\<close>

theorem postgres_reads_back:
  assumes "PostgresDDL sha256 (Some ds) = Inr (ddl, diagnostics)"
  shows "map (\<lambda>x. Some (fst x)) (typedFields (ds_fields ds)) = ds_fields ds \<and> sqlParts ddl = Some (pg_spec sha256 ds)"
  using assms by (rule pg_ddl_reads)

text \<open>(C25) Every field of an accepted dataset has one column, in order, with the identifier of its
  name; the column identifiers are different, and there is one diagnostic per logical field.\<close>

theorem postgres_columns_complete:
  assumes "PostgresDDL sha256 (Some ds) = Inr (ddl, diagnostics)"
  shows "\<exists>columns. pg_columns sha256 (ds_fields ds) = Inr (columns, diagnostics)
    \<and> map (\<lambda>f. pg_identifier sha256 (nilGetName f)) (ds_fields ds) = map (\<lambda>col. Inr (col_name col)) columns
    \<and> distinct (map col_name columns)
    \<and> map field_path diagnostics = concat (map (\<lambda>f. fieldPaths f (nilGetName f)) (ds_fields ds))"
proof -
  from assms obtain columns where columns: "pg_columns sha256 (ds_fields ds) = Inr (columns, diagnostics)"
    by (rule pg_ddl_cases)
  have "map (\<lambda>f. pg_identifier sha256 (nilGetName f)) fs = map (\<lambda>col. Inr (col_name col)) cs"
    if "list_all2 (pg_columnOf sha256) fs cs" for fs cs
    using that by (induction rule: list_all2_induct) (auto simp: pg_columnOf_def nilGetName_def)
  with columns pg_columns_facts [OF columns] show ?thesis by blast
qed

text \<open>(C24) PostgreSQL accepts every compiled schema whose names fit and whose texts are valid: no
  type, default, constraint name or oneof of a compiled schema is refused.\<close>

theorem compiled_schema_to_postgres:
  assumes "CompileMessage E descriptor previous = Inr ds" and "\<And>v. length (sha256 v) = 32" and "pg_texts ds"
  shows "\<exists>ddl diagnostics. PostgresDDL sha256 (Some ds) = Inr (ddl, diagnostics)"
  using pg_ddl_ok [OF assms(2) compiled_fields [OF assms(1)] assms(3)] by auto

section \<open>Witnesses\<close>

lemma plainHash_length: "length (plainHash v) = 32"
  by (simp add: plainHash_def)

lemma schemaV1_texts: "pg_texts schemaV1"
  by code_simp

lemma postgres_V1: "PostgresDDL plainHash (Some schemaV1) = Inr (fst postgresV1, snd postgresV1)"
  using pg_ddl_ok [of plainHash, OF plainHash_length compiled_fields [OF compile_V1] schemaV1_texts]
  by (auto simp: postgresV1_def)

theorem postgres_identifier_bounds_witness:
  "\<exists>w. pg_identifier plainHash longName = Inr w \<and> length w \<le> 63"
proof -
  have "longName \<noteq> []" "ValidString longName" "CHR 0x00 \<notin> set longName" by code_simp+
  from postgres_identifier_bounds [of plainHash, OF plainHash_length this] show ?thesis by blast
qed

theorem postgres_reads_back_witness:
  "length (typedFields (ds_fields schemaV1)) = length (ds_fields schemaV1) \<and> ds_fields schemaV1 \<noteq> []
    \<and> sqlParts (fst postgresV1) = Some (pg_spec plainHash schemaV1)"
proof -
  have "ds_fields schemaV1 \<noteq> []" by code_simp
  with postgres_reads_back [OF postgres_V1] show ?thesis by (metis length_map)
qed

theorem postgres_columns_complete_witness:
  "\<exists>columns :: pg_column list. map (\<lambda>f. pg_identifier plainHash (nilGetName f)) (ds_fields schemaV1) = map (\<lambda>col. Inr (col_name col)) columns
    \<and> distinct (map col_name columns)"
  using postgres_columns_complete [OF postgres_V1] by blast

theorem compiled_schema_to_postgres_witness:
  "\<exists>ddl diagnostics. PostgresDDL plainHash (Some schemaV1) = Inr (ddl, diagnostics)"
  by (rule compiled_schema_to_postgres [OF compile_V1 plainHash_length schemaV1_texts])

end
