(* ===== verification/Sqlite.thy ===== *)
theory Sqlite
  imports Dialects Sql_Text
begin

text \<open>
  The SQLite dialect (\<^verbatim>\<open>go/data/sqlite/schema.go\<close>): the DDL of one dataset as text, with a check of the
  value domain on every column, the oneof checks, the descriptions as comments, and the diagnostics of
  every logical field. \<open>sq\<close> writes a constant between single quotes.
\<close>

section \<open>Text\<close>

definition sq :: "string \<Rightarrow> string" where
  "sq v = [CHR 0x27] @ v @ [CHR 0x27]"

definition sl_quote :: "string \<Rightarrow> string" where
  "sl_quote v = [CHR 0x22] @ replaceAll [CHR 0x22] [CHR 0x22, CHR 0x22] v @ [CHR 0x22]"

text \<open>\<^verbatim>\<open>strings.Map\<close> goes rune by rune.\<close>

definition sl_asciiLower :: "string \<Rightarrow> string" where
  "sl_asciiLower v = concat (map (\<lambda>(r, _). EncodeRune (if 0x41 \<le> r \<and> r \<le> 0x5A then r + 0x20 else r)) (runes v))"

definition sl_validText :: "string \<Rightarrow> bool" where
  "sl_validText v \<longleftrightarrow> ValidString v \<and> CHR 0x00 \<notin> set v"

definition sl_comment :: "string \<Rightarrow> string \<Rightarrow> string" where
  "sl_comment v indent =
     (if v = [] then []
      else let w = replaceAll [CHR 0x0D] [CHR 0x0A] v
           in indent @ ''-- '' @ replaceAll [CHR 0x0A] ([CHR 0x0A] @ indent @ ''-- '') w @ [CHR 0x0A])"

section \<open>Types\<close>

datatype sl_type_error =
    SlInvalidStruct | SlInvalidList | SlInvalidMap | SlUnsupportedJson | SlUnsupportedType | SlImplicitDefault

type_synonym sl_mapped = "string \<times> string \<times> mapping_compatibility \<times> string"

definition sl_unsignedText :: "string \<Rightarrow> string" where
  "sl_unsignedText v =
     ''length('' @ v @ '') > 0 AND instr('' @ v @ '', char(0)) = 0 AND '' @ v @ '' NOT GLOB '' @ sq ''*[^0-9]*''
       @ '' AND ('' @ v @ '' = '' @ sq ''0'' @ '' OR substr('' @ v @ '', 1, 1) BETWEEN '' @ sq ''1'' @ '' AND '' @ sq ''9'' @ '')''"

definition sl_typeof :: "string \<Rightarrow> string \<Rightarrow> string" where
  "sl_typeof name storage = ''typeof('' @ name @ '') = '' @ sq storage"

definition sl_primitive :: "primitive_kind \<Rightarrow> string \<Rightarrow> sl_mapped option" where
  "sl_primitive kind name =
     (let integer = sl_typeof name ''integer'';
          textual = sl_typeof name ''text'';
          blob = sl_typeof name ''blob'';
          floating = Some (''REAL'', sl_typeof name ''real'', MAPPING_COMPATIBILITY_RANGE_REDUCED,
            ''SQLite REAL stores binary64 values; NaN becomes NULL and cannot preserve a present protobuf NaN; float32 writers must enforce their source precision'');
          signed64 = Some (''INTEGER'', integer, MAPPING_COMPATIBILITY_LOSSLESS,
            ''signed 64-bit integer with a SQLite storage-class check'');
          signed32 = Some (''INTEGER'', integer @ '' AND '' @ name @ '' BETWEEN -2147483648 AND 2147483647'',
            MAPPING_COMPATIBILITY_LOSSLESS, ''signed 32-bit integer with exact range checks'');
          unsigned32 = Some (''INTEGER'', integer @ '' AND '' @ name @ '' BETWEEN 0 AND 4294967295'',
            MAPPING_COMPATIBILITY_LOSSLESS, ''unsigned 32-bit integer with exact range checks'');
          unsigned64 = Some (''TEXT'',
            textual @ '' AND '' @ sl_unsignedText name @ '' AND (length('' @ name @ '') < 20 OR (length('' @ name
              @ '') = 20 AND '' @ name @ '' <= '' @ sq ''18446744073709551615'' @ '' COLLATE BINARY))'',
            MAPPING_COMPATIBILITY_REPRESENTATION_CHANGED,
            ''uint64 uses canonical decimal TEXT with exact bounds; bind text without an intermediate REAL or signed integer; lexical order is not numeric order'')
      in case kind of
        PRIMITIVE_KIND_DOUBLE \<Rightarrow> floating
      | PRIMITIVE_KIND_FLOAT \<Rightarrow> floating
      | PRIMITIVE_KIND_INT64 \<Rightarrow> signed64
      | PRIMITIVE_KIND_SINT64 \<Rightarrow> signed64
      | PRIMITIVE_KIND_SFIXED64 \<Rightarrow> signed64
      | PRIMITIVE_KIND_INT32 \<Rightarrow> signed32
      | PRIMITIVE_KIND_SINT32 \<Rightarrow> signed32
      | PRIMITIVE_KIND_SFIXED32 \<Rightarrow> signed32
      | PRIMITIVE_KIND_UINT32 \<Rightarrow> unsigned32
      | PRIMITIVE_KIND_FIXED32 \<Rightarrow> unsigned32
      | PRIMITIVE_KIND_UINT64 \<Rightarrow> unsigned64
      | PRIMITIVE_KIND_FIXED64 \<Rightarrow> unsigned64
      | PRIMITIVE_KIND_BOOL \<Rightarrow> Some (''INTEGER'', integer @ '' AND '' @ name @ '' IN (0, 1)'',
          MAPPING_COMPATIBILITY_REPRESENTATION_CHANGED, ''boolean represented by INTEGER 0 or 1'')
      | PRIMITIVE_KIND_STRING \<Rightarrow> Some (''TEXT'', textual, MAPPING_COMPATIBILITY_LOSSLESS,
          ''protobuf string stored as TEXT, including embedded U+0000'')
      | PRIMITIVE_KIND_BYTES \<Rightarrow> Some (''BLOB'', blob, MAPPING_COMPATIBILITY_LOSSLESS, ''protobuf bytes stored as BLOB'')
      | _ \<Rightarrow> None)"

definition sl_enumCheck :: "enum_type \<Rightarrow> string \<Rightarrow> string" where
  "sl_enumCheck e name =
     sl_typeof name ''integer'' @ '' AND '' @ name @ '' BETWEEN -2147483648 AND 2147483647''
     @ (if et_closed e
        then '' AND '' @ name @ '' IN ('' @ join '', ''
          (map (\<lambda>v. FormatInt (case v of None \<Rightarrow> 0 | Some x \<Rightarrow> ev_number x)) (et_values e)) @ '')''
        else [])"

definition sl_decimalCheck :: "nat \<Rightarrow> nat \<Rightarrow> string \<Rightarrow> string" where
  "sl_decimalCheck p s name =
     (let magnitude = ''(CASE WHEN substr('' @ name @ '', 1, 1) = '' @ sq ''-'' @ '' THEN substr('' @ name @ '', 2) ELSE '' @ name @ '' END)'';
          whole = (if s > 0 then ''substr('' @ magnitude @ '', 1, length('' @ magnitude @ '') - '' @ FormatUint (s + 1) @ '')'' else magnitude);
          fraction = ''substr('' @ magnitude @ '', '' @ (''-'' @ FormatUint s) @ '')'';
          zero = (if s > 0 then ''0.'' @ replicate s CHR ''0'' else ''0'')
      in sl_typeof name ''text'' @ '' AND instr('' @ name @ '', char(0)) = 0''
         @ (if s > 0
            then '' AND substr('' @ magnitude @ '', '' @ (''-'' @ FormatUint (s + 1)) @ '', 1) = '' @ sq ''.'' @ '' AND length('' @ fraction @ '') = ''
              @ FormatUint s @ '' AND '' @ fraction @ '' NOT GLOB '' @ sq ''*[^0-9]*''
            else [])
         @ '' AND '' @ sl_unsignedText whole
         @ (if p = s then '' AND '' @ whole @ '' = '' @ sq ''0''
            else '' AND length('' @ whole @ '') <= '' @ FormatUint (p - s))
         @ '' AND '' @ name @ '' != '' @ sq (''-'' @ zero))"

definition sl_uuidCheck :: "string \<Rightarrow> string" where
  "sl_uuidCheck name =
     sl_typeof name ''text'' @ '' AND length('' @ name @ '') = 36 AND instr('' @ name @ '', char(0)) = 0 AND substr(''
       @ name @ '', 9, 1) = '' @ sq ''-'' @ '' AND substr('' @ name @ '', 14, 1) = '' @ sq ''-'' @ '' AND substr(''
       @ name @ '', 19, 1) = '' @ sq ''-'' @ '' AND substr('' @ name @ '', 24, 1) = '' @ sq ''-'' @ '' AND length(replace(''
       @ name @ '', '' @ sq ''-'' @ '', '' @ sq [] @ '')) = 32 AND replace('' @ name @ '', '' @ sq ''-'' @ '', '' @ sq []
       @ '') NOT GLOB '' @ sq ''*[^0-9a-f]*''"

definition sl_jsonCheck :: "string \<Rightarrow> nat \<Rightarrow> string \<Rightarrow> string" where
  "sl_jsonCheck shape fixed name =
     sl_typeof name ''text'' @ '' AND instr('' @ name @ '', char(0)) = 0 AND CASE WHEN json_valid('' @ name @ '') THEN ''
       @ (if shape \<noteq> [] then ''json_type('' @ name @ '') = '' @ sq shape else ''1'')
       @ (if fixed > 0 then '' AND json_array_length('' @ name @ '') = '' @ FormatUint fixed else [])
       @ '' ELSE 0 END''"

text \<open>The shape of a value stored as JSON, with the fixed length of its top-level array.\<close>

definition sl_shape :: "type_kind \<Rightarrow> (sl_type_error + string \<times> nat) option" where
  "sl_shape k =
     (case k of
        DataType_Struct s \<Rightarrow> Some (if s = None then Inl SlInvalidStruct else Inr (''object'', 0))
      | DataType_List l \<Rightarrow>
          Some (if l = None \<or> int (ListGetFixedLength l) > maxInt32 then Inl SlInvalidList
                else Inr (''array'', ListGetFixedLength l))
      | DataType_Map m \<Rightarrow> Some (if m = None then Inl SlInvalidMap else Inr (''object'', 0))
      | DataType_Json j \<Rightarrow>
          Some (case JsonGetKind j of
                  JSON_KIND_VALUE \<Rightarrow> Inr ([], 0)
                | JSON_KIND_LIST_VALUE \<Rightarrow> Inr (''array'', 0)
                | JSON_KIND_ANY \<Rightarrow> Inr (''object'', 0)
                | JSON_KIND_STRUCT \<Rightarrow> Inr (''object'', 0)
                | _ \<Rightarrow> Inl SlUnsupportedJson)
      | _ \<Rightarrow> None)"

definition sl_mapping :: "data_type \<Rightarrow> string \<Rightarrow> sl_type_error + sl_mapped" where
  "sl_mapping t name =
     (let unsupported = Inl SlUnsupportedType
      in case sl_shape (GetKind t) of
        Some r \<Rightarrow>
          andThen r (\<lambda>(shape, fixed).
          Inr (''TEXT'', sl_jsonCheck shape fixed name, MAPPING_COMPATIBILITY_RANGE_WIDENED,
            ''ProtoJSON TEXT checks JSON syntax, top-level shape and any top-level fixed length; nested types, presence, refinements and Any resolution remain writer-owned; dynamic JSON numbers must be finite''))
      | None \<Rightarrow>
      (case GetKind t of
        DataType_Primitive p \<Rightarrow>
          (case sl_primitive (PrimitiveGetKind p) name of None \<Rightarrow> unsupported | Some r \<Rightarrow> Inr r)
      | DataType_Enum e \<Rightarrow>
          (case e of
             None \<Rightarrow> unsupported
           | Some et \<Rightarrow>
               if et_values et = [] then unsupported
               else Inr (''INTEGER'', sl_enumCheck et name, MAPPING_COMPATIBILITY_LOSSLESS,
                 ''enum numbers retain their signed 32-bit domain; closed enums also check declared values''))
      | DataType_Timestamp ts \<Rightarrow>
          if TimestampGetUnit ts \<noteq> TIME_UNIT_NANOSECOND \<or> TimestampGetTimezone ts \<noteq> ''UTC'' then unsupported
          else Inr (''INTEGER'', sl_typeof name ''integer'' @ '' AND '' @ name @ '' BETWEEN -62135596800000000 AND 253402300799999999'',
            MAPPING_COMPATIBILITY_PRECISION_REDUCED,
            ''Timestamp uses signed Unix microseconds with the complete protobuf year range; sub-microsecond precision requires explicit writer conversion'')
      | DataType_Duration d \<Rightarrow>
          if DurationGetUnit d \<noteq> TIME_UNIT_NANOSECOND then unsupported
          else Inr (''INTEGER'', sl_typeof name ''integer'', MAPPING_COMPATIBILITY_RANGE_REDUCED,
            ''Duration uses exact signed nanoseconds; SQLite int64 cannot represent the complete protobuf Duration range'')
      | DataType_Decimal d \<Rightarrow>
          let p = DecimalGetPrecision d; s = DecimalGetScale d in
          if p = 0 \<or> p > 38 \<or> s > p then unsupported
          else Inr (''TEXT'', sl_decimalCheck p s name, MAPPING_COMPATIBILITY_LOSSLESS,
            ''canonical fixed-scale decimal text with exact precision, scale, sign and zero checks; bind text, arithmetic is application-owned'')
      | DataType_Uuid u \<Rightarrow>
          if u = None then unsupported
          else Inr (''TEXT'', sl_uuidCheck name, MAPPING_COMPATIBILITY_LOSSLESS,
            ''canonical lowercase UUID text with exact hexadecimal and hyphen checks'')
      | DataType_FixedBytes b \<Rightarrow>
          let width = FixedBytesGetByteLength b in
          if width = 0 \<or> int width > maxInt32 then unsupported
          else Inr (''BLOB'', sl_typeof name ''blob'' @ '' AND length('' @ name @ '') = '' @ FormatUint width,
            MAPPING_COMPATIBILITY_LOSSLESS, ''fixed-width bytes with a BLOB length check'')
      | _ \<Rightarrow> unsupported))"

section \<open>Defaults\<close>

definition sl_defaultExpression :: "field \<Rightarrow> data_type \<Rightarrow> sl_type_error + string" where
  "sl_defaultExpression f t =
     (case GetPresence f of
        PRESENCE_REPEATED \<Rightarrow> if ListGetFixedLength (GetList (Some t)) = 0 then Inr (sq ''[]'') else Inr []
      | PRESENCE_MAP \<Rightarrow> Inr (sq ''{}'')
      | PRESENCE_IMPLICIT \<Rightarrow>
          if GetEnum (Some t) \<noteq> None then Inr ''0''
          else (case GetPrimitive (Some t) of
                  None \<Rightarrow> Inl SlImplicitDefault
                | Some k \<Rightarrow>
                    if k = PRIMITIVE_KIND_STRING then Inr (sq [])
                    else if k = PRIMITIVE_KIND_BYTES then Inr (''X'' @ sq [])
                    else if k \<in> {PRIMITIVE_KIND_UINT64, PRIMITIVE_KIND_FIXED64} then Inr (sq ''0'')
                    else Inr ''0'')
      | _ \<Rightarrow> Inr [])"

section \<open>Diagnostics of nested fields\<close>

datatype sl_error =
    SlNoFields
  | SlTableName
  | SlTableDescription
  | SlFieldNoType
  | SlFieldName
  | SlFieldDescription
  | SlCollision string
  | SlFieldType string sl_type_error
  | SlNestedNoType string
  | SlNestedType string sl_type_error

definition sl_childPaths :: "string \<Rightarrow> type_kind \<Rightarrow> (field option \<times> string) list" where
  "sl_childPaths path k = (case k of
       DataType_Struct s \<Rightarrow> map (\<lambda>c. (c, path @ ''.'' @ nilGetName c)) (StructGetFields s)
     | DataType_List l \<Rightarrow> [(ListGetElement l, path @ ''[]'')]
     | DataType_Map m \<Rightarrow> [(MapGetKey m, path @ ''.key''), (MapGetValue m, path @ ''.value'')]
     | _ \<Rightarrow> [])"

lemma sl_childPaths_kindChildren: "(c, p) \<in> set (sl_childPaths path k) \<Longrightarrow> c \<in> set (kindChildren k)"
  by (cases k) (auto simp: sl_childPaths_def kindChildren_def)

definition sl_nestedDiagnostic :: "string \<Rightarrow> mapping_diagnostic" where
  "sl_nestedDiagnostic path = \<lparr>field_path = path, compatibility = MAPPING_COMPATIBILITY_RANGE_WIDENED,
     diag_message = ''nested ProtoJSON value: SQLite does not enforce this node''
       @ [CHR 0x27] @ ''s logical domain, presence or refinements; writer validation is required''\<rparr>"

function sl_nestedDiagnostics :: "data_type \<Rightarrow> string \<Rightarrow> sl_error + mapping_diagnostic list" where
  "sl_nestedDiagnostics t path =
     foldE (\<lambda>result (c, p).
       case nilGetType c of
         None \<Rightarrow> Inl (SlNestedNoType p)
       | Some u \<Rightarrow>
           andThen (mapErr (SlNestedType p) (sl_mapping u (sl_quote (nilGetName c)))) (\<lambda>_.
           andThen (sl_nestedDiagnostics u p) (\<lambda>nested.
           Inr (result @ sl_nestedDiagnostic p # nested)))) [] (sl_childPaths path (GetKind t))"
  by pat_completeness auto
termination
proof (relation "measure (\<lambda>(t, _). size t)")
  fix t path x c p u
  assume "x \<in> set (sl_childPaths path (GetKind t))" "(c, p) = x" "nilGetType c = Some u"
  then show "((u, p), (t, path)) \<in> measure (\<lambda>(t, _). size t)"
    using size_nilGetType [of c t] sl_childPaths_kindChildren by fastforce
qed simp

declare sl_nestedDiagnostics.simps [simp del]

section \<open>The statement\<close>

record sl_state =
  sl_definitions :: "string list"
  sl_diagnostics :: "mapping_diagnostic list"
  sl_seen :: "string list"
  sl_oneofs :: "(string \<times> string list) list \<times> string list"

definition sl_definition :: "field \<Rightarrow> string \<Rightarrow> string \<Rightarrow> string \<Rightarrow> string" where
  "sl_definition f typeName check defaultSQL =
     (let name = sl_quote (GetName f)
      in sl_comment (GetDescription f) ''  '' @ ''  '' @ name @ '' '' @ typeName
         @ (if \<not> GetNullable f then '' NOT NULL'' else [])
         @ (if defaultSQL \<noteq> [] then '' DEFAULT '' @ defaultSQL else [])
         @ '' CHECK ('' @ name @ '' IS NULL OR ('' @ check @ ''))'')"

text \<open>One round of the loop over the fields; an error comes with the diagnostics collected so far.\<close>

definition sl_field :: "sl_state \<Rightarrow> field option \<Rightarrow> (sl_error \<times> mapping_diagnostic list) + sl_state" where
  "sl_field st field =
     (let diagnostics = sl_diagnostics st
      in case field of
        None \<Rightarrow> Inl (SlFieldNoType, diagnostics)
      | Some f \<Rightarrow>
          (case GetType f of
             None \<Rightarrow> Inl (SlFieldNoType, diagnostics)
           | Some t \<Rightarrow>
               if GetName f = [] then Inl (SlFieldNoType, diagnostics)
               else if \<not> sl_validText (GetName f) then Inl (SlFieldName, diagnostics)
               else if \<not> sl_validText (GetDescription f) then Inl (SlFieldDescription, diagnostics)
               else if sl_asciiLower (GetName f) \<in> set (sl_seen st) then Inl (SlCollision (GetName f), diagnostics)
               else
                 andThen (mapErr (\<lambda>e. (SlFieldType (GetName f) e, diagnostics)) (sl_mapping t (sl_quote (GetName f))))
                   (\<lambda>(typeName, check, level, message).
                 andThen (mapErr (\<lambda>e. (SlFieldType (GetName f) e, diagnostics)) (sl_defaultExpression f t)) (\<lambda>defaultSQL.
                 let diagnostics' = diagnostics @ [\<lparr>field_path = GetName f, compatibility = level, diag_message = message\<rparr>] in
                 andThen (mapErr (\<lambda>e. (e, diagnostics')) (sl_nestedDiagnostics t (GetName f))) (\<lambda>nested.
                 Inr \<lparr>sl_definitions = sl_definitions st @ [sl_definition f typeName check defaultSQL],
                      sl_diagnostics = diagnostics' @ nested,
                      sl_seen = sl_asciiLower (GetName f) # sl_seen st,
                      sl_oneofs = addMember (GetOneof f) (''('' @ sl_quote (GetName f) @ '' IS NOT NULL)'') (sl_oneofs st)\<rparr>)))))"

definition sl_statement :: "dataset_schema \<Rightarrow> sl_state \<Rightarrow> string" where
  "sl_statement ds st =
     (let (groups, order) = sl_oneofs st;
          checks = map (\<lambda>g. ''  CHECK (('' @ join '' + '' (case map_of groups g of None \<Rightarrow> [] | Some ms \<Rightarrow> ms) @ '') <= 1)'') order
      in sl_comment (ds_description ds) [] @ ''CREATE TABLE '' @ sl_quote (ds_name ds) @ '' ('' @ [CHR 0x0A]
         @ join ('','' @ [CHR 0x0A]) (sl_definitions st @ checks) @ [CHR 0x0A] @ '');'' @ [CHR 0x0A])"

definition SqliteDDL ::
    "dataset_schema option \<Rightarrow> (sl_error \<times> mapping_diagnostic list) + string \<times> mapping_diagnostic list" where
  "SqliteDDL dataset =
     (case dataset of
        None \<Rightarrow> Inl (SlNoFields, [])
      | Some ds \<Rightarrow>
          if ds_fields ds = [] then Inl (SlNoFields, [])
          else if \<not> sl_validText (ds_name ds) \<or> ds_name ds = [] \<or> HasPrefix (sl_asciiLower (ds_name ds)) ''sqlite_''
          then Inl (SlTableName, [])
          else if \<not> sl_validText (ds_description ds) then Inl (SlTableDescription, [])
          else
            andThen (foldE sl_field \<lparr>sl_definitions = [], sl_diagnostics = [], sl_seen = [], sl_oneofs = ([], [])\<rparr> (ds_fields ds)) (\<lambda>st.
            Inr (sl_statement ds st, sl_diagnostics st)))"

end
