(* ===== verification/Sqlite_Statement.thy ===== *)
theory Sqlite_Statement
  imports Sqlite Compiler_Shape Examples Storage_Name
begin

text \<open>
  What the SQLite dialect writes: names folded to lower case, diagnostics of nested fields, and the text
  of the statement as a database reads it back. The statement is specified from the dataset alone, the
  checks as expressions over the column; the code's texts are read as these expressions by composing
  the rules for their fragments.
\<close>

section \<open>The specification of a statement\<close>

text \<open>Expressions over one column.\<close>

datatype check_expr =
    Column
  | Number int
  | Constant string
  | Call string "check_expr list"
  | Infix check_expr string check_expr
  | Conj "check_expr list"
  | Range check_expr check_expr check_expr
  | Member check_expr "int list"
  | When check_expr check_expr check_expr
  | Parens check_expr
  | Binary check_expr

fun checkParts :: "string \<Rightarrow> check_expr \<Rightarrow> sql_part list" where
  "checkParts n Column = [SqlIdent n]"
| "checkParts n (Number i) = sqlText (FormatInt i)"
| "checkParts n (Constant v) = [SqlLiteral v]"
| "checkParts n (Call f es) = sqlText (f @ ''('') @ sepBy (sqlText '', '') (map (checkParts n) es) @ sqlText '')''"
| "checkParts n (Infix a r b) = checkParts n a @ sqlText ('' '' @ r @ '' '') @ checkParts n b"
| "checkParts n (Conj es) = sepBy (sqlText '' AND '') (map (checkParts n) es)"
| "checkParts n (Range e lo hi) = checkParts n e @ sqlText '' BETWEEN '' @ checkParts n lo @ sqlText '' AND '' @ checkParts n hi"
| "checkParts n (Member e is) = checkParts n e @ sqlText ('' IN ('' @ join '', '' (map FormatInt is) @ '')'')"
| "checkParts n (When c a b) =
     sqlText ''CASE WHEN '' @ checkParts n c @ sqlText '' THEN '' @ checkParts n a @ sqlText '' ELSE '' @ checkParts n b @ sqlText '' END''"
| "checkParts n (Parens e) = sqlText ''('' @ checkParts n e @ sqlText '')''"
| "checkParts n (Binary e) = checkParts n e @ sqlText '' COLLATE BINARY''"

definition storedAs :: "string \<Rightarrow> check_expr" where
  "storedAs storage = Infix (Call ''typeof'' [Column]) ''='' (Constant storage)"

definition noNul :: "check_expr \<Rightarrow> check_expr" where
  "noNul e = Infix (Call ''instr'' [e, Call ''char'' [Number 0]]) ''='' (Number 0)"

definition equalText :: "check_expr \<Rightarrow> string \<Rightarrow> check_expr" where
  "equalText e v = Infix e ''='' (Constant v)"

definition lengthIs :: "check_expr \<Rightarrow> string \<Rightarrow> nat \<Rightarrow> check_expr" where
  "lengthIs e r n = Infix (Call ''length'' [e]) r (Number (int n))"

text \<open>A decimal number without leading zeros.\<close>

definition unsignedExpr :: "check_expr \<Rightarrow> check_expr" where
  "unsignedExpr e =
     Conj [lengthIs e ''>'' 0, noNul e, Infix e ''NOT GLOB'' (Constant ''*[^0-9]*''),
          Parens (Infix (equalText e ''0'') ''OR'' (Range (Call ''substr'' [e, Number 1, Number 1]) (Constant ''1'') (Constant ''9'')))]"

text \<open>A signed decimal with \<open>s\<close> digits after the point and at most \<open>p\<close> digits, and no negative zero.\<close>

definition decimalExpr :: "nat \<Rightarrow> nat \<Rightarrow> check_expr" where
  "decimalExpr p s =
     (let magnitude = Parens (When (equalText (Call ''substr'' [Column, Number 1, Number 1]) ''-'') (Call ''substr'' [Column, Number 2]) Column);
          fraction = Call ''substr'' [magnitude, Number (- int s)];
          whole = (if s = 0 then magnitude
                   else Call ''substr'' [magnitude, Number 1, Infix (Call ''length'' [magnitude]) ''-'' (Number (int s + 1))])
      in Conj ([storedAs ''text'', noNul Column]
           @ (if s = 0 then []
              else [equalText (Call ''substr'' [magnitude, Number (- int s - 1), Number 1]) ''.'', lengthIs fraction ''='' s,
                    Infix fraction ''NOT GLOB'' (Constant ''*[^0-9]*'')])
           @ [unsignedExpr whole,
              if p = s then equalText whole ''0'' else lengthIs whole ''<='' (p - s),
              Infix Column ''!='' (Constant (if s = 0 then ''-0'' else ''-0.'' @ replicate s CHR ''0''))]))"

definition uuidExpr :: check_expr where
  "uuidExpr =
     (let digits = Call ''replace'' [Column, Constant ''-'', Constant []]
      in Conj ([storedAs ''text'', lengthIs Column ''='' 36, noNul Column]
           @ map (\<lambda>i. equalText (Call ''substr'' [Column, Number i, Number 1]) ''-'') [9, 14, 19, 24]
           @ [lengthIs digits ''='' 32, Infix digits ''NOT GLOB'' (Constant ''*[^0-9a-f]*'')]))"

definition jsonExpr :: "string \<Rightarrow> nat \<Rightarrow> check_expr" where
  "jsonExpr shape n =
     Conj [storedAs ''text'', noNul Column,
          When (Call ''json_valid'' [Column])
            (Conj ((if shape = [] then Number 1 else equalText (Call ''json_type'' [Column]) shape)
                  # (if n = 0 then [] else [Infix (Call ''json_array_length'' [Column]) ''='' (Number (int n))])))
            (Number 0)]"

definition integerIn :: "int \<Rightarrow> int \<Rightarrow> check_expr list" where
  "integerIn lo hi = [storedAs ''integer'', Range Column (Number lo) (Number hi)]"

definition primitiveExpr :: "primitive_kind \<Rightarrow> check_expr" where
  "primitiveExpr k =
     (if k \<in> {PRIMITIVE_KIND_DOUBLE, PRIMITIVE_KIND_FLOAT} then storedAs ''real''
      else if k \<in> {PRIMITIVE_KIND_INT32, PRIMITIVE_KIND_SINT32, PRIMITIVE_KIND_SFIXED32} then Conj (integerIn (- (2 ^ 31)) (2 ^ 31 - 1))
      else if k \<in> {PRIMITIVE_KIND_UINT32, PRIMITIVE_KIND_FIXED32} then Conj (integerIn 0 (2 ^ 32 - 1))
      else if k \<in> {PRIMITIVE_KIND_UINT64, PRIMITIVE_KIND_FIXED64} then
        Conj [storedAs ''text'', unsignedExpr Column,
             Parens (Infix (lengthIs Column ''<'' 20) ''OR''
               (Parens (Conj [lengthIs Column ''='' 20, Infix Column ''<='' (Binary (Constant (FormatUint (2 ^ 64 - 1))))])))]
      else if k = PRIMITIVE_KIND_BOOL then Conj [storedAs ''integer'', Member Column [0, 1]]
      else if k = PRIMITIVE_KIND_STRING then storedAs ''text''
      else if k = PRIMITIVE_KIND_BYTES then storedAs ''blob''
      else storedAs ''integer'')"

text \<open>The check of every logical type: the values of the type, as they are stored.\<close>

definition sl_checkExpr :: "data_type \<Rightarrow> check_expr" where
  "sl_checkExpr t =
     (case GetKind t of
        DataType_Primitive p \<Rightarrow> primitiveExpr (PrimitiveGetKind p)
      | DataType_Enum e \<Rightarrow>
          Conj (integerIn (- (2 ^ 31)) (2 ^ 31 - 1)
            @ (if EnumGetClosed e then [Member Column (map (\<lambda>v. case v of None \<Rightarrow> 0 | Some x \<Rightarrow> ev_number x) (EnumGetValues e))] else []))
      | DataType_Timestamp _ \<Rightarrow> Conj (integerIn (- 62135596800 * 10 ^ 6) (253402300800 * 10 ^ 6 - 1))
      | DataType_Duration _ \<Rightarrow> storedAs ''integer''
      | DataType_Decimal d \<Rightarrow> decimalExpr (DecimalGetPrecision d) (DecimalGetScale d)
      | DataType_Uuid _ \<Rightarrow> uuidExpr
      | DataType_FixedBytes b \<Rightarrow> Conj [storedAs ''blob'', lengthIs Column ''='' (FixedBytesGetByteLength b)]
      | DataType_List l \<Rightarrow> jsonExpr ''array'' (ListGetFixedLength l)
      | DataType_Json j \<Rightarrow>
          jsonExpr (if JsonGetKind j = JSON_KIND_VALUE then []
                    else if JsonGetKind j = JSON_KIND_LIST_VALUE then ''array'' else ''object'') 0
      | _ \<Rightarrow> jsonExpr ''object'' 0)"

definition sl_storage :: "data_type \<Rightarrow> string" where
  "sl_storage t =
     (case GetKind t of
        DataType_Primitive p \<Rightarrow>
          (let k = PrimitiveGetKind p
           in if k \<in> {PRIMITIVE_KIND_DOUBLE, PRIMITIVE_KIND_FLOAT} then ''REAL''
              else if k \<in> {PRIMITIVE_KIND_UINT64, PRIMITIVE_KIND_FIXED64, PRIMITIVE_KIND_STRING} then ''TEXT''
              else if k = PRIMITIVE_KIND_BYTES then ''BLOB''
              else ''INTEGER'')
      | DataType_Enum _ \<Rightarrow> ''INTEGER''
      | DataType_Timestamp _ \<Rightarrow> ''INTEGER''
      | DataType_Duration _ \<Rightarrow> ''INTEGER''
      | DataType_FixedBytes _ \<Rightarrow> ''BLOB''
      | _ \<Rightarrow> ''TEXT'')"

text \<open>The protobuf default of a field without explicit presence.\<close>

definition sl_defaultSpec :: "field \<Rightarrow> data_type \<Rightarrow> sql_part list" where
  "sl_defaultSpec f t =
     (case GetPresence f of
        PRESENCE_REPEATED \<Rightarrow> if ListGetFixedLength (GetList (Some t)) = 0 then [SqlLiteral ''[]''] else []
      | PRESENCE_MAP \<Rightarrow> [SqlLiteral ''{}'']
      | PRESENCE_IMPLICIT \<Rightarrow>
          (case GetPrimitive (Some t) of
             Some PRIMITIVE_KIND_STRING \<Rightarrow> [SqlLiteral []]
           | Some PRIMITIVE_KIND_BYTES \<Rightarrow> sqlText ''X'' @ [SqlLiteral []]
           | Some PRIMITIVE_KIND_UINT64 \<Rightarrow> [SqlLiteral ''0'']
           | Some PRIMITIVE_KIND_FIXED64 \<Rightarrow> [SqlLiteral ''0'']
           | _ \<Rightarrow> sqlText ''0'')
      | _ \<Rightarrow> [])"

text \<open>The lines of a comment.\<close>

definition commentSpec :: "string \<Rightarrow> string \<Rightarrow> sql_part list" where
  "commentSpec v indent = (if v = [] then [] else
     concat (map (\<lambda>l. sqlText indent @ [SqlComment ('' '' @ l), SqlChar CHR 0x0A])
       (splitOn CHR 0x0A (map (\<lambda>c. if c = CHR 0x0D then CHR 0x0A else c) v))))"

definition sl_columnSpec :: "field \<times> data_type \<Rightarrow> sql_part list" where
  "sl_columnSpec = (\<lambda>(f, t).
     let n = GetName f
     in commentSpec (GetDescription f) ''  '' @ sqlText ''  '' @ [SqlIdent n] @ sqlText ('' '' @ sl_storage t)
        @ (if GetNullable f then [] else sqlText '' NOT NULL'')
        @ (if sl_defaultSpec f t = [] then [] else sqlText '' DEFAULT '' @ sl_defaultSpec f t)
        @ sqlText '' CHECK ('' @ [SqlIdent n] @ sqlText '' IS NULL OR ('' @ checkParts n (sl_checkExpr t) @ sqlText ''))'')"

text \<open>A oneof: at most one of its columns is not null.\<close>

definition sl_oneofSpec :: "string list \<Rightarrow> sql_part list" where
  "sl_oneofSpec ns = sqlText ''  CHECK ((''
     @ sepBy (sqlText '' + '') (map (\<lambda>n. sqlText ''('' @ [SqlIdent n] @ sqlText '' IS NOT NULL)'') ns) @ sqlText '') <= 1)''"

definition sl_members :: "field option list \<Rightarrow> (string \<times> string) list" where
  "sl_members fs = map (\<lambda>(f, _). (GetOneof f, GetName f)) (typedFields fs)"

definition sl_spec :: "dataset_schema \<Rightarrow> sql_part list" where
  "sl_spec ds =
     (let xs = sl_members (ds_fields ds)
      in commentSpec (ds_description ds) [] @ sqlText ''CREATE TABLE '' @ [SqlIdent (ds_name ds)] @ sqlText ('' ('' @ [CHR 0x0A])
         @ sepBy (sqlText ('','' @ [CHR 0x0A]))
             (map sl_columnSpec (typedFields (ds_fields ds)) @ map (\<lambda>g. sl_oneofSpec (groupMembers xs g)) (groupNames xs))
         @ sqlText ([CHR 0x0A] @ '');'' @ [CHR 0x0A]))"

text \<open>A fragment of a statement with its parts. The flags say whether it starts and whether it ends with
  a quoted part.\<close>

definition fragment :: "bool \<Rightarrow> bool \<Rightarrow> string \<Rightarrow> sql_part list \<Rightarrow> bool" where
  "fragment a b s qs \<longleftrightarrow> (\<exists>ps. s = render ps \<and> ps \<noteq> [] \<and> okPieces ps \<and> pieceParts ps = qs
     \<and> (\<not> a \<longrightarrow> separated ps) \<and> (\<not> b \<longrightarrow> (\<exists>t. last ps = Txt t)))"

text \<open>A fragment that is a whole check.\<close>

definition isCheck :: "string \<Rightarrow> string \<Rightarrow> check_expr \<Rightarrow> bool" where
  "isCheck n s e \<longleftrightarrow> (\<exists>b. fragment False b s (checkParts n e))"

text \<open>A type that SQLite can check: an enum has values.\<close>

definition enumHasValues :: "field \<Rightarrow> bool" where
  "enumHasValues f = (case GetType f of
       Some t \<Rightarrow> (case GetKind t of DataType_Enum (Some e) \<Rightarrow> et_values e \<noteq> [] | _ \<Rightarrow> True)
     | None \<Rightarrow> True)"

section \<open>Names that differ only in case\<close>

lemma decodeRune_ascii: "decodeRune s = Some (r, n) \<Longrightarrow> byteVal (hd s) < 0x80 \<Longrightarrow> n = 1 \<and> r = byteVal (hd s)"
  by (cases s) auto

lemma decodeRune_bytes:
  assumes "decodeRune s = Some (r, n)" "0x80 \<le> byteVal (hd s)"
  shows "\<forall>c \<in> set (take n s). 0x80 \<le> byteVal c"
  using assms by (cases s) (auto simp: between_def split: if_splits list.splits)

lemma RuneLen_one: "RuneLen r = 1 \<longleftrightarrow> r < 0x80"
  by (simp add: RuneLen_def)

lemma decodeRune_wide:
  assumes "decodeRune s = Some (r, n)" "0x80 \<le> byteVal (hd s)"
  shows "0x80 \<le> r"
proof (rule ccontr)
  assume "\<not> 0x80 \<le> r"
  then have "r < 0x80" by simp
  then have "EncodeRune r = [char_of r]" "n = 1" using decode_encode [OF assms(1)] by (auto simp: EncodeRune_def RuneLen_def)
  then have "hd s = char_of r"
    using decode_encode [OF assms(1)] decodeRune_size [OF assms(1)] by (cases s) auto
  with \<open>r < 0x80\<close> assms(2) show False by (simp add: byteVal_def)
qed

lemma IsUpper_bounds: "IsUpper c \<longleftrightarrow> 0x41 \<le> byteVal c \<and> byteVal c \<le> 0x5A"
  by (simp add: IsUpper_iff byteVal_def)

lemma lower_rune:
  assumes "decodeRune s = Some (r, n)"
  shows "EncodeRune (if 0x41 \<le> r \<and> r \<le> 0x5A then r + 0x20 else r) = map ToLower (take n s)"
proof (cases "byteVal (hd s) < 0x80")
  case True
  with decodeRune_ascii [OF assms] decodeRune_size [OF assms] have "take n s = [hd s]" "r = byteVal (hd s)" by (cases s; simp)+
  with True show ?thesis
    by (auto simp: ToLower_def IsUpper_bounds EncodeRune_def) (simp_all add: byteVal_def)
next
  case False
  then have wide: "0x80 \<le> r" and bytes: "\<forall>c \<in> set (take n s). 0x80 \<le> byteVal c"
    using decodeRune_wide [OF assms] decodeRune_bytes [OF assms] by auto
  then have "map ToLower (take n s) = take n s"
    by (intro map_idI) (force simp: ToLower_def IsUpper_bounds)
  with wide decode_encode [OF assms] show ?thesis by auto
qed

lemma sl_asciiLower_valid: "ValidString v \<Longrightarrow> sl_asciiLower v = map ToLower v"
proof (induction v rule: ValidString.induct)
  case (1 v)
  show ?case
  proof (cases "v = []")
    case False
    with "1.prems" obtain r n where d: "decodeRune v = Some (r, n)" and rest: "ValidString (drop n v)"
      by (auto simp: ValidString.simps [of v] split: option.splits)
    have "sl_asciiLower v = map ToLower (take n v) @ sl_asciiLower (drop n v)"
      using False d lower_rune [OF d] by (simp add: sl_asciiLower_def runes.simps [of v])
    also have "sl_asciiLower (drop n v) = map ToLower (drop n v)" by (rule "1.IH" [OF d refl rest])
    finally show ?thesis by (simp flip: map_append)
  qed (simp add: sl_asciiLower_def)
qed

section \<open>Diagnostics\<close>

lemma sl_childPaths_eq: "path \<noteq> [] \<Longrightarrow> sl_childPaths path k = childPaths path k"
  by (cases k) (simp_all add: sl_childPaths_def childPaths_def joinPath_def)

lemma sl_children_append:
  assumes "foldE (\<lambda>result (c, p). case nilGetType c of
         None \<Rightarrow> Inl (SlNestedNoType p)
       | Some u \<Rightarrow>
           andThen (mapErr (SlNestedType p) (sl_mapping u (sl_quote (nilGetName c)))) (\<lambda>_.
           andThen (sl_nestedDiagnostics u p) (\<lambda>nested.
           Inr (result @ sl_nestedDiagnostic p # nested)))) ds cp = Inr ds'"
    and "\<And>c p u nested. (c, p) \<in> set cp \<Longrightarrow> nilGetType c = Some u \<Longrightarrow> sl_nestedDiagnostics u p = Inr nested \<Longrightarrow>
      p # map field_path nested = fieldPaths c p"
  shows "map field_path ds' = map field_path ds @ concat (map (\<lambda>(c, p). fieldPaths c p) cp)"
  using assms
proof (induction cp arbitrary: ds)
  case (Cons x cp)
  obtain c p where x: "x = (c, p)" by (cases x)
  from Cons.prems(1) obtain u nested where u: "nilGetType c = Some u" "sl_nestedDiagnostics u p = Inr nested"
    and rest: "foldE (\<lambda>result (c, p). case nilGetType c of
         None \<Rightarrow> Inl (SlNestedNoType p)
       | Some u \<Rightarrow>
           andThen (mapErr (SlNestedType p) (sl_mapping u (sl_quote (nilGetName c)))) (\<lambda>_.
           andThen (sl_nestedDiagnostics u p) (\<lambda>nested.
           Inr (result @ sl_nestedDiagnostic p # nested)))) (ds @ sl_nestedDiagnostic p # nested) cp = Inr ds'"
    by (auto simp: x andThen_eq_Inr split: option.splits)
  have "p # map field_path nested = fieldPaths c p" using Cons.prems(2) [OF _ u] by (simp add: x)
  with Cons.IH [OF rest Cons.prems(2)] show ?case by (simp add: x sl_nestedDiagnostic_def flip: append_Cons)
qed simp

lemma sl_nested_paths:
  "path \<noteq> [] \<Longrightarrow> sl_nestedDiagnostics t path = Inr ds \<Longrightarrow>
   map field_path ds = concat (map (\<lambda>(c, p). fieldPaths c p) (childPaths path (GetKind t)))"
proof (induction t arbitrary: path ds rule: measure_induct_rule [where f = size])
  case (less t)
  have "p # map field_path nested = fieldPaths c p"
    if cp: "(c, p) \<in> set (childPaths path (GetKind t))" and u: "nilGetType c = Some u" and n: "sl_nestedDiagnostics u p = Inr nested"
    for c p u nested
  proof -
    have "p \<noteq> []" using cp less.prems(1) by (auto simp: childPaths_def joinPath_def split: type_kind.splits)
    moreover have "size u < size t" using size_nilGetType [OF childPaths_kindChildren [OF cp]] u by simp
    ultimately have "map field_path nested = concat (map (\<lambda>(c, p). fieldPaths c p) (childPaths p (GetKind u)))"
      using less.IH n by blast
    with u show ?thesis by (cases c) (simp_all add: nilGetType_def)
  qed
  moreover have "foldE (\<lambda>result (c, p). case nilGetType c of
         None \<Rightarrow> Inl (SlNestedNoType p)
       | Some u \<Rightarrow>
           andThen (mapErr (SlNestedType p) (sl_mapping u (sl_quote (nilGetName c)))) (\<lambda>_.
           andThen (sl_nestedDiagnostics u p) (\<lambda>nested.
           Inr (result @ sl_nestedDiagnostic p # nested)))) [] (childPaths path (GetKind t)) = Inr ds"
    using less.prems by (simp add: sl_nestedDiagnostics.simps [of t] sl_childPaths_eq)
  ultimately show ?case using sl_children_append [of "[]" "childPaths path (GetKind t)" ds] by simp
qed

lemma sl_field_cases:
  assumes "sl_field st field = Inr st'"
  obtains f t typeName check level message defaultSQL nested where "field = Some f" "GetType f = Some t" "GetName f \<noteq> []"
    "sl_validText (GetName f)" "sl_validText (GetDescription f)" "sl_asciiLower (GetName f) \<notin> set (sl_seen st)"
    "sl_mapping t (sl_quote (GetName f)) = Inr (typeName, check, level, message)" "sl_defaultExpression f t = Inr defaultSQL"
    "sl_nestedDiagnostics t (GetName f) = Inr nested"
    "st' = \<lparr>sl_definitions = sl_definitions st @ [sl_definition f typeName check defaultSQL],
            sl_diagnostics = (sl_diagnostics st @ [\<lparr>field_path = GetName f, compatibility = level, diag_message = message\<rparr>]) @ nested,
            sl_seen = sl_asciiLower (GetName f) # sl_seen st,
            sl_oneofs = addMember (GetOneof f) (''('' @ sl_quote (GetName f) @ '' IS NOT NULL)'') (sl_oneofs st)\<rparr>"
  using assms unfolding sl_field_def
  by (auto simp: andThen_eq_Inr Let_def simp del: append.simps split: option.splits if_splits)

lemma sl_fields_facts:
  "foldE sl_field st fs = Inr st' \<Longrightarrow>
     map field_path (sl_diagnostics st') = map field_path (sl_diagnostics st) @ concat (map (\<lambda>f. fieldPaths f (nilGetName f)) fs)
     \<and> sl_seen st' = rev (map (\<lambda>f. map ToLower (nilGetName f)) fs) @ sl_seen st"
proof (induction fs arbitrary: st)
  case (Cons f fs)
  from Cons.prems obtain st1 where s: "sl_field st f = Inr st1" and rest: "foldE sl_field st1 fs = Inr st'"
    by (auto simp: andThen_eq_Inr)
  from s show ?case
    by (rule sl_field_cases) (use Cons.IH [OF rest] in \<open>auto simp: nilGetName_def sl_nested_paths sl_asciiLower_valid sl_validText_def\<close>)
qed simp

lemma sl_seen_distinct:
  assumes "foldE sl_field st fs = Inr st'" "distinct (sl_seen st)"
  shows "distinct (sl_seen st')"
  using assms by (rule foldE_invariant) (erule sl_field_cases, simp)

section \<open>Fragments of a statement\<close>

lemma okPieces_append:
  "okPieces ps \<Longrightarrow> okPieces qs \<Longrightarrow> ps = [] \<or> (\<exists>t. last ps = Txt t) \<or> separated qs \<Longrightarrow> okPieces (ps @ qs)"
proof (induction ps rule: okPieces.induct)
  case (2 s ps)
  then show ?case by (cases ps) auto
next
  case (3 v ps)
  then show ?case by (cases ps rule: separated.cases) auto
next
  case (4 v ps)
  then show ?case by (cases ps rule: separated.cases) auto
qed simp

lemma render_append [simp]: "render (ps @ qs) = render ps @ render qs"
  by (simp add: render_def)

lemma separated_append: "ps \<noteq> [] \<Longrightarrow> separated (ps @ qs) \<longleftrightarrow> separated ps"
  by (cases ps rule: separated.cases) auto

lemma pieceParts_append [simp]: "pieceParts (ps @ qs) = pieceParts ps @ pieceParts qs"
  by (induction ps rule: pieceParts.induct) simp_all

lemma fragment_append:
  assumes "fragment a b s p" "fragment c d t q" "\<not> b \<or> \<not> c"
  shows "fragment a d (s @ t) (p @ q)"
proof -
  from assms(1,2) obtain ps qs where
    ps: "s = render ps" "ps \<noteq> []" "okPieces ps" "\<not> a \<longrightarrow> separated ps" "\<not> b \<longrightarrow> (\<exists>t. last ps = Txt t)" "pieceParts ps = p"
    and qs: "t = render qs" "qs \<noteq> []" "okPieces qs" "\<not> c \<longrightarrow> separated qs" "\<not> d \<longrightarrow> (\<exists>t. last qs = Txt t)" "pieceParts qs = q"
    unfolding fragment_def by blast
  have "okPieces (ps @ qs)" using ps qs assms(3) by (intro okPieces_append) auto
  with ps qs show ?thesis unfolding fragment_def by (intro exI [of _ "ps @ qs"]) (auto simp: separated_append)
qed

lemma fragment_text: "plainText s \<Longrightarrow> s \<noteq> [] \<Longrightarrow> fragment False False s (sqlText s)"
  unfolding fragment_def by (intro exI [of _ "[Txt s]"]) simp

lemma fragment_column: "fragment True True (sl_quote n) [SqlIdent n]"
  unfolding fragment_def by (intro exI [of _ "[Idn n]"]) (simp add: sl_quote_def doubleQuotes_def)

lemma fragment_sq: "CHR 0x27 \<notin> set v \<Longrightarrow> fragment True True (sq v) [SqlLiteral v]"
  unfolding fragment_def by (intro exI [of _ "[Lit v]"]) (simp add: sq_def doubleQuotes_plain)

lemma fragment_negative: "fragment False False (''-'' @ FormatUint k) (sqlText (''-'' @ FormatUint k))"
proof -
  have "hd (FormatUint k) \<noteq> CHR ''-''" using FormatUint_isDigit [of k] isDigit_not_sign [of "hd (FormatUint k)"] by simp
  then show ?thesis by (intro fragment_text) simp_all
qed

lemma fragment_eqI: "fragment a b s qs \<Longrightarrow> qs = qs' \<Longrightarrow> fragment a b s qs'"
  by simp

lemmas fragments = fragment_column fragment_sq fragment_negative fragment_append fragment_text

text \<open>Numbers as the code writes them.\<close>

lemma formatted:
  "FormatInt (int k) = FormatUint k" "FormatUint 0 = ''0''" "FormatInt 0 = ''0''" "FormatInt 1 = ''1''" "FormatInt 2 = ''2''"
  "FormatInt 20 = ''20''" "FormatInt 32 = ''32''" "FormatInt 36 = ''36''"
  "FormatInt 9 = ''9''" "FormatInt 14 = ''14''" "FormatInt 19 = ''19''" "FormatInt 24 = ''24''"
  by (simp_all add: FormatInt_def) (simp_all add: FormatUint.simps digitChar_def)

lemma formatted_bounds:
  "FormatInt (- 2147483648) = ''-2147483648''" "FormatInt 2147483647 = ''2147483647''" "FormatInt 4294967295 = ''4294967295''"
  "FormatUint 18446744073709551615 = ''18446744073709551615''" "FormatInt (- 62135596800000000) = ''-62135596800000000''"
  "FormatInt 253402300799999999 = ''253402300799999999''"
  by (simp_all add: FormatInt_def FormatUint.simps digitChar_def)

lemma fragment_typeof: "CHR 0x27 \<notin> set storage \<Longrightarrow> fragment False True (sl_typeof (sl_quote n) storage) (checkParts n (storedAs storage))"
  unfolding sl_typeof_def by (rule fragment_eqI, (rule fragments | (simp; fail))+) (simp add: storedAs_def)

lemma fragment_unsignedText:
  assumes "fragment a b v (checkParts n e)"
  shows "fragment False False (sl_unsignedText v) (checkParts n (unsignedExpr e))"
  unfolding sl_unsignedText_def
  by (rule fragment_eqI, (rule assms fragment_column fragment_sq fragment_append fragment_text | (simp; fail))+)
    (simp add: unsignedExpr_def lengthIs_def noNul_def equalText_def formatted)

lemma fragment_columnUnsigned: "fragment False False (sl_unsignedText (sl_quote n)) (checkParts n (unsignedExpr Column))"
  by (rule fragment_unsignedText [of True True]) (simp add: fragment_column)

lemmas check_fragments = fragment_typeof fragment_columnUnsigned fragments

lemma isCheckI: "fragment False b s qs \<Longrightarrow> qs = checkParts n e \<Longrightarrow> isCheck n s e"
  by (auto simp: isCheck_def)

lemma integerIn_check:
  assumes "bounds = '' BETWEEN '' @ FormatInt l @ '' AND '' @ FormatInt h"
  shows "fragment False False (sl_typeof (sl_quote n) ''integer'' @ '' AND '' @ sl_quote n @ bounds) (checkParts n (Conj (integerIn l h)))"
proof -
  have "plainText bounds" unfolding assms by (intro plainText_append) auto
  then have b: "fragment False False bounds (sqlText bounds)" by (intro fragment_text) (auto simp: assms)
  have "fragment False False (sl_typeof (sl_quote n) ''integer'' @ '' AND '' @ sl_quote n @ bounds)
      (checkParts n (storedAs ''integer'') @ sqlText '' AND '' @ [SqlIdent n] @ sqlText bounds)"
    by (rule b fragment_typeof fragment_column fragment_append fragment_text [of "'' AND ''"] | (simp; fail))+
  then show ?thesis by (simp add: integerIn_def assms)
qed

lemma integer_checks:
  "fragment False False (sl_typeof (sl_quote n) ''integer'' @ '' AND '' @ sl_quote n @ '' BETWEEN -2147483648 AND 2147483647'')
    (checkParts n (Conj (integerIn (- (2 ^ 31)) (2 ^ 31 - 1))))"
  "fragment False False (sl_typeof (sl_quote n) ''integer'' @ '' AND '' @ sl_quote n @ '' BETWEEN 0 AND 4294967295'')
    (checkParts n (Conj (integerIn 0 (2 ^ 32 - 1))))"
  "fragment False False (sl_typeof (sl_quote n) ''integer'' @ '' AND '' @ sl_quote n @ '' BETWEEN -62135596800000000 AND 253402300799999999'')
    (checkParts n (Conj (integerIn (- 62135596800 * 10 ^ 6) (253402300800 * 10 ^ 6 - 1))))"
  by (rule integerIn_check, simp add: formatted formatted_bounds)+

lemma unsigned64_check:
  "fragment False False (sl_typeof (sl_quote n) ''text'' @ '' AND '' @ sl_unsignedText (sl_quote n) @ '' AND (length('' @ sl_quote n
      @ '') < 20 OR (length('' @ sl_quote n @ '') = 20 AND '' @ sl_quote n @ '' <= '' @ sq ''18446744073709551615'' @ '' COLLATE BINARY))'')
    (checkParts n (primitiveExpr PRIMITIVE_KIND_UINT64))"
  by (rule fragment_eqI, (rule check_fragments | (simp; fail))+)
    (simp add: primitiveExpr_def lengthIs_def formatted formatted_bounds)

lemma bool_check:
  "fragment False False (sl_typeof (sl_quote n) ''integer'' @ '' AND '' @ sl_quote n @ '' IN (0, 1)'')
    (checkParts n (primitiveExpr PRIMITIVE_KIND_BOOL))"
  by (rule fragment_eqI, (rule check_fragments | (simp; fail))+) (simp add: primitiveExpr_def formatted)

lemma primitiveExpr_simps:
  "primitiveExpr PRIMITIVE_KIND_DOUBLE = storedAs ''real''" "primitiveExpr PRIMITIVE_KIND_FLOAT = storedAs ''real''"
  "primitiveExpr PRIMITIVE_KIND_INT64 = storedAs ''integer''" "primitiveExpr PRIMITIVE_KIND_SINT64 = storedAs ''integer''"
  "primitiveExpr PRIMITIVE_KIND_SFIXED64 = storedAs ''integer''" "primitiveExpr PRIMITIVE_KIND_STRING = storedAs ''text''"
  "primitiveExpr PRIMITIVE_KIND_BYTES = storedAs ''blob''" "primitiveExpr PRIMITIVE_KIND_INT32 = Conj (integerIn (- (2 ^ 31)) (2 ^ 31 - 1))"
  "primitiveExpr PRIMITIVE_KIND_SINT32 = Conj (integerIn (- (2 ^ 31)) (2 ^ 31 - 1))"
  "primitiveExpr PRIMITIVE_KIND_SFIXED32 = Conj (integerIn (- (2 ^ 31)) (2 ^ 31 - 1))"
  "primitiveExpr PRIMITIVE_KIND_UINT32 = Conj (integerIn 0 (2 ^ 32 - 1))" "primitiveExpr PRIMITIVE_KIND_FIXED32 = Conj (integerIn 0 (2 ^ 32 - 1))"
  "primitiveExpr PRIMITIVE_KIND_FIXED64 = primitiveExpr PRIMITIVE_KIND_UINT64"
  by (simp_all add: primitiveExpr_def)

lemma sl_primitive_spec:
  assumes "sl_primitive k (sl_quote n) = Some (ty, check, level, message)" "GetKind t = DataType_Primitive p" "PrimitiveGetKind p = k"
  shows "isCheck n check (sl_checkExpr t) \<and> ty = sl_storage t"
proof -
  have e: "sl_checkExpr t = primitiveExpr k" by (simp add: sl_checkExpr_def assms(2,3))
  have types: "fragment False True (sl_typeof (sl_quote n) ''integer'') (checkParts n (storedAs ''integer''))"
    "fragment False True (sl_typeof (sl_quote n) ''text'') (checkParts n (storedAs ''text''))"
    "fragment False True (sl_typeof (sl_quote n) ''blob'') (checkParts n (storedAs ''blob''))"
    "fragment False True (sl_typeof (sl_quote n) ''real'') (checkParts n (storedAs ''real''))"
    by (rule fragment_typeof, simp)+
  have "ty = sl_storage t" using assms by (cases k) (auto simp: sl_primitive_def sl_storage_def Let_def)
  moreover have "isCheck n check (primitiveExpr k)"
    using assms(1) types integer_checks [of n] unsigned64_check [of n] bool_check [of n]
    by (cases k) (auto simp: sl_primitive_def Let_def isCheck_def primitiveExpr_simps simp del: append.simps checkParts.simps)
  ultimately show ?thesis by (simp add: e)
qed

lemma plainText_join: "plainText sep \<Longrightarrow> list_all plainText xs \<Longrightarrow> plainText (join sep xs)"
  by (induction xs rule: induct_list012) (simp_all add: plainText_append)

lemma sl_enum_spec:
  assumes "GetKind t = DataType_Enum (Some e)"
  shows "isCheck n (sl_enumCheck e (sl_quote n)) (sl_checkExpr t)"
proof -
  let ?ns = "map (\<lambda>v. case v of None \<Rightarrow> 0 | Some x \<Rightarrow> ev_number x) (et_values e)"
  let ?listed = "join '', '' (map (\<lambda>v. FormatInt (case v of None \<Rightarrow> 0 | Some x \<Rightarrow> ev_number x)) (et_values e))"
  have "plainText ?listed" by (rule plainText_join) (auto simp: list_all_iff)
  then have tail: "fragment False False ('' IN ('' @ ?listed @ '')'') (sqlText ('' IN ('' @ ?listed @ '')''))"
    by (intro fragment_text plainText_append) simp_all
  have closed: "fragment False False ('' AND '' @ sl_quote n @ '' IN ('' @ ?listed @ '')'')
      (sqlText '' AND '' @ [SqlIdent n] @ sqlText ('' IN ('' @ ?listed @ '')''))"
    by (rule tail fragment_column fragment_append fragment_text [of "'' AND ''"] | (simp; fail))+
  have ns: "map FormatInt ?ns = map (\<lambda>v. FormatInt (case v of None \<Rightarrow> 0 | Some x \<Rightarrow> ev_number x)) (et_values e)" by simp
  show ?thesis
  proof (cases "et_closed e")
    case True
    have "fragment False False (sl_enumCheck e (sl_quote n)) (checkParts n (Conj (integerIn (- (2 ^ 31)) (2 ^ 31 - 1)))
        @ sqlText '' AND '' @ [SqlIdent n] @ sqlText ('' IN ('' @ ?listed @ '')''))"
      using fragment_append [OF integer_checks(1) closed] True by (simp add: sl_enumCheck_def)
    then show ?thesis
      by (rule isCheckI) (simp add: sl_checkExpr_def assms True integerIn_def EnumGetClosed_def EnumGetValues_def ns [symmetric] del: map_map)
  next
    case False
    then show ?thesis
      using integer_checks(1) [of n] by (simp add: isCheck_def sl_enumCheck_def sl_checkExpr_def assms EnumGetClosed_def del: checkParts.simps) blast
  qed
qed

lemma formatted_negative: "0 < k \<Longrightarrow> FormatInt (- int k) = ''-'' @ FormatUint k" "FormatInt (- int k - 1) = ''-'' @ FormatUint (k + 1)"
  "FormatInt (int k + 1) = FormatUint (k + 1)"
  by (simp_all add: FormatInt_def nat_add_distrib)

lemma sl_decimal_check: "fragment False True (sl_decimalCheck p s (sl_quote n)) (checkParts n (decimalExpr p s))"
proof -
  define magnitude where "magnitude = ''(CASE WHEN substr('' @ sl_quote n @ '', 1, 1) = '' @ sq ''-'' @ '' THEN substr('' @ sl_quote n @ '', 2) ELSE '' @ sl_quote n @ '' END)''"
  define M where "M = Parens (When (equalText (Call ''substr'' [Column, Number 1, Number 1]) ''-'') (Call ''substr'' [Column, Number 2]) Column)"
  define whole where "whole = (if s > 0 then ''substr('' @ magnitude @ '', 1, length('' @ magnitude @ '') - '' @ FormatUint (s + 1) @ '')'' else magnitude)"
  define W where "W = (if s = 0 then M else Call ''substr'' [M, Number 1, Infix (Call ''length'' [M]) ''-'' (Number (int s + 1))])"
  define fraction where "fraction = ''substr('' @ magnitude @ '', '' @ (''-'' @ FormatUint s) @ '')''"
  define F where "F = Call ''substr'' [M, Number (- int s)]"
  define zero where "zero = (if s > 0 then ''0.'' @ replicate s CHR ''0'' else ''0'')"
  note parts = equalText_def lengthIs_def noNul_def formatted formatted_negative
  have m: "fragment False False magnitude (checkParts n M)"
    unfolding magnitude_def by (rule fragment_eqI, (rule fragments | (simp; fail))+) (simp add: M_def parts)
  have "s > 0 \<Longrightarrow> fragment False False (''substr('' @ magnitude @ '', 1, length('' @ magnitude @ '') - '' @ FormatUint (s + 1) @ '')'') (checkParts n W)"
    by (rule fragment_eqI, (rule m fragments | (simp; fail))+) (simp add: W_def parts)
  then have w: "fragment False False whole (checkParts n W)" using m by (simp add: whole_def W_def)
  have f: "s > 0 \<Longrightarrow> fragment False False fraction (checkParts n F)"
    unfolding fraction_def by (rule fragment_eqI, (rule m fragments | (simp; fail))+) (simp add: F_def parts)
  have u: "fragment False False (sl_unsignedText whole) (checkParts n (unsignedExpr W))" by (rule fragment_unsignedText [OF w])
  have z: "fragment True True (sq (''-'' @ zero)) [SqlLiteral (''-'' @ zero)]" by (rule fragment_sq) (simp add: zero_def)
  have e: "decimalExpr p s = Conj ([storedAs ''text'', noNul Column]
           @ (if s = 0 then []
              else [equalText (Call ''substr'' [M, Number (- int s - 1), Number 1]) ''.'', lengthIs F ''='' s,
                    Infix F ''NOT GLOB'' (Constant ''*[^0-9]*'')])
           @ [unsignedExpr W,
              if p = s then equalText W ''0'' else lengthIs W ''<='' (p - s), Infix Column ''!='' (Constant (''-'' @ zero))])"
    unfolding decimalExpr_def Let_def M_def [symmetric] F_def [symmetric] W_def [symmetric] by (simp add: zero_def)
  have c: "sl_decimalCheck p s (sl_quote n) = sl_typeof (sl_quote n) ''text'' @ '' AND instr('' @ sl_quote n @ '', char(0)) = 0''
       @ (if s > 0 then '' AND substr('' @ magnitude @ '', '' @ (''-'' @ FormatUint (s + 1)) @ '', 1) = '' @ sq ''.'' @ '' AND length('' @ fraction @ '') = ''
              @ FormatUint s @ '' AND '' @ fraction @ '' NOT GLOB '' @ sq ''*[^0-9]*''
          else [])
       @ '' AND '' @ sl_unsignedText whole
       @ (if p = s then '' AND '' @ whole @ '' = '' @ sq ''0'' else '' AND length('' @ whole @ '') <= '' @ FormatUint (p - s))
       @ '' AND '' @ sl_quote n @ '' != '' @ sq (''-'' @ zero)"
    unfolding sl_decimalCheck_def Let_def magnitude_def [symmetric] whole_def [symmetric] fraction_def [symmetric] zero_def [symmetric] ..
  let ?A = "sl_typeof (sl_quote n) ''text'' @ '' AND instr('' @ sl_quote n @ '', char(0)) = 0''"
  let ?B = "'' AND substr('' @ magnitude @ '', '' @ (''-'' @ FormatUint (s + 1)) @ '', 1) = '' @ sq ''.'' @ '' AND length('' @ fraction @ '') = ''
              @ FormatUint s @ '' AND '' @ fraction @ '' NOT GLOB '' @ sq ''*[^0-9]*''"
  let ?C = "if p = s then '' AND '' @ whole @ '' = '' @ sq ''0'' else '' AND length('' @ whole @ '') <= '' @ FormatUint (p - s)"
  let ?D = "'' AND '' @ sl_quote n @ '' != '' @ sq (''-'' @ zero)"
  have A: "fragment False False ?A (checkParts n (Conj [storedAs ''text'', noNul Column]))"
    by (rule fragment_eqI, (rule check_fragments | (simp; fail))+) (simp add: parts)
  have B: "fragment False True ?B (sqlText '' AND '' @ checkParts n (Conj [equalText (Call ''substr'' [M, Number (- int s - 1), Number 1]) ''.'',
      lengthIs F ''='' s, Infix F ''NOT GLOB'' (Constant ''*[^0-9]*'')]))" if "s > 0"
    by (rule fragment_eqI, (rule m f [OF that] fragments | (simp; fail))+) (simp add: parts)
  have D: "fragment False True ?D (sqlText '' AND '' @ checkParts n (Infix Column ''!='' (Constant (''-'' @ zero))))"
    by (rule fragment_eqI, (rule z fragments | (simp; fail))+)
  have "fragment False True ('' AND '' @ whole @ '' = '' @ sq ''0'') (sqlText '' AND '' @ checkParts n (equalText W ''0''))"
    by (rule fragment_eqI, (rule w fragments | (simp; fail))+) (simp add: parts)
  moreover have "fragment False False ('' AND length('' @ whole @ '') <= '' @ FormatUint (p - s)) (sqlText '' AND '' @ checkParts n (lengthIs W ''<='' (p - s)))"
    by (rule fragment_eqI, (rule w fragments | (simp; fail))+) (simp add: parts)
  ultimately obtain b where C: "fragment False b (?C) (sqlText '' AND '' @ checkParts n (if p = s then equalText W ''0'' else lengthIs W ''<='' (p - s)))"
    by (cases "p = s") auto
  obtain b' where AB: "fragment False b' (?A @ (if s > 0 then ?B else [])) (checkParts n (Conj ([storedAs ''text'', noNul Column]
      @ (if s = 0 then [] else [equalText (Call ''substr'' [M, Number (- int s - 1), Number 1]) ''.'',
        lengthIs F ''='' s, Infix F ''NOT GLOB'' (Constant ''*[^0-9]*'')]))))"
    using A fragment_append [OF A B] by (cases "s > 0") auto
  have "fragment False True ((?A @ (if s > 0 then ?B else [])) @ '' AND '' @ sl_unsignedText whole @ (?C) @ ?D)
      (checkParts n (Conj ([storedAs ''text'', noNul Column]
        @ (if s = 0 then [] else [equalText (Call ''substr'' [M, Number (- int s - 1), Number 1]) ''.'',
          lengthIs F ''='' s, Infix F ''NOT GLOB'' (Constant ''*[^0-9]*'')])))
       @ sqlText '' AND '' @ checkParts n (unsignedExpr W)
       @ (sqlText '' AND '' @ checkParts n (if p = s then equalText W ''0'' else lengthIs W ''<='' (p - s)))
       @ sqlText '' AND '' @ checkParts n (Infix Column ''!='' (Constant (''-'' @ zero))))"
    by (rule fragment_append [OF AB fragment_append [OF fragment_text fragment_append [OF u fragment_append [OF C D]]]]) simp_all
  then show ?thesis unfolding c e by (cases "s = 0") simp_all
qed

lemma sl_uuid_check: "fragment False True (sl_uuidCheck (sl_quote n)) (checkParts n uuidExpr)"
  unfolding sl_uuidCheck_def by (rule fragment_eqI, (rule check_fragments | (simp; fail))+)
    (simp add: uuidExpr_def equalText_def lengthIs_def noNul_def formatted Let_def)

lemma sl_json_check:
  assumes "CHR 0x27 \<notin> set shape"
  shows "fragment False False (sl_jsonCheck shape fixed (sl_quote n)) (checkParts n (jsonExpr shape fixed))"
proof -
  let ?A = "sl_typeof (sl_quote n) ''text'' @ '' AND instr('' @ sl_quote n @ '', char(0)) = 0 AND CASE WHEN json_valid('' @ sl_quote n @ '') THEN ''"
  let ?B = "if shape \<noteq> [] then ''json_type('' @ sl_quote n @ '') = '' @ sq shape else ''1''"
  let ?C = "(if fixed > 0 then '' AND json_array_length('' @ sl_quote n @ '') = '' @ FormatUint fixed else []) @ '' ELSE 0 END''"
  have A: "fragment False False ?A (checkParts n (Conj [storedAs ''text'', noNul Column]) @ sqlText '' AND CASE WHEN json_valid('' @ [SqlIdent n] @ sqlText '') THEN '')"
    by (rule fragment_eqI, (rule check_fragments | (simp; fail))+) (simp add: noNul_def formatted)
  have "fragment False False ('' AND json_array_length('' @ sl_quote n @ '') = '' @ FormatUint fixed @ '' ELSE 0 END'')
      (sqlText '' AND json_array_length('' @ [SqlIdent n] @ sqlText ('') = '' @ FormatUint fixed @ '' ELSE 0 END''))"
    by (rule fragment_eqI, (rule fragments | (simp; fail))+)
  moreover have "fragment False False '' ELSE 0 END'' (sqlText '' ELSE 0 END'')" by (rule fragment_text) simp_all
  ultimately have C: "fragment False False ?C ((if fixed > 0 then sqlText '' AND json_array_length('' @ [SqlIdent n] @ sqlText ('') = '' @ FormatUint fixed) else [])
      @ sqlText '' ELSE 0 END'')" by (cases "fixed > 0") simp_all
  have "fragment False True (''json_type('' @ sl_quote n @ '') = '' @ sq shape) (checkParts n (equalText (Call ''json_type'' [Column]) shape))"
    by (rule fragment_eqI, (rule fragment_sq [OF assms] fragments | (simp; fail))+) (simp add: equalText_def)
  moreover have "fragment False False ''1'' (checkParts n (Number 1))"
    by (rule fragment_eqI, rule fragment_text) (simp_all add: formatted)
  ultimately obtain b where B: "fragment False b (?B) (checkParts n (if shape = [] then Number 1 else equalText (Call ''json_type'' [Column]) shape))"
    by (cases "shape = []") auto
  from fragment_append [OF A fragment_append [OF B C]] have
    "fragment False False (sl_jsonCheck shape fixed (sl_quote n)) ((checkParts n (Conj [storedAs ''text'', noNul Column]) @ sqlText '' AND CASE WHEN json_valid('' @ [SqlIdent n] @ sqlText '') THEN '')
      @ checkParts n (if shape = [] then Number 1 else equalText (Call ''json_type'' [Column]) shape)
      @ (if fixed > 0 then sqlText '' AND json_array_length('' @ [SqlIdent n] @ sqlText ('') = '' @ FormatUint fixed) else []) @ sqlText '' ELSE 0 END'')"
    by (simp add: sl_jsonCheck_def)
  then show ?thesis by (rule fragment_eqI) (simp add: jsonExpr_def formatted)
qed

lemma sl_mapping_spec:
  assumes "sl_mapping t (sl_quote n) = Inr (ty, check, level, message)"
  shows "isCheck n check (sl_checkExpr t) \<and> ty = sl_storage t"
proof (cases "sl_shape (GetKind t)")
  case (Some r)
  with assms obtain shape fixed where r: "r = Inr (shape, fixed)" "check = sl_jsonCheck shape fixed (sl_quote n)" "ty = ''TEXT''"
    by (auto simp: sl_mapping_def andThen_eq_Inr)
  with Some have "CHR 0x27 \<notin> set shape \<and> sl_checkExpr t = jsonExpr shape fixed \<and> sl_storage t = ''TEXT''"
    by (auto simp: sl_shape_def sl_checkExpr_def sl_storage_def split: type_kind.splits if_splits json_kind.splits)
  with r sl_json_check [of shape fixed n] show ?thesis by (auto simp: isCheck_def)
next
  case None
  note m = assms [unfolded sl_mapping_def None option.case Let_def]
  show ?thesis
  proof (cases "GetKind t")
    case (DataType_Primitive p)
    with m have "sl_primitive (PrimitiveGetKind p) (sl_quote n) = Some (ty, check, level, message)" by (auto split: option.splits)
    from sl_primitive_spec [OF this DataType_Primitive refl] show ?thesis .
  next
    case (DataType_Enum e)
    with m obtain et where "e = Some et" "check = sl_enumCheck et (sl_quote n)" "ty = ''INTEGER''" by (auto split: option.splits if_splits)
    then show ?thesis using sl_enum_spec [of t et n] DataType_Enum by (simp add: sl_storage_def)
  next
    case (DataType_Timestamp ts)
    with m have "check = sl_typeof (sl_quote n) ''integer'' @ '' AND '' @ sl_quote n @ '' BETWEEN -62135596800000000 AND 253402300799999999''"
      "ty = ''INTEGER''" by (auto split: if_splits)
    then show ?thesis using integer_checks(3) [of n] DataType_Timestamp
      by (auto simp: isCheck_def sl_checkExpr_def sl_storage_def simp del: checkParts.simps append.simps)
  next
    case (DataType_FixedBytes b)
    with m have "check = sl_typeof (sl_quote n) ''blob'' @ '' AND length('' @ sl_quote n @ '') = '' @ FormatUint (FixedBytesGetByteLength b)"
      "ty = ''BLOB''" by (auto split: if_splits)
    moreover have "fragment False False (sl_typeof (sl_quote n) ''blob'' @ '' AND length('' @ sl_quote n @ '') = '' @ FormatUint w)
        (checkParts n (Conj [storedAs ''blob'', lengthIs Column ''='' w]))" for w
      by (rule fragment_eqI, (rule check_fragments | (simp; fail))+) (simp add: lengthIs_def formatted)
    ultimately show ?thesis using DataType_FixedBytes
      by (auto simp: isCheck_def sl_checkExpr_def sl_storage_def simp del: checkParts.simps append.simps)
  qed (use m fragment_typeof [of "''integer''" n] sl_decimal_check [of _ _ n] sl_uuid_check [of n]
      in \<open>auto simp: isCheck_def sl_checkExpr_def sl_storage_def simp del: checkParts.simps append.simps split: if_splits\<close>)
qed

lemma sl_default_spec:
  assumes "sl_defaultExpression f t = Inr e"
  shows "(e = [] \<longleftrightarrow> sl_defaultSpec f t = []) \<and> (e \<noteq> [] \<longrightarrow> (\<exists>a b. fragment a b e (sl_defaultSpec f t)))"
proof -
  have "fragment True True (sq ''[]'') [SqlLiteral ''[]'']" "fragment True True (sq ''{}'') [SqlLiteral ''{}'']"
    "fragment True True (sq []) [SqlLiteral []]" "fragment True True (sq ''0'') [SqlLiteral ''0'']"
    "fragment False False ''0'' (sqlText ''0'')" "fragment False True (''X'' @ sq []) (sqlText ''X'' @ [SqlLiteral []])"
    by (rule fragments | (simp; fail))+
  note texts = this
  have enum: "GetEnum (Some t) \<noteq> None \<Longrightarrow> GetPrimitive (Some t) = None"
    by (cases t) (auto simp: GetEnum_def GetPrimitive_def split: type_kind.splits)
  let ?pairs = "{([], []), (sq ''[]'', [SqlLiteral ''[]'']), (sq ''{}'', [SqlLiteral ''{}'']), (sq [], [SqlLiteral []]),
      (sq ''0'', [SqlLiteral ''0'']), (''0'', sqlText ''0''), (''X'' @ sq [], sqlText ''X'' @ [SqlLiteral []])}"
  have "(e, sl_defaultSpec f t) \<in> ?pairs"
  proof (cases "GetPresence f")
    case PRESENCE_IMPLICIT
    then show ?thesis
    proof (cases "GetPrimitive (Some t)")
      case None
      then show ?thesis using PRESENCE_IMPLICIT assms
        by (simp add: sl_defaultExpression_def sl_defaultSpec_def split: if_splits)
    next
      case (Some k)
      then show ?thesis using PRESENCE_IMPLICIT assms enum
        by (cases k) (simp_all add: sl_defaultExpression_def sl_defaultSpec_def split: if_splits)
    qed
  qed (use assms in \<open>simp_all add: sl_defaultExpression_def sl_defaultSpec_def split: if_splits\<close>)
  then show ?thesis
    by (elim insertE emptyE) (use texts in \<open>auto simp: sq_def\<close>)
qed

section \<open>Comments\<close>

lemma replace_newlines:
  "replaceAll [c] ([c] @ pre) w = join ([c] @ pre) (splitOn c w)"
proof (induction w)
  case (Cons x w)
  then show ?case by (cases "splitOn c w"; cases "tl (splitOn c w)") (auto simp: replaceAll_byte replaceBytes_def)
qed (simp add: replaceAll_byte replaceBytes_def)

lemma join_lines: "ws \<noteq> [] \<Longrightarrow> pre @ join ([c] @ pre) ws @ [c] = concat (map (\<lambda>w. pre @ w @ [c]) ws)"
  by (induction ws rule: induct_list012) auto

lemma splitOn_clean: "l \<in> set (splitOn c w) \<Longrightarrow> c \<notin> set l"
proof (induction w arbitrary: l)
  case (Cons x w)
  then show ?case by (cases "splitOn c w") (auto split: if_splits)
qed simp

lemma sl_comment_lines:
  "sl_comment v indent = (if v = [] then [] else concat (map (\<lambda>l. (indent @ ''-- '') @ l @ [CHR 0x0A])
     (splitOn CHR 0x0A (map (\<lambda>c. if c = CHR 0x0D then CHR 0x0A else c) v))))"
proof (cases "v = []")
  case False
  have "replaceAll [CHR 0x0D] [CHR 0x0A] v = map (\<lambda>c. if c = CHR 0x0D then CHR 0x0A else c) v"
    unfolding replaceAll_byte replaceBytes_def by (induction v) auto
  with False show ?thesis
    using replace_newlines [of "CHR 0x0A" "indent @ ''-- ''"] join_lines [OF splitOn_nonempty, of "indent @ ''-- ''" "CHR 0x0A"]
    by (simp add: sl_comment_def Let_def)
qed (simp add: sl_comment_def)

lemma reads_concat:
  "(\<And>x. x \<in> set xs \<Longrightarrow> reads (f x) (g x) \<and> notQuote (f x)) \<Longrightarrow> reads (concat (map f xs)) (concat (map g xs)) \<and> notQuote (concat (map f xs))"
  by (induction xs) (auto intro: reads_append reads_Nil notQuote_append)

lemma sl_comment_reads:
  assumes "indent = [] \<or> indent = ''  ''"
  shows "reads (sl_comment v indent) (commentSpec v indent) \<and> notQuote (sl_comment v indent)"
proof (cases "v = []")
  case False
  let ?ls = "splitOn CHR 0x0A (map (\<lambda>c. if c = CHR 0x0D then CHR 0x0A else c) v)"
  have "reads ((indent @ ''-- '') @ l @ [CHR 0x0A]) (sqlText indent @ [SqlComment ('' '' @ l), SqlChar CHR 0x0A])
      \<and> notQuote ((indent @ ''-- '') @ l @ [CHR 0x0A])" if "l \<in> set ?ls" for l
  proof -
    have "CHR 0x0A \<notin> set ('' '' @ l)" using splitOn_clean [OF that] by simp
    from reads_comment [OF this]
    have "reads (indent @ ''--'' @ ('' '' @ l) @ [CHR 0x0A]) (sqlText indent @ [SqlComment ('' '' @ l), SqlChar CHR 0x0A])"
      by (rule reads_plain [rotated]) (use assms in auto)
    then show ?thesis using assms by auto
  qed
  from reads_concat [of ?ls, OF this] False show ?thesis by (simp add: sl_comment_lines commentSpec_def)
qed (simp add: sl_comment_def commentSpec_def reads_Nil)

section \<open>The statement\<close>

lemma fragment_reads:
  assumes "fragment a b s ps"
  shows "reads s ps \<and> (\<not> a \<longrightarrow> notQuote s)"
proof -
  from assms obtain qs where "s = render qs" "okPieces qs" "\<not> a \<longrightarrow> separated qs" "pieceParts qs = ps" by (auto simp: fragment_def)
  with reads_render [of qs] separated_notQuote [of qs] show ?thesis by auto
qed

lemma notQuote_blank: "notQuote (''  '' @ s)"
  by simp

lemma sl_definition_reads:
  assumes "sl_mapping t (sl_quote (GetName f)) = Inr (ty, check, level, message)" "sl_defaultExpression f t = Inr e"
  shows "reads (sl_definition f ty check e) (sl_columnSpec (f, t))"
proof -
  let ?n = "GetName f"
  let ?check = "sqlText '' CHECK ('' @ [SqlIdent ?n] @ sqlText '' IS NULL OR ('' @ checkParts ?n (sl_checkExpr t) @ sqlText ''))''"
  let ?default = "if sl_defaultSpec f t = [] then [] else sqlText '' DEFAULT '' @ sl_defaultSpec f t"
  from sl_mapping_spec [OF assms(1)] obtain b where check: "fragment False b check (checkParts ?n (sl_checkExpr t))"
    and ty: "ty = sl_storage t" unfolding isCheck_def by blast
  have tail: "fragment False False ('' CHECK ('' @ sl_quote ?n @ '' IS NULL OR ('' @ check @ ''))'') ?check"
    by (rule check fragments | (simp; fail))+
  have default: "fragment False False ((if e \<noteq> [] then '' DEFAULT '' @ e else []) @ '' CHECK ('' @ sl_quote ?n @ '' IS NULL OR ('' @ check @ ''))'')
      ((?default) @ ?check)"
  proof (cases "e = []")
    case False
    with sl_default_spec [OF assms(2)] obtain c d where e: "fragment c d e (sl_defaultSpec f t)" "sl_defaultSpec f t \<noteq> []" by blast
    have "fragment False False ('' DEFAULT '' @ e @ '' CHECK ('' @ sl_quote ?n @ '' IS NULL OR ('' @ check @ ''))'')
        (sqlText '' DEFAULT '' @ sl_defaultSpec f t @ ?check)"
      by (rule fragment_append [OF fragment_text fragment_append [OF e(1) tail]]) simp_all
    with False e(2) show ?thesis by simp
  qed (use tail sl_default_spec [OF assms(2)] in simp)
  define m where "m = '' '' @ ty @ (if \<not> GetNullable f then '' NOT NULL'' else [])"
  define rest where "rest = m @ (if e \<noteq> [] then '' DEFAULT '' @ e else []) @ '' CHECK ('' @ sl_quote ?n @ '' IS NULL OR ('' @ check @ ''))''"
  have "plainText ty" by (auto simp: ty sl_storage_def Let_def split: type_kind.splits)
  then have "fragment False False rest (sqlText m @ (?default) @ ?check)"
    unfolding rest_def by (intro fragment_append [OF fragment_text default]) (simp_all add: m_def plainText_append)
  from fragment_reads [OF this] have "reads rest (sqlText m @ (?default) @ ?check)" "notQuote rest" by auto
  moreover have "reads (sl_quote ?n) [SqlIdent ?n]" using fragment_reads [OF fragment_column] by blast
  moreover have "reads (sl_comment (GetDescription f) ''  '') (commentSpec (GetDescription f) ''  '')" using sl_comment_reads by blast
  ultimately have "reads (sl_comment (GetDescription f) ''  '' @ ''  '' @ sl_quote ?n @ rest)
      (commentSpec (GetDescription f) ''  '' @ sqlText ''  '' @ [SqlIdent ?n] @ sqlText m @ (?default) @ ?check)"
    by (intro reads_append [OF _ notQuote_blank] reads_append [of "sl_quote ?n"] reads_plain) simp_all
  moreover have "sl_definition f ty check e = sl_comment (GetDescription f) ''  '' @ ''  '' @ sl_quote ?n @ rest"
    by (simp add: sl_definition_def rest_def m_def Let_def)
  moreover have "commentSpec (GetDescription f) ''  '' @ sqlText ''  '' @ [SqlIdent ?n] @ sqlText m @ (?default) @ ?check = sl_columnSpec (f, t)"
    by (simp add: sl_columnSpec_def m_def ty Let_def)
  ultimately show ?thesis by simp
qed

lemma sl_fields_text:
  assumes "foldE sl_field st fs = Inr st'"
  shows "(\<exists>ds. sl_definitions st' = sl_definitions st @ ds \<and> list_all2 reads ds (map sl_columnSpec (typedFields fs)))
    \<and> map (\<lambda>x. Some (fst x)) (typedFields fs) = fs
    \<and> sl_oneofs st' = foldl (\<lambda>st (g, n). addMember g (''('' @ sl_quote n @ '' IS NOT NULL)'') st) (sl_oneofs st) (sl_members fs)"
  using assms
proof (induction fs arbitrary: st)
  case (Cons f fs)
  from Cons.prems obtain st1 where s: "sl_field st f = Inr st1" and rest: "foldE sl_field st1 fs = Inr st'"
    by (auto simp: andThen_eq_Inr)
  from s show ?case
  proof (rule sl_field_cases)
    fix g t ty check level message e nested
    assume f: "f = Some g" "GetType g = Some t" and m: "sl_mapping t (sl_quote (GetName g)) = Inr (ty, check, level, message)"
      and d: "sl_defaultExpression g t = Inr e"
      and st1: "st1 = \<lparr>sl_definitions = sl_definitions st @ [sl_definition g ty check e],
            sl_diagnostics = (sl_diagnostics st @ [\<lparr>field_path = GetName g, compatibility = level, diag_message = message\<rparr>]) @ nested,
            sl_seen = sl_asciiLower (GetName g) # sl_seen st,
            sl_oneofs = addMember (GetOneof g) (''('' @ sl_quote (GetName g) @ '' IS NOT NULL)'') (sl_oneofs st)\<rparr>"
    have fs: "typedFields (Some g # fs) = (g, t) # typedFields fs" by (simp add: typedFields_def map_filter_simps f(2))
    from Cons.IH [OF rest] obtain ds where "sl_definitions st' = sl_definitions st1 @ ds"
      "list_all2 reads ds (map sl_columnSpec (typedFields fs))" "map (\<lambda>x. Some (fst x)) (typedFields fs) = fs"
      and o: "sl_oneofs st' = foldl (\<lambda>st (g, n). addMember g (''('' @ sl_quote n @ '' IS NOT NULL)'') st) (sl_oneofs st1) (sl_members fs)"
      by blast
    with sl_definition_reads [OF m d] f(1) st1 show ?thesis
      by (intro conjI exI [of _ "sl_definition g ty check e # ds"]) (simp_all add: sl_members_def fs)
  qed
qed (simp add: sl_members_def typedFields_def map_filter_simps)

lemma groups_map:
  "groupNames (map (\<lambda>(g, n). (g, h n)) xs) = groupNames xs"
  "groupMembers (map (\<lambda>(g, n). (g, h n)) xs) g = map h (groupMembers xs g)"
  by (auto simp: groupNames_def groupMembers_def comp_def case_prod_beta filter_map)

lemma sl_groups:
  "foldl (\<lambda>st (g, n). addMember g (h n) st) ([], []) xs =
     (map (\<lambda>g. (g, map h (groupMembers xs g))) (groupNames xs), groupNames xs)"
proof -
  have "foldl (\<lambda>st (g, n). addMember g (h n) st) ([], []) xs =
      foldl (\<lambda>st (g, m). addMember g m st) ([], []) (map (\<lambda>(g, n). (g, h n)) xs)"
    by (simp add: foldl_map case_prod_unfold)
  then show ?thesis by (simp add: addMember_all groups_map)
qed

lemma sl_check_reads:
  "reads (''  CHECK (('' @ join '' + '' (map (\<lambda>n. ''('' @ sl_quote n @ '' IS NOT NULL)'') ns) @ '') <= 1)'') (sl_oneofSpec ns)"
proof -
  have one: "reads (''('' @ sl_quote n @ '' IS NOT NULL)'') (sqlText ''('' @ [SqlIdent n] @ sqlText '' IS NOT NULL)'')" for n
    by (rule reads_renderI [of _ "[Txt ''('', Idn n, Txt '' IS NOT NULL)'']"]) (simp_all add: sl_quote_def doubleQuotes_def)
  have "list_all2 reads (map (\<lambda>n. ''('' @ sl_quote n @ '' IS NOT NULL)'') ns) (map (\<lambda>n. sqlText ''('' @ [SqlIdent n] @ sqlText '' IS NOT NULL)'') ns)"
    unfolding list_all2_conv_all_nth using one by (simp del: append.simps sqlText_simps)
  from reads_join [OF _ _ this, of "'' + ''"] show ?thesis
    unfolding sl_oneofSpec_def by (intro reads_plain reads_append reads_text) simp_all
qed

lemma sl_ddl_cases:
  assumes "SqliteDDL (Some ds) = Inr (ddl, diagnostics)"
  obtains st where "ds_fields ds \<noteq> []" "sl_validText (ds_name ds)" "ds_name ds \<noteq> []" "sl_validText (ds_description ds)"
    "\<not> HasPrefix (sl_asciiLower (ds_name ds)) ''sqlite_''"
    "foldE sl_field \<lparr>sl_definitions = [], sl_diagnostics = [], sl_seen = [], sl_oneofs = ([], [])\<rparr> (ds_fields ds) = Inr st"
    "ddl = sl_statement ds st" "diagnostics = sl_diagnostics st"
  using assms by (auto simp: SqliteDDL_def andThen_eq_Inr split: if_splits)

lemma sl_statement_reads:
  assumes "list_all2 reads (sl_definitions st) (map sl_columnSpec (typedFields (ds_fields ds)))"
    and oneofs: "sl_oneofs st = foldl (\<lambda>st (g, n). addMember g (''('' @ sl_quote n @ '' IS NOT NULL)'') st) ([], []) (sl_members (ds_fields ds))"
  shows "reads (sl_statement ds st) (sl_spec ds)"
proof -
  let ?xs = "sl_members (ds_fields ds)"
  let ?member = "\<lambda>n. ''('' @ sl_quote n @ '' IS NOT NULL)''"
  let ?checks = "map (\<lambda>g. ''  CHECK (('' @ join '' + '' (map ?member (groupMembers ?xs g)) @ '') <= 1)'') (groupNames ?xs)"
  let ?specs = "map (\<lambda>g. sl_oneofSpec (groupMembers ?xs g)) (groupNames ?xs)"
  have "list_all2 reads ?checks ?specs"
    unfolding list_all2_conv_all_nth using sl_check_reads by (simp del: append.simps)
  note definitions = list_all2_appendI [OF assms(1) this]
  have "map (\<lambda>g. ''  CHECK (('' @ join '' + '' (case map_of (map (\<lambda>g. (g, map ?member (groupMembers ?xs g))) (groupNames ?xs)) g of
        None \<Rightarrow> [] | Some ms \<Rightarrow> ms) @ '') <= 1)'') (groupNames ?xs) = ?checks"
    by (rule map_cong [OF refl]) (simp add: map_of_keyed)
  then have eq: "sl_statement ds st = sl_comment (ds_description ds) [] @ ''CREATE TABLE '' @ sl_quote (ds_name ds) @ ('' ('' @ [CHR 0x0A])
      @ join ('','' @ [CHR 0x0A]) (sl_definitions st @ ?checks) @ ([CHR 0x0A] @ '');'' @ [CHR 0x0A])"
    unfolding sl_statement_def oneofs sl_groups Let_def prod.case by (simp only: append_assoc)
  note comment = sl_comment_reads [of "[]" "ds_description ds"]
  show ?thesis unfolding eq sl_spec_def Let_def
    by (intro reads_append [OF comment [simplified, THEN conjunct1]] reads_plain
        reads_append [OF fragment_reads [OF fragment_column, THEN conjunct1]]
        reads_append [OF reads_join [OF _ _ definitions]] reads_text) simp_all
qed

lemma sl_ddl_reads:
  assumes "SqliteDDL (Some ds) = Inr (ddl, diagnostics)"
  shows "map (\<lambda>x. Some (fst x)) (typedFields (ds_fields ds)) = ds_fields ds \<and> sqlParts ddl = Some (sl_spec ds)"
  using assms
proof (rule sl_ddl_cases)
  fix st
  assume st: "foldE sl_field \<lparr>sl_definitions = [], sl_diagnostics = [], sl_seen = [], sl_oneofs = ([], [])\<rparr> (ds_fields ds) = Inr st"
    and ddl: "ddl = sl_statement ds st"
  note fields = sl_fields_text [OF st]
  then have "reads ddl (sl_spec ds)" unfolding ddl by (intro sl_statement_reads) auto
  with fields reads_whole show ?thesis by blast
qed

section \<open>Acceptance\<close>

lemma sl_mapping_ok:
  assumes "compiledKind (GetKind t)" "GetType f = Some t"
  shows "(\<exists>r. sl_mapping t name = Inr r) \<longleftrightarrow> enumHasValues f"
proof (cases "GetKind t")
  case (DataType_Primitive p)
  with assms show ?thesis
    by (cases p; cases "PrimitiveGetKind p")
      (auto simp: sl_mapping_def sl_shape_def sl_primitive_def compiledKind_def PrimitiveGetKind_def Let_def enumHasValues_def)
qed (use assms in \<open>auto simp: sl_mapping_def sl_shape_def compiledKind_def enumHasValues_def decimalParameters_def fixedByteWidth_def
    isSynthetic_def getter_defs Let_def split: option.splits if_splits\<close>)

end
