(* ===== verification/Sqlite_Properties.thy ===== *)
theory Sqlite_Properties
  imports Sqlite_Statement
begin

text \<open>
  The properties of the SQLite dialect: exactly which compiled schemas are accepted, what is read back
  from the statement, and that columns and diagnostics are complete.
\<close>

definition sl_nestedOne :: "field option \<times> string \<Rightarrow> sl_error + mapping_diagnostic list" where
  "sl_nestedOne x = (case x of (c, p) \<Rightarrow> case nilGetType c of
       None \<Rightarrow> Inl (SlNestedNoType p)
     | Some u \<Rightarrow> andThen (mapErr (SlNestedType p) (sl_mapping u (sl_quote (nilGetName c)))) (\<lambda>_. sl_nestedDiagnostics u p))"

text \<open>What SQLite asks of a field of a compiled schema.\<close>

definition sl_accepts :: "field \<Rightarrow> bool" where
  "sl_accepts f \<longleftrightarrow> sl_validText (GetName f) \<and> sl_validText (GetDescription f) \<and> everyField enumHasValues f
     \<and> (GetPresence f = PRESENCE_IMPLICIT \<longrightarrow> GetEnum (GetType f) \<noteq> None \<or> GetPrimitive (GetType f) \<noteq> None)"

definition sqliteV1 :: "string \<times> mapping_diagnostic list" where
  "sqliteV1 = (case SqliteDDL (Some schemaV1) of Inr r \<Rightarrow> r | Inl _ \<Rightarrow> ([], []))"

lemma foldE_total:
  "(\<exists>r. foldE (\<lambda>s x. andThen (f x) (\<lambda>y. Inr (h s x y))) s xs = Inr r) \<longleftrightarrow> (\<forall>x \<in> set xs. \<exists>y. f x = Inr y)"
proof (induction xs arbitrary: s)
  case (Cons x xs)
  then show ?case by (cases "f x") auto
qed simp

lemma sl_nested_eq:
  "sl_nestedDiagnostics t path =
     foldE (\<lambda>result x. andThen (sl_nestedOne x) (\<lambda>nested. Inr (result @ sl_nestedDiagnostic (snd x) # nested))) []
       (sl_childPaths path (GetKind t))"
  unfolding sl_nestedDiagnostics.simps [of t path] sl_nestedOne_def
  by (rule foldE_cong) (auto split: option.splits simp: andThen_def sum.case_eq_if)

lemma set_sl_childPaths: "fst ` set (sl_childPaths path k) = set (kindChildren k)"
  by (cases k) (auto simp: sl_childPaths_def kindChildren_def image_image)

lemma sl_nested_ok:
  "everyField compiledNode f \<Longrightarrow> GetType f = Some t \<Longrightarrow>
   (\<exists>r. sl_nestedDiagnostics t path = Inr r) \<longleftrightarrow>
   (\<forall>g. Some g \<in> set (kindChildren (GetKind t)) \<longrightarrow> everyField enumHasValues g)"
proof (induction f arbitrary: t path rule: field_tree_induct)
  case (Field d ft)
  then have ft: "ft = Some t" by simp
  have kids: "typeChildren ft = kindChildren (GetKind t)" by (cases t) (simp add: ft typeChildren_def)
  have k: "compiledKind (GetKind t)" using everyField_node [OF Field.prems(1)] by (simp add: compiledNode_def ft)
  have one: "(\<exists>y. sl_nestedOne (c, p) = Inr y) \<longleftrightarrow> (\<forall>g. c = Some g \<longrightarrow> everyField enumHasValues g)"
    if c: "c \<in> set (kindChildren (GetKind t))" for c p
  proof -
    obtain g where g: "c = Some g" using compiled_child_roles [OF k c] by blast
    then have child: "Some g \<in> set (typeChildren ft)" using c by (simp add: kids)
    then have ev: "everyField compiledNode g" using everyField_child [OF Field.prems(1)] by simp
    then obtain u where u: "GetType g = Some u" "compiledKind (GetKind u)"
      using everyField_node [OF ev] by (auto simp: compiledNode_def split: option.splits)
    have "everyField enumHasValues g \<longleftrightarrow> enumHasValues g \<and> (\<forall>h. Some h \<in> set (kindChildren (GetKind u)) \<longrightarrow> everyField enumHasValues h)"
      by (cases g; cases u) (use u in \<open>auto simp: everyField.simps typeChildren_def list_all_iff split: option.splits\<close>)
    then show ?thesis
      using Field.IH [OF child ev u(1)] sl_mapping_ok [OF u(2,1)]
      by (auto simp: sl_nestedOne_def g nilGetType_def u(1) andThen_eq_Inr)
  qed
  have "(\<exists>r. sl_nestedDiagnostics t path = Inr r) \<longleftrightarrow> (\<forall>x \<in> set (sl_childPaths path (GetKind t)). \<exists>y. sl_nestedOne x = Inr y)"
    unfolding sl_nested_eq by (rule foldE_total)
  also have "\<dots> \<longleftrightarrow> (\<forall>x \<in> set (sl_childPaths path (GetKind t)). \<forall>g. fst x = Some g \<longrightarrow> everyField enumHasValues g)"
    by (rule ball_cong [OF refl]) (use one sl_childPaths_kindChildren in fastforce)
  also have "\<dots> \<longleftrightarrow> (\<forall>c \<in> fst ` set (sl_childPaths path (GetKind t)). \<forall>g. c = Some g \<longrightarrow> everyField enumHasValues g)" by simp
  finally show ?case unfolding set_sl_childPaths by blast
qed

lemma sl_default_ok:
  "isMember f \<Longrightarrow> GetType f = Some t \<Longrightarrow> (\<exists>e. sl_defaultExpression f t = Inr e) \<longleftrightarrow>
   (GetPresence f = PRESENCE_IMPLICIT \<longrightarrow> GetEnum (Some t) \<noteq> None \<or> GetPrimitive (Some t) \<noteq> None)"
  by (cases "GetPresence f") (auto simp: sl_defaultExpression_def split: option.splits)

lemma sl_field_ok:
  assumes "compiledMember f" "GetName f \<noteq> []"
  shows "(\<exists>st'. sl_field st (Some f) = Inr st') \<longleftrightarrow> sl_accepts f \<and> sl_asciiLower (GetName f) \<notin> set (sl_seen st)"
proof -
  from assms(1) have m: "isMember f" and ev: "everyField compiledNode f" by (auto simp: compiledMember_def)
  then obtain t where t: "GetType f = Some t" "compiledKind (GetKind t)"
    using everyField_node [OF ev] by (auto simp: compiledNode_def split: option.splits)
  have every: "everyField enumHasValues f \<longleftrightarrow> enumHasValues f \<and> (\<forall>h. Some h \<in> set (kindChildren (GetKind t)) \<longrightarrow> everyField enumHasValues h)"
    by (cases f; cases t) (use t in \<open>auto simp: everyField.simps typeChildren_def list_all_iff split: option.splits\<close>)
  have field: "sl_field st (Some f) = Inr st' \<Longrightarrow> sl_validText (GetName f) \<and> sl_validText (GetDescription f)
      \<and> sl_asciiLower (GetName f) \<notin> set (sl_seen st) \<and> (\<exists>r. sl_mapping t (sl_quote (GetName f)) = Inr r)
      \<and> (\<exists>e. sl_defaultExpression f t = Inr e) \<and> (\<exists>n. sl_nestedDiagnostics t (GetName f) = Inr n)" for st'
    by (erule sl_field_cases) (use t in auto)
  have "sl_validText (GetName f) \<Longrightarrow> sl_validText (GetDescription f) \<Longrightarrow> sl_asciiLower (GetName f) \<notin> set (sl_seen st) \<Longrightarrow>
      \<exists>r. sl_mapping t (sl_quote (GetName f)) = Inr r \<Longrightarrow> \<exists>e. sl_defaultExpression f t = Inr e \<Longrightarrow>
      \<exists>n. sl_nestedDiagnostics t (GetName f) = Inr n \<Longrightarrow> \<exists>st'. sl_field st (Some f) = Inr st'"
    using t assms(2) by (auto simp: sl_field_def Let_def)
  with field show ?thesis
    unfolding sl_accepts_def every sl_mapping_ok [OF t(2,1), symmetric, of "sl_quote (GetName f)"]
      sl_default_ok [OF m t(1), symmetric, folded t(1)] sl_nested_ok [OF ev t(1), symmetric, of "GetName f"]
    by (metis t(1) sl_default_ok [OF m t(1)])
qed

lemma sl_fields_ok:
  assumes "\<And>c. c \<in> set fs \<Longrightarrow> \<exists>f. c = Some f \<and> compiledMember f \<and> GetName f \<noteq> []"
  shows "(\<exists>st'. foldE sl_field st fs = Inr st') \<longleftrightarrow>
    (\<forall>f. Some f \<in> set fs \<longrightarrow> sl_accepts f) \<and> distinct (map (\<lambda>c. map ToLower (nilGetName c)) fs)
    \<and> (\<lambda>c. map ToLower (nilGetName c)) ` set fs \<inter> set (sl_seen st) = {}"
  using assms
proof (induction fs arbitrary: st)
  case (Cons c fs)
  obtain f where f: "c = Some f" "compiledMember f" "GetName f \<noteq> []" using Cons.prems by (meson list.set_intros(1))
  show ?case
  proof (cases "sl_field st c")
    case (Inl e)
    then have no: "\<not> (sl_accepts f \<and> sl_asciiLower (GetName f) \<notin> set (sl_seen st))"
      using sl_field_ok [OF f(2,3), of st] by (simp add: f(1))
    then have "\<not> (sl_accepts f \<and> map ToLower (nilGetName c) \<notin> set (sl_seen st))"
      by (auto simp: sl_accepts_def sl_validText_def sl_asciiLower_valid f(1) nilGetName_def)
    with Inl show ?thesis by (auto simp: f(1))
  next
    case (Inr st1)
    then have ok: "sl_accepts f" "sl_asciiLower (GetName f) \<notin> set (sl_seen st)"
      using sl_field_ok [OF f(2,3), of st] by (auto simp: f(1))
    have low: "sl_asciiLower (GetName f) = map ToLower (nilGetName c)"
      using ok(1) by (auto simp: sl_accepts_def sl_validText_def sl_asciiLower_valid f(1) nilGetName_def)
    have seen: "sl_seen st1 = map ToLower (nilGetName c) # sl_seen st"
      using Inr by (rule sl_field_cases) (use f(1) low in auto)
    have "(\<exists>st'. foldE sl_field st1 fs = Inr st') \<longleftrightarrow>
      (\<forall>f. Some f \<in> set fs \<longrightarrow> sl_accepts f) \<and> distinct (map (\<lambda>c. map ToLower (nilGetName c)) fs)
      \<and> (\<lambda>c. map ToLower (nilGetName c)) ` set fs \<inter> set (sl_seen st1) = {}"
      using Cons.IH [of st1] Cons.prems by (meson list.set_intros(2))
    with Inr ok low show ?thesis by (auto simp: f(1) seen)
  qed
qed simp

section \<open>Properties\<close>

text \<open>(C27) SQLite accepts a compiled schema exactly if it has a field, the table name is valid and not
  reserved, all texts are valid, no two columns differ only in case, every enum has a value and every
  field without presence is a scalar or an enum.\<close>

theorem compiled_schema_fits_sqlite:
  assumes "CompileMessage E descriptor previous = Inr ds"
  shows "(\<exists>ddl diagnostics. SqliteDDL (Some ds) = Inr (ddl, diagnostics)) \<longleftrightarrow>
    ds_fields ds \<noteq> [] \<and> sl_validText (ds_name ds) \<and> ds_name ds \<noteq> []
    \<and> \<not> HasPrefix (map ToLower (ds_name ds)) ''sqlite_'' \<and> sl_validText (ds_description ds)
    \<and> (\<forall>f. Some f \<in> set (ds_fields ds) \<longrightarrow> sl_accepts f)
    \<and> distinct (map (\<lambda>c. map ToLower (nilGetName c)) (ds_fields ds))"
proof -
  let ?st = "\<lparr>sl_definitions = [], sl_diagnostics = [], sl_seen = [], sl_oneofs = ([], [])\<rparr>"
  have "(\<exists>ddl diagnostics. SqliteDDL (Some ds) = Inr (ddl, diagnostics)) \<longleftrightarrow>
      ds_fields ds \<noteq> [] \<and> sl_validText (ds_name ds) \<and> ds_name ds \<noteq> [] \<and> \<not> HasPrefix (sl_asciiLower (ds_name ds)) ''sqlite_''
      \<and> sl_validText (ds_description ds) \<and> (\<exists>st'. foldE sl_field ?st (ds_fields ds) = Inr st')"
    by (auto simp: SqliteDDL_def andThen_eq_Inr)
  also have "(\<exists>st'. foldE sl_field ?st (ds_fields ds) = Inr st') \<longleftrightarrow>
      (\<forall>f. Some f \<in> set (ds_fields ds) \<longrightarrow> sl_accepts f) \<and> distinct (map (\<lambda>c. map ToLower (nilGetName c)) (ds_fields ds))"
    using sl_fields_ok [of "ds_fields ds" ?st] compiledFields_member [OF compiled_fields [OF assms]] by simp
  finally show ?thesis
    using sl_asciiLower_valid [of "ds_name ds"] by (auto simp: sl_validText_def)
qed

text \<open>(C28) Whatever stands in names and descriptions, a database that reads the statement reads exactly
  the table the dataset asks for, part by part: the descriptions as comment lines, the table's name, for
  every field in order its column with storage class, nullability, default and the check of its logical
  type with all its constants, and for every oneof the check that at most one of its columns is set.
  Nothing leaks out of its quotes or its comment, and no field is missing.\<close>

theorem sqlite_reads_back:
  assumes "SqliteDDL (Some ds) = Inr (ddl, diagnostics)"
  shows "map (\<lambda>x. Some (fst x)) (typedFields (ds_fields ds)) = ds_fields ds \<and> sqlParts ddl = Some (sl_spec ds)"
  using assms by (rule sl_ddl_reads)

text \<open>(C29) In an accepted dataset no two columns have names that SQLite folds together, and there is one
  diagnostic per logical field, parents before children.\<close>

theorem sqlite_columns_complete:
  assumes "SqliteDDL (Some ds) = Inr (ddl, diagnostics)"
  shows "distinct (map (\<lambda>f. map ToLower (nilGetName f)) (ds_fields ds))
    \<and> map field_path diagnostics = concat (map (\<lambda>f. fieldPaths f (nilGetName f)) (ds_fields ds))"
  using assms
proof (rule sl_ddl_cases)
  fix st
  assume st: "foldE sl_field \<lparr>sl_definitions = [], sl_diagnostics = [], sl_seen = [], sl_oneofs = ([], [])\<rparr> (ds_fields ds) = Inr st"
    and "diagnostics = sl_diagnostics st"
  with sl_fields_facts [OF st] sl_seen_distinct [OF st] show ?thesis by simp
qed

section \<open>Witnesses\<close>

lemma schemaV1_conditions:
  "ds_fields schemaV1 \<noteq> []" "sl_validText (ds_name schemaV1)" "ds_name schemaV1 \<noteq> []"
  "\<not> HasPrefix (map ToLower (ds_name schemaV1)) ''sqlite_''" "sl_validText (ds_description schemaV1)"
  "list_all (\<lambda>c. case c of None \<Rightarrow> True | Some f \<Rightarrow> sl_accepts f) (ds_fields schemaV1)"
  "distinct (map (\<lambda>c. map ToLower (nilGetName c)) (ds_fields schemaV1))"
  by code_simp+

lemma sqlite_V1: "SqliteDDL (Some schemaV1) = Inr (fst sqliteV1, snd sqliteV1)"
proof -
  have "isl (SqliteDDL (Some schemaV1)) = False" by code_simp
  then show ?thesis by (cases "SqliteDDL (Some schemaV1)") (simp_all add: sqliteV1_def)
qed

theorem compiled_schema_fits_sqlite_witness:
  "\<exists>ddl diagnostics. SqliteDDL (Some schemaV1) = Inr (ddl, diagnostics)"
  unfolding compiled_schema_fits_sqlite [OF compile_V1]
  using schemaV1_conditions by (auto simp: list_all_iff)

theorem sqlite_reads_back_witness:
  "length (typedFields (ds_fields schemaV1)) = length (ds_fields schemaV1) \<and> ds_fields schemaV1 \<noteq> []
    \<and> sqlParts (fst sqliteV1) = Some (sl_spec schemaV1)"
  using sqlite_reads_back [OF sqlite_V1] schemaV1_conditions(1) by (metis length_map)

theorem sqlite_columns_complete_witness:
  "map field_path (snd sqliteV1) = concat (map (\<lambda>f. fieldPaths f (nilGetName f)) (ds_fields schemaV1))"
  using sqlite_columns_complete [OF sqlite_V1] by simp

end
