(* ===== verification/Clickhouse.thy ===== *)
theory Clickhouse
  imports Dialects
begin

text \<open>
  The ClickHouse dialect (\<^verbatim>\<open>go/data/clickhouse/schema.go\<close>): columns and check constraints of one dataset,
  with the diagnostics of every logical field. An error is its text with the diagnostics the code
  returns next to it, because the text of an inner error becomes the message of an outer diagnostic.
  A check is written with a placeholder for the value it speaks about; every enclosing field replaces
  the placeholder by the way to reach the value.
\<close>

section \<open>Tables\<close>

record ch_column =
  cc_Name :: string
  cc_Type :: string
  cc_DefaultExpression :: string
  cc_Comment :: string
  cc_FieldPath :: string
  cc_StableID :: int
  cc_Synthetic :: bool

record ch_constraint =
  ck_Name :: string
  ck_Expression :: string
  ck_FieldPath :: string

record ch_table =
  ct_Dataset :: string
  ct_SourceMessage :: string
  ct_Description :: string
  ct_Columns :: "ch_column list"
  ct_Constraints :: "ch_constraint list"

record ch_declaration =
  cd_name :: string
  cd_sqlType :: string
  cd_defaultExpression :: string
  cd_comment :: string
  cd_fieldPath :: string
  cd_stableID :: int
  cd_synthetic :: bool

record ch_validation =
  cv_fieldPath :: string
  cv_kind :: string
  cv_expression :: string

record ch_mappedType =
  mt_sqlType :: string
  mt_compatibility :: mapping_compatibility
  mt_message :: string
  mt_diagnostics :: "mapping_diagnostic list"
  mt_validations :: "ch_validation list"
  mt_composite :: bool

record ch_mappedField =
  mf_sqlType :: string
  mf_defaultExpression :: string
  mf_validations :: "ch_validation list"

type_synonym ch_error = "string \<times> mapping_diagnostic list"

section \<open>Text\<close>

definition maxFixedStringBytes :: int where
  "maxFixedStringBytes = 256"

definition reservedNamePrefix :: string where
  "reservedNamePrefix = ''__invariant_''"

definition constraintValuePlaceholder :: string where
  "constraintValuePlaceholder = [CHR 0x00] @ ''invariant-value'' @ [CHR 0x00]"

definition ch_quoteIdentifier :: "string \<Rightarrow> string" where
  "ch_quoteIdentifier v =
     [CHR 0x60] @ replaceBytes (\<lambda>c. if c = CHR 0x5C then [CHR 0x5C, CHR 0x5C]
       else if c = CHR 0x60 then [CHR 0x5C, CHR 0x60] else [c]) v @ [CHR 0x60]"

definition ch_quoteLiteral :: "string \<Rightarrow> string" where
  "ch_quoteLiteral v =
     [CHR 0x27] @ replaceBytes (\<lambda>c. if c = CHR 0x5C then [CHR 0x5C, CHR 0x5C]
       else if c = CHR 0x27 then [CHR 0x5C, CHR 0x27]
       else if c = CHR 0x0A then [CHR 0x5C, CHR ''n'']
       else if c = CHR 0x0D then [CHR 0x5C, CHR ''r'']
       else if c = CHR 0x09 then [CHR 0x5C, CHR ''t''] else [c]) v @ [CHR 0x27]"

text \<open>The error of an identifier or of a text, if any.\<close>

definition ch_validateIdentifier :: "string \<Rightarrow> string option" where
  "ch_validateIdentifier v =
     (if v = [] then Some ''identifier must not be empty''
      else if \<not> ValidString v then Some ''identifier is not valid UTF-8''
      else if list_ex (\<lambda>(r, _). IsControl r) (runes v) then Some ''identifier contains a control character''
      else None)"

definition ch_validateText :: "string \<Rightarrow> string option" where
  "ch_validateText v =
     (if \<not> ValidString v then Some ''text is not valid UTF-8''
      else if list_ex (\<lambda>(r, _). IsControl r \<and> r \<noteq> 0x0A \<and> r \<noteq> 0x0D \<and> r \<noteq> 0x09) (runes v)
      then Some ''text contains an unsupported control character''
      else None)"

definition replaceValue :: "string \<Rightarrow> string \<Rightarrow> string" where
  "replaceValue expression replacement = replaceAll constraintValuePlaceholder replacement expression"

definition tupleElementExpression :: "string \<Rightarrow> string \<Rightarrow> string" where
  "tupleElementExpression v name = ''tupleElement('' @ v @ '', '' @ ch_quoteLiteral name @ '')''"

definition scopeElementExpression :: "string \<Rightarrow> bool \<Rightarrow> string" where
  "scopeElementExpression name topLevel =
     (if topLevel then ch_quoteIdentifier name
      else tupleElementExpression constraintValuePlaceholder name)"

definition oneofCaseName :: "string \<Rightarrow> string" where
  "oneofCaseName name = reservedNamePrefix @ ''oneof_'' @ name @ ''_case''"

definition unsupportedDiagnostic :: "string \<Rightarrow> string \<Rightarrow> mapping_diagnostic" where
  "unsupportedDiagnostic path message =
     \<lparr>field_path = (if path = [] then ''<dataset>'' else path),
      compatibility = MAPPING_COMPATIBILITY_UNSUPPORTED, diag_message = message\<rparr>"

text \<open>\<^verbatim>\<open>fmt.Errorf("clickhouse: field %q: %s", path, message)\<close> with the diagnostic for the same message.\<close>

definition ch_reject :: "string \<Rightarrow> string \<Rightarrow> ch_error" where
  "ch_reject path message =
     (''clickhouse: field '' @ Quote path @ '': '' @ message, [unsupportedDiagnostic path message])"

definition ch_jsonRangeReduction :: "json_kind \<Rightarrow> string" where
  "ch_jsonRangeReduction kind = (case kind of
       JSON_KIND_ANY \<Rightarrow> ''standard ProtoJSON requires each populated Any type URL to resolve to a known message descriptor; embedded dynamic numbers must be finite''
     | JSON_KIND_STRUCT \<Rightarrow> ''standard ProtoJSON requires dynamic numbers to be finite; NaN and infinities are not representable''
     | JSON_KIND_VALUE \<Rightarrow> ''standard ProtoJSON requires dynamic numbers to be finite; NaN and infinities are not representable''
     | JSON_KIND_LIST_VALUE \<Rightarrow> ''standard ProtoJSON requires dynamic numbers to be finite; NaN and infinities are not representable''
     | _ \<Rightarrow> ''standard ProtoJSON requires an explicitly supported dynamic JSON kind'')"

definition preserveStrongerCompatibility :: "mapping_compatibility \<Rightarrow> mapping_compatibility" where
  "preserveStrongerCompatibility level =
     (if level = MAPPING_COMPATIBILITY_LOSSLESS then MAPPING_COMPATIBILITY_REPRESENTATION_CHANGED else level)"

text \<open>The texts of the errors of the shared parameter checks.\<close>

definition ch_parameterText :: "parameter_error \<Rightarrow> string" where
  "ch_parameterText e = (case e of
       BadPrecision \<Rightarrow> ''decimal precision must be between 1 and 38''
     | BadScale \<Rightarrow> ''decimal scale must not exceed precision''
     | WidthZero \<Rightarrow> ''fixed byte length must be positive''
     | WidthTooLong n \<Rightarrow> ''fixed byte length '' @ FormatInt n @ '' exceeds ClickHouse'' @ [CHR 0x27]
         @ ''s conventional FixedString limit of '' @ FormatInt maxFixedStringBytes
         @ ''; larger widths require allow_suspicious_fixed_string_types and are not emitted'')"

section \<open>Scalar types\<close>

definition ch_mapPrimitive :: "primitive_kind \<Rightarrow> string + string \<times> string" where
  "ch_mapPrimitive kind =
     (let signed64 = Inr (''Int64'', ''protobuf signed 64-bit integer maps losslessly to ClickHouse Int64'');
          unsigned64 = Inr (''UInt64'', ''protobuf unsigned 64-bit integer maps losslessly to ClickHouse UInt64'');
          signed32 = Inr (''Int32'', ''protobuf signed 32-bit integer maps losslessly to ClickHouse Int32'');
          unsigned32 = Inr (''UInt32'', ''protobuf unsigned 32-bit integer maps losslessly to ClickHouse UInt32'')
      in case kind of
        PRIMITIVE_KIND_DOUBLE \<Rightarrow> Inr (''Float64'', ''protobuf double maps losslessly to ClickHouse Float64'')
      | PRIMITIVE_KIND_FLOAT \<Rightarrow> Inr (''Float32'', ''protobuf float maps losslessly to ClickHouse Float32'')
      | PRIMITIVE_KIND_INT64 \<Rightarrow> signed64
      | PRIMITIVE_KIND_SFIXED64 \<Rightarrow> signed64
      | PRIMITIVE_KIND_SINT64 \<Rightarrow> signed64
      | PRIMITIVE_KIND_UINT64 \<Rightarrow> unsigned64
      | PRIMITIVE_KIND_FIXED64 \<Rightarrow> unsigned64
      | PRIMITIVE_KIND_INT32 \<Rightarrow> signed32
      | PRIMITIVE_KIND_SFIXED32 \<Rightarrow> signed32
      | PRIMITIVE_KIND_SINT32 \<Rightarrow> signed32
      | PRIMITIVE_KIND_FIXED32 \<Rightarrow> unsigned32
      | PRIMITIVE_KIND_UINT32 \<Rightarrow> unsigned32
      | PRIMITIVE_KIND_BOOL \<Rightarrow> Inr (''Bool'', ''protobuf bool maps losslessly to ClickHouse Bool'')
      | PRIMITIVE_KIND_STRING \<Rightarrow> Inr (''String'', ''protobuf UTF-8 string maps to ClickHouse String with a generated UTF-8 CHECK'')
      | PRIMITIVE_KIND_BYTES \<Rightarrow> Inr (''String'', ''protobuf bytes map losslessly to binary-safe ClickHouse String'')
      | _ \<Rightarrow> Inl (''unsupported primitive kind '' @ primitiveKindString kind))"

definition implicitCapable :: "data_type \<Rightarrow> bool" where
  "implicitCapable t = (case GetKind t of DataType_Primitive _ \<Rightarrow> True | DataType_Enum _ \<Rightarrow> True | _ \<Rightarrow> False)"

definition ch_implicitDefault :: "data_type \<Rightarrow> string" where
  "ch_implicitDefault t =
     (if GetEnum (Some t) \<noteq> None then ''0''
      else let k = PrimitiveGetKind (GetPrimitive (Some t))
           in if k = PRIMITIVE_KIND_BOOL then ''false''
              else if k = PRIMITIVE_KIND_STRING \<or> k = PRIMITIVE_KIND_BYTES then [CHR 0x27, CHR 0x27]
              else ''0'')"

text \<open>A type without children and without checks.\<close>

definition ch_plain :: "string \<Rightarrow> mapping_compatibility \<Rightarrow> string \<Rightarrow> ch_mappedType" where
  "ch_plain sqlType level message =
     \<lparr>mt_sqlType = sqlType, mt_compatibility = level, mt_message = message, mt_diagnostics = [],
      mt_validations = [], mt_composite = False\<rparr>"

text \<open>The numbers of a closed enum, without repetition and in order.\<close>

definition ch_enumNumbers :: "enum_value option list \<Rightarrow> string + int list" where
  "ch_enumNumbers vs =
     andThen (foldE (\<lambda>numbers v. case v of
         None \<Rightarrow> Inl ''enum contains a nil value''
       | Some x \<Rightarrow> Inr (if ev_number x \<in> set numbers then numbers else numbers @ [ev_number x])) [] vs)
       (\<lambda>numbers. Inr (sort numbers))"

definition ch_mapEnum :: "enum_type option \<Rightarrow> string \<Rightarrow> string + ch_mappedType" where
  "ch_mapEnum e path =
     (let message = ''protobuf enum numeric values map losslessly to ClickHouse Int32; symbols and aliases remain canonical in SchemaBundle''
      in if e = None \<or> EnumGetValues e = [] then Inl ''enum has no declared values''
         else if \<not> EnumGetClosed e then Inr (ch_plain ''Int32'' MAPPING_COMPATIBILITY_LOSSLESS message)
         else andThen (ch_enumNumbers (EnumGetValues e)) (\<lambda>numbers.
           Inr ((ch_plain ''Int32'' MAPPING_COMPATIBILITY_LOSSLESS (message @ ''; a CHECK retains the closed numeric domain''))
             \<lparr>mt_validations := [\<lparr>cv_fieldPath = path, cv_kind = ''closed_enum'',
                cv_expression = constraintValuePlaceholder @ '' IN ('' @ join '', '' (map FormatInt numbers) @ '')''\<rparr>]\<rparr>)))"

definition ch_mapScalar :: "type_kind \<Rightarrow> string \<Rightarrow> string + ch_mappedType" where
  "ch_mapScalar k path =
     (case k of
        DataType_Primitive p \<Rightarrow>
          andThen (ch_mapPrimitive (PrimitiveGetKind p)) (\<lambda>(sqlType, message).
          Inr ((ch_plain sqlType MAPPING_COMPATIBILITY_LOSSLESS message)
            \<lparr>mt_validations := (if PrimitiveGetKind p = PRIMITIVE_KIND_STRING
               then [\<lparr>cv_fieldPath = path, cv_kind = ''utf8'',
                      cv_expression = ''isValidUTF8('' @ constraintValuePlaceholder @ '')''\<rparr>] else [])\<rparr>))
      | DataType_Enum e \<Rightarrow> ch_mapEnum e path
      | DataType_Timestamp ts \<Rightarrow>
          if ts = None \<or> TimestampGetUnit ts \<noteq> TIME_UNIT_NANOSECOND \<or> TimestampGetTimezone ts \<noteq> ''UTC''
          then Inl ''timestamp must use nanoseconds and UTC''
          else Inr (ch_plain (''DateTime64(9, '' @ [CHR 0x27] @ ''UTC'' @ [CHR 0x27] @ '')'') MAPPING_COMPATIBILITY_RANGE_REDUCED
            (''ClickHouse DateTime64(9, '' @ [CHR 0x27] @ ''UTC'' @ [CHR 0x27]
               @ '') preserves UTC nanoseconds but only covers approximately 1677-09-21 through 2262-04-11, narrower than protobuf Timestamp''))
      | DataType_Duration d \<Rightarrow>
          if d = None \<or> DurationGetUnit d \<noteq> TIME_UNIT_NANOSECOND then Inl ''duration must use nanoseconds''
          else Inr (ch_plain ''Int64'' MAPPING_COMPATIBILITY_RANGE_REDUCED
            ''ClickHouse has no duration type; exact nanoseconds use Int64, whose range is narrower than protobuf Duration'')
      | DataType_Json j \<Rightarrow>
          if j = None \<or> JsonGetKind j = JSON_KIND_UNSPECIFIED then Inl ''invalid protobuf JSON logical type''
          else Inr ((ch_plain ''String'' MAPPING_COMPATIBILITY_RANGE_REDUCED
              (''protobuf '' @ jsonKindString (JsonGetKind j) @ '' is encoded as canonical ProtoJSON text in ClickHouse String; ''
                @ ch_jsonRangeReduction (JsonGetKind j)))
            \<lparr>mt_validations := [\<lparr>cv_fieldPath = path, cv_kind = ''json'',
               cv_expression = ''isValidJSON('' @ constraintValuePlaceholder @ '')''\<rparr>]\<rparr>)
      | DataType_Decimal d \<Rightarrow>
          andThen (mapErr ch_parameterText (decimalParameters d)) (\<lambda>(precision, scale).
          Inr (ch_plain (''Decimal('' @ FormatUint precision @ '', '' @ FormatUint scale @ '')'')
            MAPPING_COMPATIBILITY_REPRESENTATION_CHANGED
            (''canonical decimal text is decoded into ClickHouse Decimal('' @ FormatUint precision @ '', '' @ FormatUint scale
              @ ''); precision and scale are preserved'')))
      | DataType_Uuid u \<Rightarrow>
          if u = None then Inl ''invalid UUID logical type''
          else Inr (ch_plain ''UUID'' MAPPING_COMPATIBILITY_REPRESENTATION_CHANGED
            ''canonical UUID text is decoded into ClickHouse UUID'')
      | DataType_FixedBytes b \<Rightarrow>
          andThen (mapErr ch_parameterText (fixedByteWidth maxFixedStringBytes b)) (\<lambda>width.
          Inr (ch_plain (''FixedString('' @ FormatUint width @ '')'') MAPPING_COMPATIBILITY_REPRESENTATION_CHANGED
            (''exact-width protobuf bytes map to ClickHouse FixedString('' @ FormatUint width
              @ ''); publishers must validate exactly '' @ FormatUint width
              @ '' bytes before insertion because ClickHouse pads shorter input with NUL bytes'')))
      | _ \<Rightarrow> Inl ''unspecified logical type'')"

section \<open>Scopes\<close>

text \<open>The first loop of \<^verbatim>\<open>mapScope\<close>: the names of a scope, with the fields that were checked.\<close>

definition ch_checkName ::
    "string \<Rightarrow> bool \<Rightarrow> (string \<times> string) list \<times> field list \<Rightarrow> field option
     \<Rightarrow> ch_error + (string \<times> string) list \<times> field list" where
  "ch_checkName path topLevel st field = (case st of (seenNames, checked) \<Rightarrow>
     case field of
       None \<Rightarrow> Inl (''clickhouse: logical scope contains a nil field'',
         [unsupportedDiagnostic path ''logical scope contains a nil field''])
     | Some f \<Rightarrow>
         let name = GetName f; fieldPath = joinPath path name in
         case ch_validateIdentifier name of
           Some err \<Rightarrow> Inl (ch_reject fieldPath err)
         | None \<Rightarrow>
             if HasPrefix name reservedNamePrefix then
               Inl (ch_reject fieldPath (''storage name '' @ Quote name @ '' uses the ClickHouse renderer'' @ [CHR 0x27]
                 @ ''s reserved '' @ Quote reservedNamePrefix @ '' namespace''))
             else if \<not> topLevel \<and> name = ''null'' then
               Inl (ch_reject fieldPath (''ClickHouse reserves the Tuple element name '' @ [CHR 0x22] @ ''null'' @ [CHR 0x22]))
             else case map_of seenNames name of
               Some previous \<Rightarrow>
                 let message = ''storage names '' @ Quote previous @ '' and '' @ Quote fieldPath
                   @ '' collide as ClickHouse identifier '' @ Quote name
                 in Inl (''clickhouse: '' @ message, [unsupportedDiagnostic fieldPath message])
             | None \<Rightarrow> Inr (AList.update name fieldPath seenNames, checked @ [f]))"

record oneof_group =
  og_name :: string
  og_caseName :: string
  og_fieldPath :: string
  og_members :: "field list"
  og_numbers :: "nat list"
  og_firstIndex :: nat

definition lastNumber :: "field \<Rightarrow> nat" where
  "lastNumber f = (if GetProtoNumberPath f = [] then 0 else last (GetProtoNumberPath f))"

text \<open>A new group for the first member of a oneof.\<close>

definition ch_newGroup ::
    "string \<Rightarrow> (string \<times> oneof_group) list \<Rightarrow> nat \<Rightarrow> field \<Rightarrow> ch_error + oneof_group" where
  "ch_newGroup path groups index f =
     (case map_of groups (GetOneof f) of
        Some g \<Rightarrow> Inr g
      | None \<Rightarrow>
          (case ch_validateIdentifier (oneofCaseName (GetOneof f)) of
             Some err \<Rightarrow> Inl (ch_reject (joinPath path (GetName f)) (''derived oneof discriminator: '' @ err))
           | None \<Rightarrow> Inr \<lparr>og_name = GetOneof f, og_caseName = oneofCaseName (GetOneof f),
               og_fieldPath = joinPath path (GetOneof f), og_members = [], og_numbers = [], og_firstIndex = index\<rparr>))"

text \<open>The second loop of \<^verbatim>\<open>mapScope\<close>: the oneofs of a scope.\<close>

definition ch_groupMember ::
    "string \<Rightarrow> (string \<times> string) list \<Rightarrow> (string \<times> oneof_group) list \<Rightarrow> nat \<times> field
     \<Rightarrow> ch_error + (string \<times> oneof_group) list" where
  "ch_groupMember path seenNames groups x = (case x of (index, f) \<Rightarrow>
     let fieldPath = joinPath path (GetName f) in
     if GetOneof f = [] then
       if GetPresence f = PRESENCE_ONEOF then Inl (ch_reject fieldPath ''oneof presence is missing its oneof name'')
       else Inr groups
     else if GetPresence f \<noteq> PRESENCE_ONEOF \<or> \<not> GetNullable f then
       Inl (ch_reject fieldPath (''oneof member must have oneof presence and nullable=true, got ''
         @ presenceString (GetPresence f) @ '' and nullable='' @ (if GetNullable f then ''true'' else ''false'')))
     else
       andThen (ch_newGroup path groups index f) (\<lambda>g.
       case map_of seenNames (og_caseName g) of
         Some previous \<Rightarrow>
           let message = ''oneof '' @ Quote (og_name g) @ '' discriminator '' @ Quote (og_caseName g)
             @ '' collides with storage field '' @ Quote previous
           in Inl (''clickhouse: '' @ message, [unsupportedDiagnostic (og_fieldPath g) message])
       | None \<Rightarrow>
           if lastNumber f = 0 then Inl (ch_reject fieldPath ''oneof member has no protobuf field number'')
           else if lastNumber f \<in> set (og_numbers g) then
             Inl (ch_reject fieldPath (''oneof '' @ Quote (og_name g) @ '' repeats protobuf field number '' @ FormatUint (lastNumber f)))
           else Inr (AList.update (GetOneof f)
             (g\<lparr>og_members := og_members g @ [f], og_numbers := og_numbers g @ [lastNumber f]\<rparr>) groups)))"

text \<open>The discriminator column of a oneof and its check.\<close>

definition ch_discriminator :: "oneof_group \<Rightarrow> ch_declaration" where
  "ch_discriminator g =
     \<lparr>cd_name = og_caseName g, cd_sqlType = ''Int32'', cd_defaultExpression = ''0'',
      cd_comment = ''Invariant oneof discriminator for '' @ og_name g @ '': 0=unset, ''
        @ join '', '' (map (\<lambda>m. FormatUint (lastNumber m) @ ''='' @ GetName m) (og_members g)),
      cd_fieldPath = og_fieldPath g, cd_stableID = 0, cd_synthetic = True\<rparr>"

definition ch_caseCheck :: "bool \<Rightarrow> oneof_group \<Rightarrow> ch_validation" where
  "ch_caseCheck topLevel g =
     \<lparr>cv_fieldPath = og_fieldPath g, cv_kind = ''oneof_case'',
      cv_expression = scopeElementExpression (og_caseName g) topLevel @ '' IN (''
        @ join '', '' (''0'' # map FormatUint (sort (og_numbers g))) @ '')''\<rparr>"

definition ch_presenceCheck :: "bool \<Rightarrow> string \<Rightarrow> oneof_group \<Rightarrow> field \<Rightarrow> ch_validation" where
  "ch_presenceCheck topLevel fieldPath g f =
     \<lparr>cv_fieldPath = fieldPath, cv_kind = ''oneof_presence'',
      cv_expression = ''('' @ scopeElementExpression (og_caseName g) topLevel @ '' = '' @ FormatUint (lastNumber f) @ '') = ''
        @ tupleElementExpression (scopeElementExpression (GetName f) topLevel) ''present''\<rparr>"

record ch_scope =
  cs_declarations :: "ch_declaration list"
  cs_validations :: "ch_validation list"
  cs_diagnostics :: "mapping_diagnostic list"
  cs_emitted :: "string list"

text \<open>The third loop of \<^verbatim>\<open>mapScope\<close>: one field, after the discriminator of the oneof it opens.\<close>

definition ch_openGroup :: "(string \<times> oneof_group) list \<Rightarrow> bool \<Rightarrow> ch_scope \<Rightarrow> nat \<Rightarrow> field \<Rightarrow> ch_scope" where
  "ch_openGroup groups topLevel st index f =
     (case map_of groups (GetOneof f) of
        None \<Rightarrow> st
      | Some g \<Rightarrow>
          if og_name g \<notin> set (cs_emitted st) \<and> og_firstIndex g = index
          then st\<lparr>cs_declarations := cs_declarations st @ [ch_discriminator g],
                  cs_validations := cs_validations st @ [ch_caseCheck topLevel g],
                  cs_emitted := og_name g # cs_emitted st\<rparr>
          else st)"

definition ch_scopeField ::
    "(field option \<Rightarrow> string \<Rightarrow> ch_error + ch_mappedField \<times> mapping_diagnostic list)
     \<Rightarrow> (string \<times> oneof_group) list \<Rightarrow> string \<Rightarrow> bool \<Rightarrow> ch_scope \<Rightarrow> nat \<times> field \<Rightarrow> ch_error + ch_scope" where
  "ch_scopeField mapField groups path topLevel st0 x = (case x of (index, f) \<Rightarrow>
     let fieldPath = joinPath path (GetName f);
         st = ch_openGroup groups topLevel st0 index f
     in andThen (mapErr (\<lambda>(e, ds). (e, cs_diagnostics st @ ds)) (mapField (Some f) fieldPath)) (\<lambda>(mapped, ds).
        let checks = map (\<lambda>v. v\<lparr>cv_expression := replaceValue (cv_expression v) (scopeElementExpression (GetName f) topLevel)\<rparr>)
              (mf_validations mapped)
        in Inr (st\<lparr>
          cs_declarations := cs_declarations st @
            [\<lparr>cd_name = GetName f, cd_sqlType = mf_sqlType mapped, cd_defaultExpression = mf_defaultExpression mapped,
              cd_comment = GetDescription f, cd_fieldPath = fieldPath, cd_stableID = GetStableId f, cd_synthetic = False\<rparr>],
          cs_validations := cs_validations st @
            (case map_of groups (GetOneof f) of None \<Rightarrow> [] | Some g \<Rightarrow> [ch_presenceCheck topLevel fieldPath g f]) @ checks,
          cs_diagnostics := cs_diagnostics st @ ds\<rparr>)))"

definition ch_mapScope ::
    "(field option \<Rightarrow> string \<Rightarrow> ch_error + ch_mappedField \<times> mapping_diagnostic list)
     \<Rightarrow> field option list \<Rightarrow> string \<Rightarrow> bool \<Rightarrow> ch_error + ch_scope" where
  "ch_mapScope mapField fs path topLevel =
     andThen (foldE (ch_checkName path topLevel) ([], []) fs) (\<lambda>(seenNames, checked).
     andThen (foldE (ch_groupMember path seenNames) [] (zip [0..<length checked] checked)) (\<lambda>groups.
     foldE (ch_scopeField mapField groups path topLevel)
       \<lparr>cs_declarations = [], cs_validations = [], cs_diagnostics = [], cs_emitted = []\<rparr>
       (zip [0..<length checked] checked)))"

section \<open>Composite types\<close>

text \<open>\<^verbatim>\<open>mapType\<close>; the call of \<^verbatim>\<open>mapField\<close> on the children is the first argument.\<close>

definition ch_mapStruct ::
    "(field option \<Rightarrow> string \<Rightarrow> ch_error + ch_mappedField \<times> mapping_diagnostic list)
     \<Rightarrow> field option list option \<Rightarrow> string \<Rightarrow> ch_error + ch_mappedType" where
  "ch_mapStruct mapField s path =
     (if s = None then Inl (''invalid struct logical type'', [])
      else andThen (ch_mapScope mapField (StructGetFields s) path False) (\<lambda>st.
        let empty = (cs_declarations st = []);
            elements = (if empty then [(''__invariant_unit'', ''Bool'')]
              else map (\<lambda>d. (cd_name d, cd_sqlType d)) (cs_declarations st));
            unitCheck = \<lparr>cv_fieldPath = path, cv_kind = ''unit'',
              cv_expression = tupleElementExpression constraintValuePlaceholder ''__invariant_unit'' @ '' = false''\<rparr>
        in Inr \<lparr>mt_sqlType = ''Tuple('' @ join '', '' (map (\<lambda>(n, ty). ch_quoteIdentifier n @ '' '' @ ty) elements) @ '')'',
             mt_compatibility = (if empty then MAPPING_COMPATIBILITY_REPRESENTATION_CHANGED else MAPPING_COMPATIBILITY_LOSSLESS),
             mt_message = (if empty
               then ''empty protobuf message uses a constrained synthetic Bool because ClickHouse has no empty Tuple''
               else ''protobuf message maps to a ClickHouse named Tuple''),
             mt_diagnostics = cs_diagnostics st,
             mt_validations = cs_validations st @ (if empty then [unitCheck] else []),
             mt_composite = True\<rparr>))"

definition ch_mapList ::
    "(field option \<Rightarrow> string \<Rightarrow> ch_error + ch_mappedField \<times> mapping_diagnostic list)
     \<Rightarrow> (field option \<times> nat) option \<Rightarrow> string \<Rightarrow> ch_error + ch_mappedType" where
  "ch_mapList mapField l path =
     (if l = None \<or> ListGetElement l = None then Inl (''list is missing its element'', [])
      else andThen (mapField (ListGetElement l) (path @ ''[]'')) (\<lambda>(element, diagnostics).
        let n = ListGetFixedLength l;
            lengthCheck = \<lparr>cv_fieldPath = path, cv_kind = ''fixed_list'',
              cv_expression = ''length('' @ constraintValuePlaceholder @ '') = '' @ FormatUint n\<rparr>
        in Inr \<lparr>mt_sqlType = ''Array('' @ mf_sqlType element @ '')'',
             mt_compatibility = MAPPING_COMPATIBILITY_LOSSLESS,
             mt_message = (if n \<noteq> 0
               then ''fixed-cardinality protobuf repeated field maps losslessly to ClickHouse Array(T) with an exact length CHECK of '' @ FormatUint n
               else ''protobuf repeated field maps losslessly to ClickHouse Array(T)''),
             mt_diagnostics = diagnostics,
             mt_validations = (if n \<noteq> 0 then [lengthCheck] else []) @
               map (\<lambda>v. v\<lparr>cv_expression := ''arrayAll(element -> ('' @ replaceValue (cv_expression v) ''element'' @ ''), ''
                 @ constraintValuePlaceholder @ '')''\<rparr>) (mf_validations element),
             mt_composite = True\<rparr>))"

definition ch_mapMap ::
    "(field option \<Rightarrow> string \<Rightarrow> ch_error + ch_mappedField \<times> mapping_diagnostic list)
     \<Rightarrow> (field option \<times> field option) option \<Rightarrow> string \<Rightarrow> ch_error + ch_mappedType" where
  "ch_mapMap mapField m path =
     (if m = None \<or> MapGetKey m = None \<or> MapGetValue m = None then Inl (''map is missing its key or value'', [])
      else andThen (mapField (MapGetKey m) (path @ ''.key'')) (\<lambda>(key, keyDiagnostics).
        andThen (mapErr (\<lambda>(e, ds). (e, keyDiagnostics @ ds)) (mapField (MapGetValue m) (path @ ''.value''))) (\<lambda>(val, valueDiagnostics).
        if HasPrefix (mf_sqlType key) ''Nullable(''
        then Inl (''ClickHouse Map keys cannot be nullable'', keyDiagnostics @ valueDiagnostics)
        else Inr \<lparr>mt_sqlType = ''Map('' @ mf_sqlType key @ '', '' @ mf_sqlType val @ '')'',
             mt_compatibility = MAPPING_COMPATIBILITY_REPRESENTATION_CHANGED,
             mt_message = ''protobuf map maps to ClickHouse Map(K, V); a recursive CHECK rejects ClickHouse'' @ [CHR 0x27]
               @ ''s otherwise-permitted duplicate keys'',
             mt_diagnostics = keyDiagnostics @ valueDiagnostics,
             mt_validations =
               \<lparr>cv_fieldPath = path, cv_kind = ''map_keys'',
                cv_expression = ''length(mapKeys('' @ constraintValuePlaceholder @ '')) = length(arrayDistinct(mapKeys(''
                  @ constraintValuePlaceholder @ '')))''\<rparr>
               # map (\<lambda>v. v\<lparr>cv_expression := ''arrayAll(key -> ('' @ replaceValue (cv_expression v) ''key'' @ ''), mapKeys(''
                   @ constraintValuePlaceholder @ ''))''\<rparr>) (mf_validations key)
               @ map (\<lambda>v. v\<lparr>cv_expression := ''arrayAll(value -> ('' @ replaceValue (cv_expression v) ''value'' @ ''), mapValues(''
                   @ constraintValuePlaceholder @ ''))''\<rparr>) (mf_validations val),
             mt_composite = True\<rparr>)))"

definition ch_mapType ::
    "(field option \<Rightarrow> string \<Rightarrow> ch_error + ch_mappedField \<times> mapping_diagnostic list)
     \<Rightarrow> data_type \<Rightarrow> string \<Rightarrow> ch_error + ch_mappedType" where
  "ch_mapType mapField t path =
     (case GetKind t of
        DataType_Struct s \<Rightarrow> ch_mapStruct mapField s path
      | DataType_List l \<Rightarrow> ch_mapList mapField l path
      | DataType_Map m \<Rightarrow> ch_mapMap mapField m path
      | k \<Rightarrow> mapErr (\<lambda>e. (e, [])) (ch_mapScalar k path))"

section \<open>Fields\<close>

text \<open>The tuple of a presence flag and a value, and the checks of the value inside it.\<close>

definition ch_presentTuple :: "ch_mappedType \<Rightarrow> ch_mappedField" where
  "ch_presentTuple mapped =
     \<lparr>mf_sqlType = ''Tuple('' @ ch_quoteIdentifier ''present'' @ '' Bool, '' @ ch_quoteIdentifier ''value'' @ '' '' @ mt_sqlType mapped @ '')'',
      mf_defaultExpression = [],
      mf_validations = map (\<lambda>v. v\<lparr>cv_expression := ''NOT '' @ tupleElementExpression constraintValuePlaceholder ''present''
        @ '' OR ('' @ replaceValue (cv_expression v) (tupleElementExpression constraintValuePlaceholder ''value'') @ '')''\<rparr>)
        (mt_validations mapped)\<rparr>"

definition ch_nullable :: "ch_mappedType \<Rightarrow> ch_mappedField" where
  "ch_nullable mapped =
     \<lparr>mf_sqlType = ''Nullable('' @ mt_sqlType mapped @ '')'', mf_defaultExpression = ''NULL'',
      mf_validations = map (\<lambda>v. v\<lparr>cv_expression := ''isNull('' @ constraintValuePlaceholder @ '') OR (''
        @ replaceValue (cv_expression v) (''assumeNotNull('' @ constraintValuePlaceholder @ '')'') @ '')''\<rparr>)
        (mt_validations mapped)\<rparr>"

definition ch_presence ::
    "field \<Rightarrow> data_type \<Rightarrow> string \<Rightarrow> ch_mappedType \<Rightarrow> string + ch_mappedField \<times> mapping_compatibility \<times> string" where
  "ch_presence f t path mapped =
     (let bare = \<lparr>mf_sqlType = mt_sqlType mapped, mf_defaultExpression = [], mf_validations = mt_validations mapped\<rparr>;
          level = mt_compatibility mapped;
          message = mt_message mapped
      in case GetPresence f of
        PRESENCE_IMPLICIT \<Rightarrow>
          if GetNullable f \<or> \<not> implicitCapable t then Inl ''implicit presence requires a non-null primitive or enum''
          else Inr (bare\<lparr>mf_defaultExpression := ch_implicitDefault t\<rparr>, level, message)
      | PRESENCE_EXPLICIT \<Rightarrow>
          if \<not> GetNullable f then Inl ''explicit presence requires nullable=true''
          else if mt_composite mapped then
            Inr (ch_presentTuple mapped, preserveStrongerCompatibility level,
              message @ ''; explicit presence uses Tuple(present Bool, value T) because stable ClickHouse does not support Nullable(Array/Map) and Nullable(Tuple) is beta'')
          else
            Inr (ch_nullable mapped, preserveStrongerCompatibility level,
              message @ ''; explicit presence maps to Nullable(T), preserving absent versus present-default'')
      | PRESENCE_REQUIRED \<Rightarrow>
          if GetNullable f then Inl ''required presence requires nullable=false''
          else
            Inr ((ch_presentTuple mapped)\<lparr>mf_validations :=
                \<lparr>cv_fieldPath = path, cv_kind = ''required'',
                 cv_expression = tupleElementExpression constraintValuePlaceholder ''present''\<rparr>
                # mf_validations (ch_presentTuple mapped)\<rparr>,
              preserveStrongerCompatibility level,
              message @ ''; required presence uses Tuple(present Bool, value T) plus a CHECK so an omitted ClickHouse column cannot become an implicit type default'')
      | PRESENCE_ONEOF \<Rightarrow>
          if GetOneof f = [] \<or> \<not> GetNullable f then Inl ''oneof presence requires a oneof name and nullable=true''
          else
            Inr (ch_presentTuple mapped, preserveStrongerCompatibility level,
              message @ ''; oneof '' @ Quote (GetOneof f) @ '' uses a member Tuple(present Bool, value T) and sibling discriminator ''
                @ Quote (oneofCaseName (GetOneof f))
                @ '' (0=unset, protobuf field number=selected member), preserving selected default values without making the synthetic discriminator the sole source of presence'')
      | PRESENCE_REPEATED \<Rightarrow>
          if GetNullable f \<or> GetList (Some t) = None then Inl ''repeated presence requires a non-null list''
          else Inr (bare\<lparr>mf_defaultExpression := (if ListGetFixedLength (GetList (Some t)) = 0 then ''[]'' else [])\<rparr>, level, message)
      | PRESENCE_MAP \<Rightarrow>
          if GetNullable f \<or> GetMap (Some t) = None then Inl ''map presence requires a non-null map''
          else Inr (bare\<lparr>mf_defaultExpression := ''map()''\<rparr>, level, message)
      | PRESENCE_NOT_APPLICABLE \<Rightarrow>
          if GetSyntheticRole f = SYNTHETIC_ROLE_PROTO_FIELD \<or> GetNullable f
          then Inl ''not-applicable presence is only valid for non-null synthetic collection children''
          else Inr (bare, level, message)
      | _ \<Rightarrow> Inl ''protobuf presence is unspecified'')"

lemma ch_checkName_Inr:
  "ch_checkName path topLevel (seen, checked) field = Inr (seen', checked') \<Longrightarrow>
   \<exists>f. field = Some f \<and> checked' = checked @ [f]"
  by (auto simp: ch_checkName_def Let_def split: option.splits if_splits)

lemma ch_checkNames_fields:
  assumes "foldE (ch_checkName path topLevel) (seen, checked) fs = Inr (seen', checked')"
  shows "map Some checked' = map Some checked @ fs"
  using assms
proof (induction fs arbitrary: seen checked)
  case (Cons f fs)
  then obtain s c where step: "ch_checkName path topLevel (seen, checked) f = Inr (s, c)"
    and rest: "foldE (ch_checkName path topLevel) (s, c) fs = Inr (seen', checked')"
    by (auto simp: andThen_eq_Inr)
  from ch_checkName_Inr [OF step] Cons.IH [OF rest] show ?case by auto
qed simp

lemma ch_mapScope_cong [fundef_cong]:
  assumes "fs = fs'" "path = path'" "topLevel = topLevel'"
    and "\<And>c. c \<in> set fs' \<Longrightarrow> f c (joinPath path' (nilGetName c)) = g c (joinPath path' (nilGetName c))"
  shows "ch_mapScope f fs path topLevel = ch_mapScope g fs' path' topLevel'"
proof -
  have member: "f (Some c) (joinPath path' (GetName c)) = g (Some c) (joinPath path' (GetName c))"
    if "foldE (ch_checkName path' topLevel') ([], []) fs' = Inr (seen, checked)" "c \<in> set checked" for c seen checked
  proof -
    have "Some c \<in> set fs'" using ch_checkNames_fields [OF that(1)] that(2) by (metis append_Nil image_eqI list.set_map list.simps(8))
    then show ?thesis using assms(4) [of "Some c"] by (simp add: nilGetName_def)
  qed
  show ?thesis
    unfolding assms(1-3) ch_mapScope_def
    by (intro andThen_cong refl, clarify, intro andThen_cong refl foldE_cong)
      (auto simp: ch_scopeField_def Let_def dest!: set_zip_rightD member)
qed

lemma ch_mapType_cong [fundef_cong]:
  assumes "t = t'" "path = path'"
    and "\<And>c p. (c, p) \<in> set (childPaths path' (GetKind t')) \<Longrightarrow> f c p = g c p"
  shows "ch_mapType f t path = ch_mapType g t' path'"
proof (cases "GetKind t'")
  case (DataType_Struct s)
  then have "ch_mapScope f (StructGetFields s) path' False = ch_mapScope g (StructGetFields s) path' False"
    using assms(3) by (intro ch_mapScope_cong) auto
  then show ?thesis using assms(1,2) DataType_Struct by (simp add: ch_mapType_def ch_mapStruct_def)
qed (use assms in \<open>auto simp: ch_mapType_def ch_mapList_def ch_mapMap_def\<close>)

text \<open>The error of \<^verbatim>\<open>mapField\<close> around an error of \<^verbatim>\<open>mapType\<close>.\<close>

definition ch_fieldError :: "string \<Rightarrow> ch_error \<Rightarrow> ch_error" where
  "ch_fieldError path e = (''clickhouse: field '' @ Quote path @ '': '' @ fst e, unsupportedDiagnostic path (fst e) # snd e)"

function ch_mapField :: "field option \<Rightarrow> string \<Rightarrow> ch_error + ch_mappedField \<times> mapping_diagnostic list" where
  "ch_mapField None path = Inl (ch_reject path ''field has no logical type'')"
| "ch_mapField (Some f) path =
     (case GetType f of
        None \<Rightarrow> Inl (ch_reject path ''field has no logical type'')
      | Some t \<Rightarrow>
          (case ch_validateText (GetDescription f) of
             Some err \<Rightarrow>
               Inl (''clickhouse: field '' @ Quote path @ '' description: '' @ err,
                 [unsupportedDiagnostic path (''description: '' @ err)])
           | None \<Rightarrow>
               andThen (mapErr (ch_fieldError path) (ch_mapType ch_mapField t path)) (\<lambda>mapped.
               andThen (mapErr (\<lambda>e. ch_fieldError path (e, mt_diagnostics mapped)) (ch_presence f t path mapped))
                 (\<lambda>(result, level, message).
               Inr (result, \<lparr>field_path = path, compatibility = level, diag_message = message\<rparr> # mt_diagnostics mapped)))))"
  by pat_completeness auto
termination
  by (relation "measure (\<lambda>(f, _). size_option size f)") (auto simp: size_childPaths_option)

section \<open>The table of a dataset\<close>

definition ch_unitColumn :: ch_declaration where
  "ch_unitColumn = \<lparr>cd_name = ''__invariant_unit'', cd_sqlType = ''Bool'', cd_defaultExpression = ''false'',
     cd_comment = [], cd_fieldPath = ''<dataset>'', cd_stableID = 0, cd_synthetic = True\<rparr>"

definition ch_unitCheck :: ch_validation where
  "ch_unitCheck = \<lparr>cv_fieldPath = ''<dataset>'', cv_kind = ''unit'',
     cv_expression = ch_quoteIdentifier ''__invariant_unit'' @ '' = false''\<rparr>"

definition ch_toColumn :: "ch_declaration \<Rightarrow> ch_column" where
  "ch_toColumn d = \<lparr>cc_Name = cd_name d, cc_Type = cd_sqlType d, cc_DefaultExpression = cd_defaultExpression d,
     cc_Comment = cd_comment d, cc_FieldPath = cd_fieldPath d, cc_StableID = cd_stableID d, cc_Synthetic = cd_synthetic d\<rparr>"

definition ch_constraintName :: "ch_validation \<Rightarrow> string" where
  "ch_constraintName check = ''invariant.'' @ cv_fieldPath check @ ''.'' @ cv_kind check"

definition ch_addConstraint ::
    "(string \<times> string) list \<times> ch_constraint list \<Rightarrow> ch_validation
     \<Rightarrow> string + (string \<times> string) list \<times> ch_constraint list" where
  "ch_addConstraint st check = (case st of (seen, constraints) \<Rightarrow>
     let name = ch_constraintName check in
     case map_of seen name of
       Some previous \<Rightarrow> Inl (''clickhouse: constraints for '' @ Quote previous @ '' and '' @ Quote (cv_fieldPath check)
         @ '' have the same name '' @ Quote name)
     | None \<Rightarrow> Inr (AList.update name (cv_fieldPath check) seen,
         constraints @ [\<lparr>ck_Name = name, ck_Expression = cv_expression check, ck_FieldPath = cv_fieldPath check\<rparr>]))"

definition ClickHouseSchema :: "dataset_schema option \<Rightarrow> ch_error + ch_table \<times> mapping_diagnostic list" where
  "ClickHouseSchema dataset = (case dataset of
     None \<Rightarrow> Inl (''clickhouse: nil dataset schema'', [])
   | Some ds \<Rightarrow>
       (case ch_validateIdentifier (ds_name ds) of
          Some err \<Rightarrow> Inl (''clickhouse: dataset name: '' @ err, [])
        | None \<Rightarrow>
       (case ch_validateText (ds_description ds) of
          Some err \<Rightarrow> Inl (''clickhouse: dataset description: '' @ err, [])
        | None \<Rightarrow>
            andThen (ch_mapScope ch_mapField (ds_fields ds) [] True) (\<lambda>st.
            let empty = (cs_declarations st = []);
                flds = cs_declarations st @ (if empty then [ch_unitColumn] else []);
                validations = cs_validations st @ (if empty then [ch_unitCheck] else [])
            in andThen (mapErr (\<lambda>e. (e, cs_diagnostics st)) (foldE ch_addConstraint ([], []) validations))
              (\<lambda>(_, constraints).
            Inr (\<lparr>ct_Dataset = ds_name ds, ct_SourceMessage = source_message ds, ct_Description = ds_description ds,
                 ct_Columns = map ch_toColumn flds, ct_Constraints = constraints\<rparr>, cs_diagnostics st))))))"

definition ColumnDeclarations :: "ch_table option \<Rightarrow> string" where
  "ColumnDeclarations table = (case table of
     None \<Rightarrow> []
   | Some s \<Rightarrow> join ('','' @ [CHR 0x0A])
       (map (\<lambda>c. ''  '' @ ch_quoteIdentifier (cc_Name c) @ '' '' @ cc_Type c
          @ (if cc_DefaultExpression c \<noteq> [] then '' DEFAULT '' @ cc_DefaultExpression c else [])
          @ (if cc_Comment c \<noteq> [] then '' COMMENT '' @ ch_quoteLiteral (cc_Comment c) else [])) (ct_Columns s)
        @ map (\<lambda>k. ''  CONSTRAINT '' @ ch_quoteIdentifier (ck_Name k) @ '' CHECK '' @ ck_Expression k) (ct_Constraints s)))"

end
