(* ===== verification/Clickhouse_Projection.thy ===== *)
theory Clickhouse_Projection
  imports Clickhouse Iceberg
begin

text \<open>
  The conversion plan from the ClickHouse table of a dataset to its Iceberg schema
  (\<^verbatim>\<open>go/data/clickhouse/projection.go\<close>). \<^verbatim>\<open>FindFieldByID\<close> of the Iceberg library, with the text of the type of
  the field it finds, is a parameter; so is the JSON encoder.
\<close>

record projection_data =
  pj_FieldPath :: string
  pj_Name :: string
  pj_StableID :: int
  pj_ClickHouseType :: string
  pj_IcebergType :: string
  pj_PresenceExpression :: string
  pj_ValueExpression :: string
  pj_FixedLength :: nat
  pj_Discriminator :: string
  pj_ProtobufFieldNumber :: nat

datatype iceberg_field_projection =
  IcebergFieldProjection (pj_data: projection_data) (pj_Children: "iceberg_field_projection list")

record iceberg_projection =
  pr_Version :: nat
  pr_Dataset :: string
  pr_SourceMessage :: string
  pr_Fields :: "iceberg_field_projection list"

datatype projection_error =
    ProjectNilDataset
  | ProjectNative string
  | ProjectTarget iceberg_error
  | ProjectMissingID int string
  | ProjectNoType string
  | ProjectMapping string
  | ProjectNoNumber string
  | ProjectPresence string presence
  | ProjectNilChild string
  | ProjectNilProjection
  | ProjectEncode string

definition ProjectionVersion :: nat where
  "ProjectionVersion = 2"

definition projectionValuePlaceholder :: string where
  "projectionValuePlaceholder = ''{value}''"

definition conversionExpression :: "data_type \<Rightarrow> string \<Rightarrow> string" where
  "conversionExpression t v =
     (case GetKind t of
        DataType_Primitive p \<Rightarrow>
          (case PrimitiveGetKind p of
             PRIMITIVE_KIND_UINT64 \<Rightarrow> ''accurateCast('' @ v @ '', '' @ [CHR 0x27] @ ''Decimal(20, 0)'' @ [CHR 0x27] @ '')''
           | PRIMITIVE_KIND_FIXED64 \<Rightarrow> ''accurateCast('' @ v @ '', '' @ [CHR 0x27] @ ''Decimal(20, 0)'' @ [CHR 0x27] @ '')''
           | PRIMITIVE_KIND_UINT32 \<Rightarrow> ''toInt64('' @ v @ '')''
           | PRIMITIVE_KIND_FIXED32 \<Rightarrow> ''toInt64('' @ v @ '')''
           | _ \<Rightarrow> v)
      | DataType_Timestamp _ \<Rightarrow> ''toUnixTimestamp64Nano('' @ v @ '')''
      | _ \<Rightarrow> v)"

text \<open>Presence expression, value expression, discriminator and field number.\<close>

definition projectPresence ::
    "field \<Rightarrow> string \<Rightarrow> bool \<Rightarrow> projection_error + string \<times> string \<times> string \<times> nat" where
  "projectPresence f path composite =
     (let present = tupleElementExpression projectionValuePlaceholder ''present'';
          inner = tupleElementExpression projectionValuePlaceholder ''value'';
          always = Inr (''true'', projectionValuePlaceholder, [], 0)
      in case GetPresence f of
        PRESENCE_EXPLICIT \<Rightarrow>
          if composite then Inr (present, inner, [], 0)
          else Inr (''isNotNull('' @ projectionValuePlaceholder @ '')'', ''assumeNotNull('' @ projectionValuePlaceholder @ '')'', [], 0)
      | PRESENCE_REQUIRED \<Rightarrow> Inr (present, inner, [], 0)
      | PRESENCE_ONEOF \<Rightarrow>
          if GetProtoNumberPath f = [] then Inl (ProjectNoNumber path)
          else let n = last (GetProtoNumberPath f)
               in Inr (present @ '' AND {case} = '' @ FormatUint n, inner, oneofCaseName (GetOneof f), n)
      | PRESENCE_IMPLICIT \<Rightarrow> always
      | PRESENCE_REPEATED \<Rightarrow> always
      | PRESENCE_MAP \<Rightarrow> always
      | PRESENCE_NOT_APPLICABLE \<Rightarrow> always
      | p \<Rightarrow> Inl (ProjectPresence path p))"

text \<open>The closure \<^verbatim>\<open>appendChild\<close> and its calls on all children; the call of \<^verbatim>\<open>projectField\<close> is the first argument.\<close>

definition appendChild ::
    "(field option \<Rightarrow> string \<Rightarrow> string \<Rightarrow> projection_error + iceberg_field_projection) \<Rightarrow> (int \<Rightarrow> string option)
     \<Rightarrow> string \<Rightarrow> iceberg_field_projection list \<Rightarrow> field option \<times> string \<Rightarrow> projection_error + iceberg_field_projection list" where
  "appendChild projectField FindFieldByID path projected x = (case x of (child, childPath) \<Rightarrow>
     case child of
       None \<Rightarrow> Inl (ProjectNilChild path)
     | Some g \<Rightarrow>
         (case FindFieldByID (GetStableId g) of
            None \<Rightarrow> Inl (ProjectMissingID (GetStableId g) childPath)
          | Some target \<Rightarrow>
              andThen (projectField child childPath target) (\<lambda>p. Inr (projected @ [p]))))"

definition appendChildren ::
    "(field option \<Rightarrow> string \<Rightarrow> string \<Rightarrow> projection_error + iceberg_field_projection) \<Rightarrow> (int \<Rightarrow> string option)
     \<Rightarrow> string \<Rightarrow> (field option \<times> string) list \<Rightarrow> projection_error + iceberg_field_projection list" where
  "appendChildren projectField FindFieldByID path children =
     foldE (appendChild projectField FindFieldByID path) [] children"

lemma appendChildren_cong [fundef_cong]:
  assumes "FindFieldByID = FindFieldByID'" "path = path'" "cs = cs'"
    and "\<And>c p ty. (c, p) \<in> set cs' \<Longrightarrow> f c p ty = g c p ty"
  shows "appendChildren f FindFieldByID path cs = appendChildren g FindFieldByID' path' cs'"
  unfolding appendChildren_def assms(1-3)
  by (intro foldE_cong refl) (auto simp: appendChild_def assms(4) split: option.splits)

function projectField ::
    "(int \<Rightarrow> string option) \<Rightarrow> field option \<Rightarrow> string \<Rightarrow> string \<Rightarrow> projection_error + iceberg_field_projection" where
  "projectField FindFieldByID None path icebergType = Inl (ProjectNoType path)"
| "projectField FindFieldByID (Some f) path icebergType =
     (case GetType f of
        None \<Rightarrow> Inl (ProjectNoType path)
      | Some t \<Rightarrow>
          andThen (mapErr (\<lambda>e. ProjectMapping (fst e)) (ch_mapField (Some f) path)) (\<lambda>(physical, _).
          andThen (mapErr (\<lambda>e. ProjectMapping (fst e)) (ch_mapType ch_mapField t path)) (\<lambda>mapped.
          andThen (projectPresence f path (mt_composite mapped)) (\<lambda>(presence, val, discriminator, fieldNumber).
          andThen (appendChildren (projectField FindFieldByID) FindFieldByID path (childPaths path (GetKind t))) (\<lambda>children.
          Inr (IcebergFieldProjection
            \<lparr>pj_FieldPath = path, pj_Name = GetName f, pj_StableID = GetStableId f,
             pj_ClickHouseType = mf_sqlType physical, pj_IcebergType = icebergType,
             pj_PresenceExpression = presence, pj_ValueExpression = conversionExpression t val,
             pj_FixedLength = ListGetFixedLength (GetList (Some t)),
             pj_Discriminator = discriminator, pj_ProtobufFieldNumber = fieldNumber\<rparr> children))))))"
  by pat_completeness auto
termination
  by (relation "measure (\<lambda>(_, f, _, _). size_option size f)") (auto simp: size_childPaths_option)

definition nilGetStableId :: "field option \<Rightarrow> int" where
  "nilGetStableId f = (case f of None \<Rightarrow> 0 | Some g \<Rightarrow> GetStableId g)"

text \<open>One round of the loop over the fields of the dataset.\<close>

definition projectColumn ::
    "(int \<Rightarrow> string option) \<Rightarrow> iceberg_field_projection list \<Rightarrow> field option
     \<Rightarrow> projection_error + iceberg_field_projection list" where
  "projectColumn FindFieldByID projected field =
     (case FindFieldByID (nilGetStableId field) of
        None \<Rightarrow> Inl (ProjectMissingID (nilGetStableId field) (nilGetName field))
      | Some target \<Rightarrow>
          andThen (projectField FindFieldByID field (nilGetName field) target) (\<lambda>p. Inr (projected @ [p])))"

definition ProjectToIceberg ::
    "(iceberg_schema \<Rightarrow> int \<Rightarrow> string option) \<Rightarrow> dataset_schema option
     \<Rightarrow> (projection_error \<times> mapping_diagnostic list) + iceberg_projection \<times> mapping_diagnostic list" where
  "ProjectToIceberg FindFieldByID dataset = (case dataset of
     None \<Rightarrow> Inl (ProjectNilDataset, [])
   | Some ds \<Rightarrow>
       andThen (mapErr (\<lambda>(e, d). (ProjectNative e, d)) (ClickHouseSchema (Some ds))) (\<lambda>(_, clickhouseDiagnostics).
       andThen (mapErr (\<lambda>(e, d). (ProjectTarget e, clickhouseDiagnostics @ d)) (IcebergSchema (Some ds)))
         (\<lambda>(icebergSchema, icebergDiagnostics).
       let diagnostics = clickhouseDiagnostics @ icebergDiagnostics in
       andThen (mapErr (\<lambda>e. (e, diagnostics))
           (foldE (projectColumn (FindFieldByID icebergSchema)) [] (ds_fields ds))) (\<lambda>flds.
       Inr (\<lparr>pr_Version = ProjectionVersion, pr_Dataset = ds_name ds, pr_SourceMessage = source_message ds,
             pr_Fields = flds\<rparr>, diagnostics)))))"

definition ProjectionJSON :: "(iceberg_projection \<Rightarrow> string + string) \<Rightarrow> iceberg_projection option \<Rightarrow> projection_error + string" where
  "ProjectionJSON Marshal projection =
     (case projection of None \<Rightarrow> Inl ProjectNilProjection | Some p \<Rightarrow> mapErr ProjectEncode (Marshal p))"

end
