(* ===== verification/Clickhouse_Scopes.thy ===== *)
theory Clickhouse_Scopes
  imports Clickhouse_Projection
begin

text \<open>
  What an accepted scope of the ClickHouse dialect looks like: its names, its oneofs, its columns and the
  results of its fields. Every loop of \<^verbatim>\<open>mapScope\<close> has its invariant over the fields it has passed.
\<close>

definition nameOK :: "bool \<Rightarrow> string \<Rightarrow> bool" where
  "nameOK topLevel name \<longleftrightarrow> ch_validateIdentifier name = None \<and> \<not> HasPrefix name reservedNamePrefix
     \<and> (topLevel \<or> name \<noteq> ''null'')"

definition groupOK :: "string \<Rightarrow> field list \<Rightarrow> string \<Rightarrow> oneof_group \<Rightarrow> bool" where
  "groupOK path xs k g \<longleftrightarrow> k \<noteq> [] \<and> og_name g = k \<and> og_caseName g = oneofCaseName k \<and> og_fieldPath g = joinPath path k
     \<and> ch_validateIdentifier (oneofCaseName k) = None
     \<and> og_members g = filter (\<lambda>f. GetOneof f = k) xs \<and> og_numbers g = map lastNumber (og_members g)
     \<and> distinct (og_numbers g) \<and> og_firstIndex g < length xs \<and> GetOneof (xs ! og_firstIndex g) = k"

text \<open>A member of a oneof has a number, any other field does not claim to be one.\<close>

definition oneofMember :: "field \<Rightarrow> bool" where
  "oneofMember f \<longleftrightarrow>
     (if GetOneof f = [] then GetPresence f \<noteq> PRESENCE_ONEOF
      else GetPresence f = PRESENCE_ONEOF \<and> GetNullable f \<and> lastNumber f \<noteq> 0)"

definition groupsOK :: "string \<Rightarrow> field list \<Rightarrow> (string \<times> oneof_group) list \<Rightarrow> bool" where
  "groupsOK path xs groups \<longleftrightarrow>
     (\<forall>k g. map_of groups k = Some g \<longrightarrow> groupOK path xs k g)
     \<and> (\<forall>f \<in> set xs. GetOneof f \<noteq> [] \<longrightarrow> map_of groups (GetOneof f) \<noteq> None)
     \<and> (\<forall>f \<in> set xs. oneofMember f)"

definition columnsOK :: "(string \<times> oneof_group) list \<Rightarrow> string \<Rightarrow> field list \<Rightarrow> ch_scope \<Rightarrow> bool" where
  "columnsOK groups path xs st \<longleftrightarrow>
     map (\<lambda>d. (cd_name d, cd_fieldPath d, cd_stableID d, cd_comment d)) (filter (\<lambda>d. \<not> cd_synthetic d) (cs_declarations st))
       = map (\<lambda>f. (GetName f, joinPath path (GetName f), GetStableId f, GetDescription f)) xs
     \<and> map cd_name (filter cd_synthetic (cs_declarations st)) = map oneofCaseName (rev (cs_emitted st))
     \<and> distinct (cs_emitted st)
     \<and> set (cs_emitted st) = {k. \<exists>g. map_of groups k = Some g \<and> og_firstIndex g < length xs}"

definition resultsOK ::
    "(field option \<Rightarrow> string \<Rightarrow> ch_error + ch_mappedField \<times> mapping_diagnostic list) \<Rightarrow> string \<Rightarrow> field list \<Rightarrow> ch_scope \<Rightarrow> bool" where
  "resultsOK mapField path xs st \<longleftrightarrow>
     (\<exists>rs. map (\<lambda>f. mapField (Some f) (joinPath path (GetName f))) xs = map Inr rs
        \<and> cs_diagnostics st = concat (map snd rs))"

text \<open>A check before it is placed: text without NUL bytes around placeholders. Replacing the placeholder by
  another check gives a check, and replacing it by plain text leaves no NUL byte.\<close>

definition nulFree :: "string \<Rightarrow> bool" where
  "nulFree s \<longleftrightarrow> CHR 0x00 \<notin> set s"

inductive template :: "string \<Rightarrow> bool" where
  template_Nil: "template []"
| template_byte: "c \<noteq> CHR 0x00 \<Longrightarrow> template s \<Longrightarrow> template (c # s)"
| template_hole: "template s \<Longrightarrow> template (constraintValuePlaceholder @ s)"

definition checkOK :: "ch_validation \<Rightarrow> bool" where
  "checkOK v \<longleftrightarrow> nulFree (cv_fieldPath v) \<and> nulFree (cv_kind v) \<and> template (cv_expression v)"

definition typeOK :: "ch_mappedType \<Rightarrow> bool" where
  "typeOK mapped \<longleftrightarrow> nulFree (mt_sqlType mapped) \<and> (\<forall>v \<in> set (mt_validations mapped). checkOK v)"

definition fieldOK :: "ch_mappedField \<Rightarrow> bool" where
  "fieldOK y \<longleftrightarrow> nulFree (mf_sqlType y) \<and> nulFree (mf_defaultExpression y) \<and> (\<forall>v \<in> set (mf_validations y). checkOK v)"

definition declarationOK :: "ch_declaration \<Rightarrow> bool" where
  "declarationOK d \<longleftrightarrow> nulFree (cd_name d) \<and> nulFree (cd_sqlType d) \<and> nulFree (cd_defaultExpression d) \<and> nulFree (cd_comment d)"

definition scopeOK :: "bool \<Rightarrow> ch_scope \<Rightarrow> bool" where
  "scopeOK topLevel st \<longleftrightarrow> (\<forall>d \<in> set (cs_declarations st). declarationOK d) \<and> (\<forall>v \<in> set (cs_validations st). checkOK v)
     \<and> (topLevel \<longrightarrow> (\<forall>v \<in> set (cs_validations st). nulFree (cv_expression v)))"

section \<open>Loops over numbered fields\<close>

lemma foldE_indexed:
  assumes "foldE f s (zip [0..<length xs] xs) = Inr t" and "I [] s"
    and step: "\<And>ys y zs s s'. xs = ys @ y # zs \<Longrightarrow> I ys s \<Longrightarrow> f s (length ys, y) = Inr s' \<Longrightarrow> I (ys @ [y]) s'"
  shows "I xs t"
proof -
  have "I ys u" if "foldE f s (zip [0..<length ys] ys) = Inr u" "xs = ys @ zs" for ys zs u
    using that
  proof (induction ys arbitrary: zs u rule: rev_induct)
    case Nil
    then show ?case using assms(2) by simp
  next
    case (snoc y ys)
    have "zip [0..<length (ys @ [y])] (ys @ [y]) = zip [0..<length ys] ys @ [(length ys, y)]" by simp
    with snoc.prems(1) obtain v where v: "foldE f s (zip [0..<length ys] ys) = Inr v" "f v (length ys, y) = Inr u"
      by (auto simp: foldE_append andThen_eq_Inr)
    with snoc.IH [OF v(1)] snoc.prems(2) step [of ys y zs v u] show ?case by simp
  qed
  from this [OF assms(1), of "[]"] show ?thesis by simp
qed

section \<open>Names\<close>

lemma ch_checkName_ok:
  "ch_checkName path topLevel (seen, checked) field = Inr st \<longleftrightarrow>
     (\<exists>f. field = Some f \<and> nameOK topLevel (GetName f) \<and> map_of seen (GetName f) = None
        \<and> st = (seen @ [(GetName f, joinPath path (GetName f))], checked @ [f]))"
  by (auto simp: ch_checkName_def nameOK_def Let_def update_new_map_of split: option.splits if_splits)

lemma ch_checkNames:
  assumes "foldE (ch_checkName path topLevel) ([], []) fs = Inr (seen, checked)"
  shows "fs = map Some checked" "map fst seen = map GetName checked" "distinct (map GetName checked)"
    "\<forall>f \<in> set checked. nameOK topLevel (GetName f)"
proof -
  have "map Some checked = map Some c @ fs \<and> map fst seen = map GetName checked \<and> distinct (map GetName checked)
      \<and> (\<forall>f \<in> set checked. nameOK topLevel (GetName f))"
    if "foldE (ch_checkName path topLevel) (s, c) fs = Inr (seen, checked)" "map fst s = map GetName c"
      "distinct (map GetName c)" "\<forall>f \<in> set c. nameOK topLevel (GetName f)" for s c
    using that
  proof (induction fs arbitrary: s c)
    case (Cons f fs)
    from Cons.prems(1) obtain st where st: "ch_checkName path topLevel (s, c) f = Inr st"
      and rest: "foldE (ch_checkName path topLevel) st fs = Inr (seen, checked)" by (auto simp: andThen_eq_Inr)
    from st obtain g where g: "f = Some g" "nameOK topLevel (GetName g)" "map_of s (GetName g) = None"
      "st = (s @ [(GetName g, joinPath path (GetName g))], c @ [g])" unfolding ch_checkName_ok by blast
    have "GetName g \<notin> set (map GetName c)"
      using g(3) unfolding Cons.prems(2) [symmetric] by (simp add: map_of_eq_None_iff)
    with Cons.IH [OF rest [unfolded g(4)]] Cons.prems(2-4) g(1,2) show ?case by auto
  qed simp
  from this [OF assms] show "fs = map Some checked" "map fst seen = map GetName checked"
    "distinct (map GetName checked)" "\<forall>f \<in> set checked. nameOK topLevel (GetName f)" by auto
qed

section \<open>Oneofs\<close>

lemma groupOK_other: "groupOK path xs k g \<Longrightarrow> GetOneof f \<noteq> k \<Longrightarrow> groupOK path (xs @ [f]) k g"
  by (auto simp: groupOK_def nth_append)

lemma groupOK_member:
  "groupOK path xs (GetOneof f) g \<Longrightarrow> lastNumber f \<notin> set (og_numbers g) \<Longrightarrow>
   groupOK path (xs @ [f]) (GetOneof f) (g\<lparr>og_members := og_members g @ [f], og_numbers := og_numbers g @ [lastNumber f]\<rparr>)"
  by (auto simp: groupOK_def nth_append)

lemma groupOK_new:
  assumes "GetOneof f \<noteq> []" "\<forall>x \<in> set xs. GetOneof x \<noteq> GetOneof f"
    "ch_validateIdentifier (oneofCaseName (GetOneof f)) = None"
  shows "groupOK path (xs @ [f]) (GetOneof f)
    \<lparr>og_name = GetOneof f, og_caseName = oneofCaseName (GetOneof f), og_fieldPath = joinPath path (GetOneof f),
     og_members = [f], og_numbers = [lastNumber f], og_firstIndex = length xs\<rparr>"
  using assms by (auto simp: groupOK_def filter_empty_conv)

lemma groupsOKI:
  assumes "groupsOK path xs groups" "oneofMember f"
    and "\<And>k g. map_of groups' k = Some g \<Longrightarrow> k \<noteq> GetOneof f \<Longrightarrow> map_of groups k = Some g"
    and "\<And>g. map_of groups' (GetOneof f) = Some g \<Longrightarrow> groupOK path (xs @ [f]) (GetOneof f) g"
    and "\<And>k. map_of groups k \<noteq> None \<Longrightarrow> map_of groups' k \<noteq> None"
    and "GetOneof f \<noteq> [] \<Longrightarrow> map_of groups' (GetOneof f) \<noteq> None"
  shows "groupsOK path (xs @ [f]) groups'"
  unfolding groupsOK_def
proof (intro conjI allI impI ballI)
  fix k g assume k: "map_of groups' k = Some g"
  show "groupOK path (xs @ [f]) k g"
  proof (cases "k = GetOneof f")
    case True
    then show ?thesis using k assms(4) by simp
  next
    case False
    with assms(1) assms(3) [OF k] have "groupOK path xs k g" by (simp add: groupsOK_def)
    then show ?thesis using False by (intro groupOK_other) simp_all
  qed
next
  fix x assume x: "x \<in> set (xs @ [f])"
  show "oneofMember x" using x assms(1,2) by (auto simp: groupsOK_def)
  assume "GetOneof x \<noteq> []"
  then show "map_of groups' (GetOneof x) \<noteq> None"
    using x assms(1,6) assms(5) [of "GetOneof x"] by (fastforce simp: groupsOK_def)
qed

lemma ch_groupMember_OK:
  assumes ok: "groupsOK path xs groups" and step: "ch_groupMember path seen groups (length xs, f) = Inr groups'"
  shows "groupsOK path (xs @ [f]) groups'"
proof (cases "GetOneof f = []")
  case True
  with step have same: "groups' = groups" and "oneofMember f"
    by (auto simp: ch_groupMember_def oneofMember_def Let_def split: if_splits)
  moreover have "map_of groups [] = None" using ok by (cases "map_of groups []") (auto simp: groupsOK_def groupOK_def)
  ultimately show ?thesis using ok True by (intro groupsOKI [of path xs groups]) simp_all
next
  case False
  with step obtain g where member: "oneofMember f"
    and g: "ch_newGroup path groups (length xs) f = Inr g" "lastNumber f \<notin> set (og_numbers g)"
    and groups': "groups' = AList.update (GetOneof f)
      (g\<lparr>og_members := og_members g @ [f], og_numbers := og_numbers g @ [lastNumber f]\<rparr>) groups"
    by (auto simp: ch_groupMember_def oneofMember_def Let_def andThen_eq_Inr split: if_splits option.splits)
  have "groupOK path (xs @ [f]) (GetOneof f) (g\<lparr>og_members := og_members g @ [f], og_numbers := og_numbers g @ [lastNumber f]\<rparr>)"
  proof (cases "map_of groups (GetOneof f)")
    case None
    then have "\<forall>x \<in> set xs. GetOneof x \<noteq> GetOneof f" using ok False by (metis groupsOK_def)
    with None g(1) False show ?thesis
      using groupOK_new [of f xs path] by (auto simp: ch_newGroup_def split: option.splits)
  next
    case (Some h)
    with g(1) have "g = h" by (simp add: ch_newGroup_def)
    moreover have "groupOK path xs (GetOneof f) h" using ok Some by (simp add: groupsOK_def)
    ultimately show ?thesis using g(2) by (intro groupOK_member) simp_all
  qed
  then show ?thesis
    using ok member by (intro groupsOKI [of path xs groups]) (simp_all add: groups' update_conv' split: if_splits)
qed

lemma ch_groups:
  assumes "foldE (ch_groupMember path seen) [] (zip [0..<length xs] xs) = Inr groups"
  shows "groupsOK path xs groups"
proof -
  have "groupsOK path [] []" by (simp add: groupsOK_def)
  with assms show ?thesis by (rule foldE_indexed) (rule ch_groupMember_OK)
qed

section \<open>Columns\<close>

lemma ch_openGroup_OK:
  assumes "\<forall>k g. map_of groups k = Some g \<longrightarrow> groupOK path all k g" "all = xs @ f # zs" "columnsOK groups path xs st"
    and st': "st' = ch_openGroup groups topLevel st (length xs) f"
  shows "filter (\<lambda>d. \<not> cd_synthetic d) (cs_declarations st') = filter (\<lambda>d. \<not> cd_synthetic d) (cs_declarations st)" (is ?A)
    and "map cd_name (filter cd_synthetic (cs_declarations st')) = map oneofCaseName (rev (cs_emitted st'))" (is ?B)
    and "distinct (cs_emitted st')" (is ?C)
    and "set (cs_emitted st') = {k. \<exists>g. map_of groups k = Some g \<and> og_firstIndex g < Suc (length xs)}" (is ?D)
    and "cs_diagnostics st' = cs_diagnostics st" (is ?E)
proof -
  have first: "k = GetOneof f" if "map_of groups k = Some g" "og_firstIndex g = length xs" for k g
  proof -
    have "groupOK path (xs @ f # zs) k g" using assms(1,2) that by blast
    with that(2) show ?thesis by (simp add: groupOK_def)
  qed
  have old: "set (cs_emitted st) = {k. \<exists>g. map_of groups k = Some g \<and> og_firstIndex g < length xs}"
    "map cd_name (filter cd_synthetic (cs_declarations st)) = map oneofCaseName (rev (cs_emitted st))" "distinct (cs_emitted st)"
    using assms(3) by (simp_all add: columnsOK_def)
  have split: "{k. \<exists>g. map_of groups k = Some g \<and> og_firstIndex g < Suc (length xs)} =
      set (cs_emitted st) \<union> {k. \<exists>g. map_of groups k = Some g \<and> og_firstIndex g = length xs}"
    unfolding old by (auto simp: less_Suc_eq)
  have "?A \<and> ?B \<and> ?C \<and> ?D \<and> ?E"
  proof (cases "\<exists>g. map_of groups (GetOneof f) = Some g \<and> og_name g \<notin> set (cs_emitted st) \<and> og_firstIndex g = length xs")
    case True
    then obtain g where g: "map_of groups (GetOneof f) = Some g" "og_name g \<notin> set (cs_emitted st)" "og_firstIndex g = length xs"
      by blast
    have "groupOK path all (GetOneof f) g" using assms(1) g(1) by blast
    then have name: "og_name g = GetOneof f" "og_caseName g = oneofCaseName (GetOneof f)" by (simp_all add: groupOK_def)
    have "{k. \<exists>g. map_of groups k = Some g \<and> og_firstIndex g = length xs} = {GetOneof f}" using g first by blast
    then show ?thesis unfolding split using g name old by (simp add: st' ch_openGroup_def ch_discriminator_def)
  next
    case False
    then have same: "st' = st" by (auto simp: st' ch_openGroup_def split: option.splits)
    have "k \<in> set (cs_emitted st)" if "map_of groups k = Some g" "og_firstIndex g = length xs" for k g
    proof -
      have "k = GetOneof f" using first that by blast
      moreover have "groupOK path all k g" using assms(1) that(1) by blast
      then have "og_name g = k" by (simp add: groupOK_def)
      ultimately show ?thesis using False that by auto
    qed
    then show ?thesis unfolding split same using old by auto
  qed
  then show ?A ?B ?C ?D ?E by blast+
qed

lemma ch_scopeField_Inr:
  assumes "ch_scopeField mapField groups path topLevel st0 (index, f) = Inr st'"
  obtains mapped ds st where "mapField (Some f) (joinPath path (GetName f)) = Inr (mapped, ds)"
    "st = ch_openGroup groups topLevel st0 index f"
    "cs_declarations st' = cs_declarations st @
       [\<lparr>cd_name = GetName f, cd_sqlType = mf_sqlType mapped, cd_defaultExpression = mf_defaultExpression mapped,
         cd_comment = GetDescription f, cd_fieldPath = joinPath path (GetName f), cd_stableID = GetStableId f,
         cd_synthetic = False\<rparr>]"
    "cs_validations st' = cs_validations st @
       (case map_of groups (GetOneof f) of None \<Rightarrow> []
        | Some g \<Rightarrow> [ch_presenceCheck topLevel (joinPath path (GetName f)) g f]) @
       map (\<lambda>v. v\<lparr>cv_expression := replaceValue (cv_expression v) (scopeElementExpression (GetName f) topLevel)\<rparr>)
         (mf_validations mapped)"
    "cs_diagnostics st' = cs_diagnostics st @ ds" "cs_emitted st' = cs_emitted st"
  using assms by (auto simp: ch_scopeField_def Let_def andThen_eq_Inr split: prod.splits)

lemma ch_scopeField_columns:
  assumes "\<forall>k g. map_of groups k = Some g \<longrightarrow> groupOK path all k g" "all = xs @ f # zs" "columnsOK groups path xs st"
    and "ch_scopeField mapField groups path topLevel st (length xs, f) = Inr st'"
  shows "columnsOK groups path (xs @ [f]) st'"
  using assms(4)
proof (rule ch_scopeField_Inr)
  fix mapped ds u assume
    u: "u = ch_openGroup groups topLevel st (length xs) f"
    and st': "cs_declarations st' = cs_declarations u @
       [\<lparr>cd_name = GetName f, cd_sqlType = mf_sqlType mapped, cd_defaultExpression = mf_defaultExpression mapped,
         cd_comment = GetDescription f, cd_fieldPath = joinPath path (GetName f), cd_stableID = GetStableId f,
         cd_synthetic = False\<rparr>]" "cs_emitted st' = cs_emitted u"
  show ?thesis
    using ch_openGroup_OK [OF assms(1-3) u] assms(3) by (simp add: columnsOK_def st')
qed

lemma ch_scopeField_results:
  assumes "resultsOK mapField path xs st" "ch_scopeField mapField groups path topLevel st (index, f) = Inr st'"
  shows "resultsOK mapField path (xs @ [f]) st'"
  using assms(2)
proof (rule ch_scopeField_Inr)
  fix mapped ds u assume
    m: "mapField (Some f) (joinPath path (GetName f)) = Inr (mapped, ds)"
    and u: "u = ch_openGroup groups topLevel st index f" and st': "cs_diagnostics st' = cs_diagnostics u @ ds"
  from assms(1) obtain rs where rs: "map (\<lambda>f. mapField (Some f) (joinPath path (GetName f))) xs = map Inr rs"
    "cs_diagnostics st = concat (map snd rs)" by (auto simp: resultsOK_def)
  have "cs_diagnostics u = cs_diagnostics st" by (auto simp: u ch_openGroup_def split: option.splits)
  with rs m st' show ?thesis unfolding resultsOK_def by (intro exI [of _ "rs @ [(mapped, ds)]"]) simp
qed

text \<open>An accepted scope.\<close>

lemma ch_mapScope_cases:
  assumes "ch_mapScope mapField fs path topLevel = Inr st"
  obtains checked groups where "fs = map Some checked" "distinct (map GetName checked)"
    "\<forall>f \<in> set checked. nameOK topLevel (GetName f)" "groupsOK path checked groups"
    "columnsOK groups path checked st" "resultsOK mapField path checked st"
    "foldE (ch_scopeField mapField groups path topLevel)
       \<lparr>cs_declarations = [], cs_validations = [], cs_diagnostics = [], cs_emitted = []\<rparr>
       (zip [0..<length checked] checked) = Inr st"
proof -
  from assms obtain seen checked groups where
    names: "foldE (ch_checkName path topLevel) ([], []) fs = Inr (seen, checked)"
    and groups: "foldE (ch_groupMember path seen) [] (zip [0..<length checked] checked) = Inr groups"
    and loop: "foldE (ch_scopeField mapField groups path topLevel)
       \<lparr>cs_declarations = [], cs_validations = [], cs_diagnostics = [], cs_emitted = []\<rparr>
       (zip [0..<length checked] checked) = Inr st"
    by (auto simp: ch_mapScope_def andThen_eq_Inr)
  have ok: "groupsOK path checked groups" using groups by (rule ch_groups)
  then have all: "\<forall>k g. map_of groups k = Some g \<longrightarrow> groupOK path checked k g" by (simp add: groupsOK_def)
  have "columnsOK groups path checked st"
    using loop by (rule foldE_indexed) (simp add: columnsOK_def, rule ch_scopeField_columns [OF all])
  moreover have "resultsOK mapField path checked st"
    using loop by (rule foldE_indexed) (simp add: resultsOK_def, rule ch_scopeField_results)
  ultimately show ?thesis using that ch_checkNames [OF names] ok loop by blast
qed

section \<open>One diagnostic per field\<close>

lemma ch_mapScalar_plain: "ch_mapScalar k path = Inr mapped \<Longrightarrow> mt_diagnostics mapped = [] \<and> \<not> mt_composite mapped"
  by (cases k) (auto simp: ch_mapScalar_def ch_mapEnum_def ch_plain_def andThen_eq_Inr Let_def split: if_splits)

lemma ch_mapStruct_Inr:
  "ch_mapStruct m s path = Inr mapped \<Longrightarrow> \<exists>st. s \<noteq> None \<and> ch_mapScope m (StructGetFields s) path False = Inr st
     \<and> mt_diagnostics mapped = cs_diagnostics st"
  by (auto simp: ch_mapStruct_def andThen_eq_Inr Let_def split: if_splits)

lemma ch_mapType_children:
  assumes "ch_mapType m t path = Inr mapped"
  shows "\<exists>rs. map (\<lambda>(c, p). m c p) (childPaths path (GetKind t)) = map Inr rs \<and> mt_diagnostics mapped = concat (map snd rs)"
proof (cases "GetKind t")
  case (DataType_Struct s)
  with assms ch_mapStruct_Inr obtain st where st: "ch_mapScope m (StructGetFields s) path False = Inr st"
    "mt_diagnostics mapped = cs_diagnostics st" by (force simp: ch_mapType_def)
  from st(1) show ?thesis
  proof (rule ch_mapScope_cases)
    fix checked assume "StructGetFields s = map Some checked" "resultsOK m path checked st"
    then show ?thesis using st(2) by (auto simp: DataType_Struct resultsOK_def comp_def nilGetName_def)
  qed
next
  case (DataType_List l)
  with assms obtain r where "m (ListGetElement l) (path @ ''[]'') = Inr r" "mt_diagnostics mapped = snd r"
    by (auto simp: ch_mapType_def ch_mapList_def andThen_eq_Inr Let_def split: if_splits)
  then show ?thesis by (intro exI [of _ "[r]"]) (simp add: DataType_List)
next
  case (DataType_Map x)
  with assms obtain r q where "m (MapGetKey x) (path @ ''.key'') = Inr r" "m (MapGetValue x) (path @ ''.value'') = Inr q"
    "mt_diagnostics mapped = snd r @ snd q"
    by (auto simp: ch_mapType_def ch_mapMap_def andThen_eq_Inr split: if_splits)
  then show ?thesis by (intro exI [of _ "[r, q]"]) (simp add: DataType_Map)
qed (use assms ch_mapScalar_plain in \<open>auto simp: ch_mapType_def childPaths_def\<close>)

lemma ch_mapField_Inr:
  assumes "ch_mapField c path = Inr (y, ds)"
  obtains f t mapped level message where "c = Some f" "GetType f = Some t" "ch_validateText (GetDescription f) = None"
    "ch_mapType ch_mapField t path = Inr mapped" "ch_presence f t path mapped = Inr (y, level, message)"
    "ds = \<lparr>field_path = path, compatibility = level, diag_message = message\<rparr> # mt_diagnostics mapped"
  using assms by (cases c) (auto simp: andThen_eq_Inr split: option.splits)

interpretation clickhouse: field_mapping ch_mapField
proof
  fix f path y ds assume "ch_mapField f path = Inr (y, ds)"
  then show "\<exists>g t d rs. f = Some g \<and> GetType g = Some t \<and> field_path d = path
      \<and> map (\<lambda>(c, p). ch_mapField c p) (childPaths path (GetKind t)) = map Inr rs \<and> ds = d # concat (map snd rs)"
  proof (rule ch_mapField_Inr)
    fix g t mapped level message
    assume "f = Some g" "GetType g = Some t" "ch_mapType ch_mapField t path = Inr mapped"
      and ds: "ds = \<lparr>field_path = path, compatibility = level, diag_message = message\<rparr> # mt_diagnostics mapped"
    moreover from ch_mapType_children [OF this(3)] obtain rs where
      "map (\<lambda>(c, p). ch_mapField c p) (childPaths path (GetKind t)) = map Inr rs" "mt_diagnostics mapped = concat (map snd rs)"
      by blast
    ultimately show ?thesis
      by (intro exI [of _ g] exI [of _ t] exI [of _ "hd ds"] exI [of _ rs]) simp
  qed
qed

section \<open>Placeholders\<close>

lemma nulFree_simps [simp]:
  "nulFree []" "nulFree (c # s) \<longleftrightarrow> c \<noteq> CHR 0x00 \<and> nulFree s" "nulFree (s @ t) \<longleftrightarrow> nulFree s \<and> nulFree t"
  by (auto simp: nulFree_def)

lemma template_Nil_simp [simp]: "template []"
  by (rule template_Nil)

lemma template_Cons [simp]:
  assumes "c \<noteq> CHR 0x00"
  shows "template (c # s) \<longleftrightarrow> template s"
proof
  assume "template (c # s)"
  then show "template s"
  proof (cases rule: template.cases)
    case (template_hole u)
    then show ?thesis using assms by (simp add: constraintValuePlaceholder_def)
  qed simp
qed (use assms in \<open>simp add: template_byte\<close>)

lemma template_append [simp]: "template s \<Longrightarrow> template t \<Longrightarrow> template (s @ t)"
  by (induction rule: template.induct) (simp_all add: template_hole)

lemma template_text: "nulFree s \<Longrightarrow> template s"
  by (induction s) simp_all

lemma template_placeholder [simp]: "template constraintValuePlaceholder"
  using template_hole [OF template_Nil] by simp

lemma replaceValue_byte: "c \<noteq> CHR 0x00 \<Longrightarrow> replaceValue (c # s) r = c # replaceValue s r"
  by (simp add: replaceValue_def constraintValuePlaceholder_def HasPrefix_def)

lemma replaceValue_hole: "replaceValue (constraintValuePlaceholder @ s) r = r @ replaceValue s r"
proof -
  have "replaceAll old r (old @ s) = r @ replaceAll old r s" if "old \<noteq> []" for old
    using that by (cases old) (simp_all add: HasPrefix_def)
  moreover have "constraintValuePlaceholder \<noteq> []" by (simp add: constraintValuePlaceholder_def)
  ultimately show ?thesis unfolding replaceValue_def by blast
qed

lemma replaceValue_Nil: "replaceValue [] r = []"
  by (simp add: replaceValue_def)

lemma replaceValue_template [simp]: "template e \<Longrightarrow> template r \<Longrightarrow> template (replaceValue e r)"
  by (induction rule: template.induct) (simp_all add: replaceValue_byte replaceValue_hole replaceValue_Nil)

lemma replaceValue_closed: "template e \<Longrightarrow> nulFree r \<Longrightarrow> nulFree (replaceValue e r)"
  by (induction rule: template.induct) (simp_all add: replaceValue_byte replaceValue_hole replaceValue_Nil)

lemma nulFree_replaceBytes: "(\<And>c. c \<in> set s \<Longrightarrow> nulFree (f c)) \<Longrightarrow> nulFree (replaceBytes f s)"
  by (induction s) (auto simp: replaceBytes_def)

lemma nulFree_quote [simp]: "nulFree s \<Longrightarrow> nulFree (ch_quoteIdentifier s)" "nulFree s \<Longrightarrow> nulFree (ch_quoteLiteral s)"
  by (auto simp: ch_quoteIdentifier_def ch_quoteLiteral_def nulFree_def [of s] intro!: nulFree_replaceBytes)

lemma template_tupleElement [simp]: "template v \<Longrightarrow> nulFree n \<Longrightarrow> template (tupleElementExpression v n)"
  by (simp add: tupleElementExpression_def template_text)

lemma nulFree_tupleElement [simp]: "nulFree v \<Longrightarrow> nulFree n \<Longrightarrow> nulFree (tupleElementExpression v n)"
  by (simp add: tupleElementExpression_def)

lemma scopeElement [simp]:
  "nulFree n \<Longrightarrow> template (scopeElementExpression n topLevel)" "nulFree n \<Longrightarrow> nulFree (scopeElementExpression n True)"
  by (simp_all add: scopeElementExpression_def template_text)

lemma nulFree_FormatUint [simp]: "nulFree (FormatUint n)"
proof -
  have "\<not> isDigit CHR 0x00" by (simp add: isDigit_def)
  then show ?thesis using FormatUint_isDigit [of n] unfolding nulFree_def by blast
qed

lemma nulFree_FormatInt [simp]: "nulFree (FormatInt i)"
  by (simp add: FormatInt_def)

lemma nulFree_join [simp]: "nulFree sep \<Longrightarrow> \<forall>s \<in> set ss. nulFree s \<Longrightarrow> nulFree (join sep ss)"
  by (induction sep ss rule: join.induct) simp_all

lemma nulFree_joinPath [simp]: "nulFree p \<Longrightarrow> nulFree n \<Longrightarrow> nulFree (joinPath p n)"
  by (simp add: joinPath_def)

section \<open>Validated text\<close>

lemma decodeRune_nul: "decodeRune s = Some (r, n) \<Longrightarrow> CHR 0x00 \<in> set (take n s) \<Longrightarrow> r = 0"
  by (cases s) (auto simp: between_def byteVal_def split: if_splits list.splits)

lemma runes_nul: "ValidString s \<Longrightarrow> CHR 0x00 \<in> set s \<Longrightarrow> \<exists>u. (0, u) \<in> set (runes s)"
proof (induction s rule: runes.induct)
  case (1 s)
  then have ne: "s \<noteq> []" by auto
  with "1.prems"(1) obtain r n where d: "decodeRune s = Some (r, n)" and v: "ValidString (drop n s)"
    by (auto simp: ValidString.simps [of s] split: option.splits)
  have "CHR 0x00 \<in> set (take n s) \<or> CHR 0x00 \<in> set (drop n s)"
    using "1.prems"(2) by (metis Un_iff append_take_drop_id set_append)
  then show ?case
  proof
    assume "CHR 0x00 \<in> set (take n s)"
    with decodeRune_nul [OF d] ne d show ?thesis by (auto simp: runes.simps [of s])
  next
    assume "CHR 0x00 \<in> set (drop n s)"
    with "1.IH"(2) [OF ne d refl v] ne d show ?thesis by (auto simp: runes.simps [of s])
  qed
qed

lemma validateIdentifier_nulFree: "ch_validateIdentifier v = None \<Longrightarrow> nulFree v"
  using runes_nul [of v] by (fastforce simp: ch_validateIdentifier_def nulFree_def list_ex_iff IsControl_def split: if_splits)

lemma validateText_nulFree: "ch_validateText v = None \<Longrightarrow> nulFree v"
  using runes_nul [of v] by (fastforce simp: ch_validateText_def nulFree_def list_ex_iff IsControl_def split: if_splits)

section \<open>Checks and types of fields\<close>

lemma ch_mapPrimitive_nulFree: "ch_mapPrimitive k = Inr (sqlType, message) \<Longrightarrow> nulFree sqlType"
  by (cases k) (auto simp: ch_mapPrimitive_def Let_def)

lemma ch_mapScalar_OK: "ch_mapScalar k path = Inr mapped \<Longrightarrow> nulFree path \<Longrightarrow> typeOK mapped"
  by (cases k)
    (auto simp: ch_mapScalar_def ch_mapEnum_def ch_plain_def typeOK_def checkOK_def andThen_eq_Inr Let_def template_text
      split: if_splits dest: ch_mapPrimitive_nulFree)

lemma presentTuple_OK: "typeOK mapped \<Longrightarrow> fieldOK (ch_presentTuple mapped)"
  by (simp add: typeOK_def fieldOK_def ch_presentTuple_def checkOK_def)

lemma nullable_OK: "typeOK mapped \<Longrightarrow> fieldOK (ch_nullable mapped)"
  by (simp add: typeOK_def fieldOK_def ch_nullable_def checkOK_def)

lemma ch_presence_OK:
  assumes "typeOK mapped" "nulFree path" "ch_presence f t path mapped = Inr (y, level, message)"
  shows "fieldOK y"
proof -
  have bare: "fieldOK \<lparr>mf_sqlType = mt_sqlType mapped, mf_defaultExpression = d, mf_validations = mt_validations mapped\<rparr>"
    if "nulFree d" for d using assms(1) that by (simp add: fieldOK_def typeOK_def)
  have default: "nulFree (ch_implicitDefault t)" by (simp add: ch_implicitDefault_def Let_def)
  have required: "fieldOK ((ch_presentTuple mapped)\<lparr>mf_validations := \<lparr>cv_fieldPath = path, cv_kind = ''required'',
      cv_expression = tupleElementExpression constraintValuePlaceholder ''present''\<rparr> # mf_validations (ch_presentTuple mapped)\<rparr>)"
    using presentTuple_OK [OF assms(1)] assms(2) by (simp add: fieldOK_def checkOK_def)
  show ?thesis
    using assms(3) bare default required presentTuple_OK [OF assms(1)] nullable_OK [OF assms(1)]
    by (cases "GetPresence f") (auto simp: ch_presence_def Let_def split: if_splits)
qed

section \<open>Checks and columns of scopes\<close>

lemma group_nulFree:
  assumes "groupOK path xs k g" "nulFree path" "\<forall>f \<in> set xs. nulFree (GetName f)"
  shows "nulFree (og_caseName g)" "nulFree (og_name g)" "nulFree (og_fieldPath g)" "\<forall>f \<in> set (og_members g). nulFree (GetName f)"
proof -
  from assms(1) have "nulFree (oneofCaseName k)" by (auto simp: groupOK_def dest: validateIdentifier_nulFree)
  then show "nulFree (og_caseName g)" "nulFree (og_name g)" "nulFree (og_fieldPath g)" "\<forall>f \<in> set (og_members g). nulFree (GetName f)"
    using assms by (auto simp: groupOK_def oneofCaseName_def)
qed

lemma ch_openGroup_scopeOK:
  assumes "scopeOK topLevel st" "nulFree path" "\<forall>f \<in> set xs. nulFree (GetName f)"
    and "\<forall>k g. map_of groups k = Some g \<longrightarrow> groupOK path xs k g"
  shows "scopeOK topLevel (ch_openGroup groups topLevel st index f)"
proof (cases "map_of groups (GetOneof f)")
  case (Some g)
  then have g: "nulFree (og_caseName g)" "nulFree (og_name g)" "nulFree (og_fieldPath g)"
    "\<forall>f \<in> set (og_members g). nulFree (GetName f)"
    using group_nulFree [OF _ assms(2,3)] assms(4) by blast+
  have "declarationOK (ch_discriminator g)" using g by (simp add: declarationOK_def ch_discriminator_def)
  moreover have "checkOK (ch_caseCheck topLevel g)" using g by (simp add: checkOK_def ch_caseCheck_def template_text)
  moreover have "nulFree (cv_expression (ch_caseCheck True g))" using g by (simp add: ch_caseCheck_def)
  ultimately show ?thesis using assms(1) Some by (auto simp: ch_openGroup_def scopeOK_def)
qed (simp add: ch_openGroup_def assms(1))

lemma ch_scopeField_scopeOK:
  assumes "scopeOK topLevel st0" "nulFree path" "\<forall>f \<in> set xs. nulFree (GetName f)" "f \<in> set xs"
    and groups: "\<forall>k g. map_of groups k = Some g \<longrightarrow> groupOK path xs k g"
    and mapField: "\<And>y ds. mapField (Some f) (joinPath path (GetName f)) = Inr (y, ds) \<Longrightarrow> fieldOK y \<and> nulFree (GetDescription f)"
    and "ch_scopeField mapField groups path topLevel st0 (index, f) = Inr st'"
  shows "scopeOK topLevel st'"
  using assms(7)
proof (rule ch_scopeField_Inr)
  let ?n = "scopeElementExpression (GetName f) topLevel"
  fix mapped ds st
  assume m: "mapField (Some f) (joinPath path (GetName f)) = Inr (mapped, ds)"
    and st: "st = ch_openGroup groups topLevel st0 index f"
    and decls: "cs_declarations st' = cs_declarations st @
       [\<lparr>cd_name = GetName f, cd_sqlType = mf_sqlType mapped, cd_defaultExpression = mf_defaultExpression mapped,
         cd_comment = GetDescription f, cd_fieldPath = joinPath path (GetName f), cd_stableID = GetStableId f,
         cd_synthetic = False\<rparr>]"
    and checks: "cs_validations st' = cs_validations st @
       (case map_of groups (GetOneof f) of None \<Rightarrow> []
        | Some g \<Rightarrow> [ch_presenceCheck topLevel (joinPath path (GetName f)) g f]) @
       map (\<lambda>v. v\<lparr>cv_expression := replaceValue (cv_expression v) ?n\<rparr>) (mf_validations mapped)"
  have ok: "scopeOK topLevel st" unfolding st by (rule ch_openGroup_scopeOK [OF assms(1-3) groups])
  have f: "fieldOK mapped" "nulFree (GetDescription f)" "nulFree (GetName f)" using mapField [OF m] assms(3,4) by auto
  have presence: "checkOK (ch_presenceCheck topLevel (joinPath path (GetName f)) g f)
      \<and> (topLevel \<longrightarrow> nulFree (cv_expression (ch_presenceCheck topLevel (joinPath path (GetName f)) g f)))"
    if "map_of groups (GetOneof f) = Some g" for g
    using group_nulFree [OF _ assms(2,3), of "GetOneof f" g] groups that f(3) assms(2)
    by (simp add: ch_presenceCheck_def checkOK_def template_text)
  have placed: "checkOK (v\<lparr>cv_expression := replaceValue (cv_expression v) ?n\<rparr>)
      \<and> (topLevel \<longrightarrow> nulFree (replaceValue (cv_expression v) ?n))" if "v \<in> set (mf_validations mapped)" for v
    using f that by (auto simp: fieldOK_def checkOK_def intro: replaceValue_closed)
  show ?thesis
    using ok f presence placed unfolding scopeOK_def decls checks
    by (auto simp: declarationOK_def fieldOK_def split: option.splits)
qed

lemma ch_mapScope_OK:
  assumes "ch_mapScope mapField fs path topLevel = Inr st" "nulFree path"
    and mapField: "\<And>f y ds. Some f \<in> set fs \<Longrightarrow> nulFree (GetName f) \<Longrightarrow>
      mapField (Some f) (joinPath path (GetName f)) = Inr (y, ds) \<Longrightarrow> fieldOK y \<and> nulFree (GetDescription f)"
  shows "scopeOK topLevel st"
  using assms(1)
proof (rule ch_mapScope_cases)
  fix checked groups
  assume fs: "fs = map Some checked" and names: "\<forall>f \<in> set checked. nameOK topLevel (GetName f)"
    and groups: "groupsOK path checked groups"
    and loop: "foldE (ch_scopeField mapField groups path topLevel)
       \<lparr>cs_declarations = [], cs_validations = [], cs_diagnostics = [], cs_emitted = []\<rparr>
       (zip [0..<length checked] checked) = Inr st"
  have nul: "\<forall>f \<in> set checked. nulFree (GetName f)" using names by (auto simp: nameOK_def dest: validateIdentifier_nulFree)
  have g: "\<forall>k g. map_of groups k = Some g \<longrightarrow> groupOK path checked k g" using groups by (simp add: groupsOK_def)
  show ?thesis
    using loop
  proof (rule foldE_invariant)
    fix s x s' assume x: "x \<in> set (zip [0..<length checked] checked)" and s: "scopeOK topLevel s"
      and step: "ch_scopeField mapField groups path topLevel s x = Inr s'"
    obtain i f where i: "x = (i, f)" by (cases x)
    with x have "f \<in> set checked" by (auto dest: set_zip_rightD)
    with i have f: "x = (i, f)" "f \<in> set checked" by blast+
    show "scopeOK topLevel s'"
    proof (rule ch_scopeField_scopeOK [OF s assms(2) nul f(2) g _ step [unfolded f(1)]])
      fix y ds assume "mapField (Some f) (joinPath path (GetName f)) = Inr (y, ds)"
      with mapField [of f y ds] nul f(2) show "fieldOK y \<and> nulFree (GetDescription f)" by (simp add: fs)
    qed
  qed (simp add: scopeOK_def)
qed

lemma ch_mapStruct_OK:
  assumes "ch_mapStruct m s path = Inr mapped" "nulFree path"
    and "\<And>st. ch_mapScope m (StructGetFields s) path False = Inr st \<Longrightarrow> scopeOK False st"
  shows "typeOK mapped"
proof -
  from assms(1) obtain st where st: "ch_mapScope m (StructGetFields s) path False = Inr st"
    by (auto simp: ch_mapStruct_def andThen_eq_Inr split: if_splits)
  from assms(3) [OF st] assms(1,2) show ?thesis
    by (auto simp: ch_mapStruct_def st Let_def typeOK_def scopeOK_def declarationOK_def checkOK_def split: if_splits)
qed

lemma ch_mapList_OK:
  assumes "ch_mapList m l path = Inr mapped" "nulFree path"
    and "\<And>y ds. m (ListGetElement l) (path @ ''[]'') = Inr (y, ds) \<Longrightarrow> fieldOK y"
  shows "typeOK mapped"
proof -
  from assms(1) obtain e ed where e: "m (ListGetElement l) (path @ ''[]'') = Inr (e, ed)"
    by (auto simp: ch_mapList_def andThen_eq_Inr split: if_splits)
  from assms(3) [OF e] assms(1,2) show ?thesis
    by (auto simp: ch_mapList_def e Let_def typeOK_def fieldOK_def checkOK_def template_text split: if_splits)
qed

lemma ch_mapMap_OK:
  assumes "ch_mapMap m x path = Inr mapped" "nulFree path"
    and "\<And>y ds. m (MapGetKey x) (path @ ''.key'') = Inr (y, ds) \<Longrightarrow> fieldOK y"
    and "\<And>y ds. m (MapGetValue x) (path @ ''.value'') = Inr (y, ds) \<Longrightarrow> fieldOK y"
  shows "typeOK mapped"
proof -
  from assms(1) obtain k kd v vd where kv: "m (MapGetKey x) (path @ ''.key'') = Inr (k, kd)" "m (MapGetValue x) (path @ ''.value'') = Inr (v, vd)"
    by (auto simp: ch_mapMap_def andThen_eq_Inr split: if_splits)
  from assms(3) [OF kv(1)] assms(4) [OF kv(2)] assms(1,2) show ?thesis
    by (auto simp: ch_mapMap_def kv typeOK_def fieldOK_def checkOK_def split: if_splits)
qed

lemma ch_mapType_OK:
  assumes "ch_mapType m t path = Inr mapped" "nulFree path"
    and m: "\<And>c p y ds. (c, p) \<in> set (childPaths path (GetKind t)) \<Longrightarrow> nulFree p \<Longrightarrow> m c p = Inr (y, ds) \<Longrightarrow>
      fieldOK y \<and> (case c of None \<Rightarrow> True | Some f \<Rightarrow> nulFree (GetDescription f))"
  shows "typeOK mapped"
proof (cases "GetKind t")
  case (DataType_Struct s)
  have "scopeOK False st" if "ch_mapScope m (StructGetFields s) path False = Inr st" for st
  proof (rule ch_mapScope_OK [OF that assms(2)])
    fix f y ds assume f: "Some f \<in> set (StructGetFields s)" "nulFree (GetName f)" "m (Some f) (joinPath path (GetName f)) = Inr (y, ds)"
    then have "(Some f, joinPath path (GetName f)) \<in> set (childPaths path (GetKind t))"
      by (force simp: DataType_Struct nilGetName_def)
    with m [OF this _ f(3)] f(2) assms(2) show "fieldOK y \<and> nulFree (GetDescription f)" by simp
  qed
  then show ?thesis using assms(1,2) by (intro ch_mapStruct_OK [of m s path]) (simp_all add: ch_mapType_def DataType_Struct)
next
  case (DataType_List l)
  then show ?thesis using assms(1,2) m [of "ListGetElement l" "path @ ''[]''"]
    by (intro ch_mapList_OK [of m l path]) (auto simp: ch_mapType_def)
next
  case (DataType_Map x)
  then show ?thesis
    using assms(1,2) m [of "MapGetKey x" "path @ ''.key''"] m [of "MapGetValue x" "path @ ''.value''"]
    by (intro ch_mapMap_OK [of m x path]) (auto simp: ch_mapType_def)
qed (use assms(1,2) in \<open>auto simp: ch_mapType_def dest: ch_mapScalar_OK\<close>)

lemma ch_mapField_OK:
  "ch_mapField (Some f) path = Inr (y, ds) \<Longrightarrow> nulFree path \<Longrightarrow> fieldOK y \<and> nulFree (GetDescription f)"
proof (induction f arbitrary: path y ds rule: field_tree_induct)
  case (Field fd ft)
  from Field.prems(1) show ?case
  proof (rule ch_mapField_Inr)
    fix f t mapped level message
    assume f: "Some (Field fd ft) = Some f" "GetType f = Some t" "ch_validateText (GetDescription f) = None"
      and mapped: "ch_mapType ch_mapField t path = Inr mapped" and y: "ch_presence f t path mapped = Inr (y, level, message)"
    have "typeOK mapped"
      using mapped Field.prems(2)
    proof (rule ch_mapType_OK)
      fix c p z es assume cp: "(c, p) \<in> set (childPaths path (GetKind t))" "nulFree p" "ch_mapField c p = Inr (z, es)"
      then obtain g where g: "c = Some g" by (cases c) auto
      have "Some g \<in> set (typeChildren ft)"
        using childPaths_kindChildren [OF cp(1)] f(1,2) by (cases t) (auto simp: g typeChildren_def)
      with Field.IH cp g show "fieldOK z \<and> (case c of None \<Rightarrow> True | Some f \<Rightarrow> nulFree (GetDescription f))" by auto
    qed
    with ch_presence_OK [OF this Field.prems(2) y] f validateText_nulFree [OF f(3)] show ?thesis by simp
  qed
qed

end
