(* ===== verification/Clickhouse_Properties.thy ===== *)
theory Clickhouse_Properties
  imports Clickhouse_Scopes Iceberg_Properties
begin

text \<open>
  The properties of the ClickHouse dialect: the columns and checks of an accepted dataset, the text of the table, and
  the conversion plan to Iceberg.
\<close>

text \<open>How ClickHouse reads a quoted identifier or a string literal: a backslash takes the next byte, with the
  usual meaning of \<^verbatim>\<open>n\<close>, \<^verbatim>\<open>r\<close>, \<^verbatim>\<open>t\<close>, \<^verbatim>\<open>0\<close>, \<^verbatim>\<open>b\<close>, \<^verbatim>\<open>f\<close>, \<^verbatim>\<open>a\<close> and \<^verbatim>\<open>v\<close>.\<close>

definition unescape :: "char \<Rightarrow> char" where
  "unescape c = (if c = CHR ''n'' then CHR 0x0A else if c = CHR ''r'' then CHR 0x0D else if c = CHR ''t'' then CHR 0x09
     else if c = CHR ''0'' then CHR 0x00 else if c = CHR ''b'' then CHR 0x08 else if c = CHR ''f'' then CHR 0x0C
     else if c = CHR ''a'' then CHR 0x07 else if c = CHR ''v'' then CHR 0x0B else c)"

fun readEscaped :: "char \<Rightarrow> string \<Rightarrow> (string \<times> string) option" where
  "readEscaped q [] = None"
| "readEscaped q (c # s) =
     (if c = q then Some ([], s)
      else if c = CHR 0x5C then
        (case s of [] \<Rightarrow> None | d # t \<Rightarrow> map_option (\<lambda>(v, r). (unescape d # v, r)) (readEscaped q t))
      else map_option (\<lambda>(v, r). (c # v, r)) (readEscaped q s))"

definition readQuoted :: "string \<Rightarrow> (string \<times> string) option" where
  "readQuoted s = (case s of
     [] \<Rightarrow> None
   | q # t \<Rightarrow> if q = CHR 0x60 \<or> q = CHR 0x27 then readEscaped q t else None)"

fun projectionIDs :: "iceberg_field_projection \<Rightarrow> int list" where
  "projectionIDs (IcebergFieldProjection d cs) = pj_StableID d # concat (map projectionIDs cs)"

fun projectionPaths :: "iceberg_field_projection \<Rightarrow> string list" where
  "projectionPaths (IcebergFieldProjection d cs) = pj_FieldPath d # concat (map projectionPaths cs)"

definition planFor :: "field option \<Rightarrow> string \<Rightarrow> iceberg_field_projection \<Rightarrow> bool" where
  "planFor c path x \<longleftrightarrow> projectionIDs x = fieldsIDs [c] \<and> projectionPaths x = fieldPaths c path"

definition oneofNumbered :: "field \<Rightarrow> bool" where
  "oneofNumbered f \<longleftrightarrow> (GetPresence f = PRESENCE_ONEOF \<longrightarrow> GetProtoNumberPath f \<noteq> [])"

definition clickhouseV1 :: "ch_table \<times> mapping_diagnostic list" where
  "clickhouseV1 = (case ClickHouseSchema (Some schemaV1) of Inr r \<Rightarrow> r | Inl _ \<Rightarrow>
     (\<lparr>ct_Dataset = [], ct_SourceMessage = [], ct_Description = [], ct_Columns = [], ct_Constraints = []\<rparr>, []))"

text \<open>A library that finds the fields of a schema.\<close>

definition findAmong :: "iceberg_schema \<Rightarrow> int \<Rightarrow> string option" where
  "findAmong schema i = (if i \<in> set (concat (map icebergFieldIDs (iceberg_fields schema))) then Some ''string'' else None)"

section \<open>Reading quoted text\<close>

lemma readEscaped_identifier:
  "readEscaped CHR 0x60 (replaceBytes (\<lambda>c. if c = CHR 0x5C then [CHR 0x5C, CHR 0x5C]
       else if c = CHR 0x60 then [CHR 0x5C, CHR 0x60] else [c]) v @ CHR 0x60 # t) = Some (v, t)"
  by (induction v) (auto simp: replaceBytes_def unescape_def)

lemma readEscaped_literal:
  "readEscaped CHR 0x27 (replaceBytes (\<lambda>c. if c = CHR 0x5C then [CHR 0x5C, CHR 0x5C]
       else if c = CHR 0x27 then [CHR 0x5C, CHR 0x27]
       else if c = CHR 0x0A then [CHR 0x5C, CHR ''n'']
       else if c = CHR 0x0D then [CHR 0x5C, CHR ''r'']
       else if c = CHR 0x09 then [CHR 0x5C, CHR ''t''] else [c]) v @ CHR 0x27 # t) = Some (v, t)"
  by (induction v) (auto simp: replaceBytes_def unescape_def)

section \<open>Accepted datasets\<close>

lemma ch_constraints:
  assumes "foldE ch_addConstraint ([], []) vs = Inr (seen, ks)"
  shows "distinct (map ck_Name ks) \<and>
    map (\<lambda>k. (ck_FieldPath k, ck_Expression k)) ks = map (\<lambda>v. (cv_fieldPath v, cv_expression v)) vs \<and>
    map ck_Name ks = map ch_constraintName vs"
proof -
  have "map fst seen = map ck_Name ks \<and> distinct (map ck_Name ks)
      \<and> map (\<lambda>k. (ck_FieldPath k, ck_Expression k)) ks = map (\<lambda>k. (ck_FieldPath k, ck_Expression k)) ks0 @ map (\<lambda>v. (cv_fieldPath v, cv_expression v)) vs
      \<and> map ck_Name ks = map ck_Name ks0 @ map ch_constraintName vs"
    if "foldE ch_addConstraint (seen0, ks0) vs = Inr (seen, ks)" "map fst seen0 = map ck_Name ks0" "distinct (map ck_Name ks0)"
    for seen0 ks0
    using that
  proof (induction vs arbitrary: seen0 ks0)
    case (Cons v vs)
    define n where "n = ch_constraintName v"
    define k where "k = \<lparr>ck_Name = n, ck_Expression = cv_expression v, ck_FieldPath = cv_fieldPath v\<rparr>"
    from Cons.prems(1) have new: "map_of seen0 n = None"
      and rest: "foldE ch_addConstraint (seen0 @ [(n, cv_fieldPath v)], ks0 @ [k]) vs = Inr (seen, ks)"
      unfolding foldE.simps andThen_eq_Inr
      by (auto simp: ch_addConstraint_def Let_def n_def k_def update_new_map_of simp del: append.simps split: option.splits)
    have "n \<notin> set (map ck_Name ks0)" using new unfolding Cons.prems(2) [symmetric] by (simp add: map_of_eq_None_iff)
    then have "map fst (seen0 @ [(n, cv_fieldPath v)]) = map ck_Name (ks0 @ [k])" "distinct (map ck_Name (ks0 @ [k]))"
      using Cons.prems(2,3) by (simp_all add: k_def)
    from Cons.IH [OF rest this] show ?case by (elim conjE) (simp add: k_def n_def)
  qed simp
  from this [OF assms] show ?thesis by auto
qed

lemma ClickHouseSchema_cases:
  assumes "ClickHouseSchema (Some ds) = Inr (table, diagnostics)"
  obtains st checks where "ch_mapScope ch_mapField (ds_fields ds) [] True = Inr st" "diagnostics = cs_diagnostics st"
    "checks = cs_validations st @ (if cs_declarations st = [] then [ch_unitCheck] else [])"
    "ct_Columns table = map ch_toColumn (cs_declarations st @ (if cs_declarations st = [] then [ch_unitColumn] else []))"
    "distinct (map ck_Name (ct_Constraints table))"
    "map (\<lambda>k. (ck_FieldPath k, ck_Expression k)) (ct_Constraints table) = map (\<lambda>v. (cv_fieldPath v, cv_expression v)) checks"
    "map ck_Name (ct_Constraints table) = map ch_constraintName checks"
proof -
  from assms obtain st seen where st: "ch_mapScope ch_mapField (ds_fields ds) [] True = Inr st" "diagnostics = cs_diagnostics st"
    "ct_Columns table = map ch_toColumn (cs_declarations st @ (if cs_declarations st = [] then [ch_unitColumn] else []))"
    and c: "foldE ch_addConstraint ([], []) (cs_validations st @ (if cs_declarations st = [] then [ch_unitCheck] else []))
      = Inr (seen, ct_Constraints table)"
    by (auto simp: ClickHouseSchema_def andThen_eq_Inr Let_def simp del: append.simps split: option.splits)
  from ch_constraints [OF c] st show ?thesis using that by blast
qed

lemma oneofCaseName_inject: "oneofCaseName a = oneofCaseName b \<longleftrightarrow> a = b"
  by (simp add: oneofCaseName_def)

lemma oneofCaseName_reserved: "HasPrefix (oneofCaseName k) reservedNamePrefix"
  by (simp add: oneofCaseName_def HasPrefix_def)

lemma distinct_map_filter:
  "distinct (map f (filter P xs)) \<Longrightarrow> distinct (map f (filter (\<lambda>x. \<not> P x) xs)) \<Longrightarrow>
   set (map f (filter (\<lambda>x. \<not> P x) xs)) \<inter> set (map f (filter P xs)) = {} \<Longrightarrow> distinct (map f xs)"
  by (induction xs) (auto split: if_splits)

text \<open>The columns of a scope: those of the fields and those of the oneofs.\<close>

lemma scope_columns:
  assumes "columnsOK groups path checked st" "groupsOK path checked groups" "distinct (map GetName checked)"
    and "\<forall>f \<in> set checked. nameOK topLevel (GetName f)"
  shows "distinct (map cd_name (cs_declarations st))"
    and "set (map cd_name (filter cd_synthetic (cs_declarations st))) = oneofCaseName ` (set (map GetOneof checked) - {[]})"
proof -
  let ?own = "filter (\<lambda>d. \<not> cd_synthetic d) (cs_declarations st)"
  let ?syn = "filter cd_synthetic (cs_declarations st)"
  have own: "map cd_name ?own = map GetName checked"
  proof -
    have "map (\<lambda>d. (cd_name d, cd_fieldPath d, cd_stableID d, cd_comment d)) ?own =
        map (\<lambda>f. (GetName f, joinPath path (GetName f), GetStableId f, GetDescription f)) checked"
      using assms(1) by (simp only: columnsOK_def)
    from arg_cong [OF this, of "map fst"] show ?thesis by (simp add: comp_def)
  qed
  have syn: "map cd_name ?syn = map oneofCaseName (rev (cs_emitted st))" and "distinct (cs_emitted st)"
    using assms(1) by (simp_all add: columnsOK_def)
  then have "distinct (map cd_name ?syn)"
    by (simp add: distinct_map inj_on_def oneofCaseName_inject)
  moreover have "distinct (map cd_name ?own)" using own assms(3) by simp
  moreover have "set (map cd_name ?own) \<inter> set (map cd_name ?syn) = {}"
    unfolding own syn using assms(4) oneofCaseName_reserved by (auto simp: nameOK_def)
  ultimately show "distinct (map cd_name (cs_declarations st))"
    by (rule distinct_map_filter [of cd_name cd_synthetic])
  have "k \<in> set (map GetOneof checked) - {[]} \<longleftrightarrow> (\<exists>g. map_of groups k = Some g \<and> og_firstIndex g < length checked)" for k
  proof
    assume "k \<in> set (map GetOneof checked) - {[]}"
    then obtain f where "f \<in> set checked" "GetOneof f = k" "k \<noteq> []" by auto
    then obtain g where g: "map_of groups k = Some g" using assms(2) unfolding groupsOK_def by blast
    then have "groupOK path checked k g" using assms(2) by (simp add: groupsOK_def)
    with g show "\<exists>g. map_of groups k = Some g \<and> og_firstIndex g < length checked" by (auto simp: groupOK_def)
  next
    assume "\<exists>g. map_of groups k = Some g \<and> og_firstIndex g < length checked"
    then obtain g where "groupOK path checked k g" using assms(2) unfolding groupsOK_def by blast
    then have "k \<noteq> []" "og_firstIndex g < length checked" "GetOneof (checked ! og_firstIndex g) = k" by (simp_all add: groupOK_def)
    then show "k \<in> set (map GetOneof checked) - {[]}" by force
  qed
  then have "set (cs_emitted st) = set (map GetOneof checked) - {[]}" using assms(1) unfolding columnsOK_def by blast
  then show "set (map cd_name ?syn) = oneofCaseName ` (set (map GetOneof checked) - {[]})"
    unfolding syn by simp
qed

section \<open>The conversion plan\<close>

lemma foldE_collect:
  assumes "\<And>x acc. x \<in> set xs \<Longrightarrow> \<exists>y. f acc x = Inr (acc @ [y]) \<and> P x y"
  shows "\<exists>ys. foldE f acc xs = Inr (acc @ ys) \<and> list_all2 P xs ys"
  using assms
proof (induction xs arbitrary: acc)
  case (Cons x xs)
  from Cons.prems [of x acc] obtain y where y: "f acc x = Inr (acc @ [y])" "P x y" by auto
  from Cons.IH [of "acc @ [y]"] Cons.prems obtain ys where "foldE f (acc @ [y]) xs = Inr ((acc @ [y]) @ ys)" "list_all2 P xs ys"
    by (metis list.set_intros(2))
  with y show ?case by (intro exI [of _ "y # ys"]) simp
qed simp

lemma plans_collected:
  assumes "list_all2 (\<lambda>(c, p). planFor c p) cps xs"
  shows "concat (map projectionIDs xs) = fieldsIDs (map fst cps)" "concat (map projectionPaths xs) = concat (map (\<lambda>(c, p). fieldPaths c p) cps)"
  using assms by (induction rule: list_all2_induct) (auto simp: planFor_def fieldsIDs_def)

lemma oneofMember_numbered: "oneofMember f \<Longrightarrow> oneofNumbered f"
  by (auto simp: oneofMember_def oneofNumbered_def lastNumber_def split: if_splits)

lemma scope_numbered:
  assumes "ch_mapScope m fs path topLevel = Inr st" "Some g \<in> set fs"
  shows "oneofNumbered g"
  using assms(1)
proof (rule ch_mapScope_cases)
  fix checked groups assume "fs = map Some checked" "groupsOK path checked groups"
  then show ?thesis using assms(2) by (auto simp: groupsOK_def intro: oneofMember_numbered)
qed

lemma child_numbered:
  assumes "ch_mapType m t path = Inr mapped" "compiledKind (GetKind t)" "Some g \<in> set (kindChildren (GetKind t))"
  shows "oneofNumbered g"
proof (cases "GetKind t")
  case (DataType_Struct s)
  with assms(1) ch_mapStruct_Inr obtain st where "ch_mapScope m (StructGetFields s) path False = Inr st"
    by (force simp: ch_mapType_def)
  then show ?thesis using assms(3) by (intro scope_numbered [of m "StructGetFields s"]) (simp_all add: DataType_Struct kindChildren_def)
qed (use assms(2,3) in \<open>auto simp: compiledKind_def kindChildren_def isSynthetic_def oneofNumbered_def split: option.splits\<close>)

lemma projectPresence_ok:
  "ch_presence f t path mapped = Inr r \<Longrightarrow> oneofNumbered f \<Longrightarrow> \<exists>q. projectPresence f path composite = Inr q"
  by (cases "GetPresence f") (auto simp: ch_presence_def projectPresence_def oneofNumbered_def Let_def split: if_splits)

lemma projectField_ok:
  "ch_mapField (Some f) path = Inr (y, ds) \<Longrightarrow> everyField compiledNode f \<Longrightarrow> oneofNumbered f \<Longrightarrow>
   (\<forall>i \<in> set (fieldIDs f). lookup i \<noteq> None) \<Longrightarrow> \<exists>x. projectField lookup (Some f) path ty = Inr x \<and> planFor (Some f) path x"
proof (induction f arbitrary: path y ds ty rule: field_tree_induct)
  case (Field fd ft)
  let ?f = "Field fd ft"
  from Field.prems(1) show ?case
  proof (rule ch_mapField_Inr)
    fix f t mapped level message
    assume f: "Some ?f = Some f" "GetType f = Some t"
      and mapped: "ch_mapType ch_mapField t path = Inr mapped" and y: "ch_presence f t path mapped = Inr (y, level, message)"
    have ft: "ft = Some t" using f by auto
    have kids: "typeChildren ft = kindChildren (GetKind t)" by (cases t) (simp add: ft typeChildren_def)
    have kind: "compiledKind (GetKind t)" using everyField_node [OF Field.prems(2)] by (simp add: compiledNode_def ft)
    from ch_mapType_children [OF mapped] obtain rs where
      rs: "map (\<lambda>(c, p). ch_mapField c p) (childPaths path (GetKind t)) = map Inr rs" by blast
    from y projectPresence_ok Field.prems(3) f(1) obtain presence val discriminator number where
      q: "projectPresence ?f path (mt_composite mapped) = Inr (presence, val, discriminator, number)"
      by (metis option.inject prod_cases4)
    have child: "\<exists>x. appendChild (projectField lookup) lookup path acc cp = Inr (acc @ [x]) \<and> (case cp of (c, p) \<Rightarrow> planFor c p) x"
      if "cp \<in> set (childPaths path (GetKind t))" for cp acc
    proof -
      obtain c p where cp: "cp = (c, p)" by (cases cp)
      from map_Inr_mem [OF rs that] obtain z es where z: "ch_mapField c p = Inr (z, es)" by (auto simp: cp)
      then obtain g where g: "c = Some g" by (cases c) auto
      have mem: "Some g \<in> set (kindChildren (GetKind t))" using childPaths_kindChildren that by (auto simp: cp g)
      have "set (fieldIDs g) \<subseteq> set (fieldIDs ?f)" using mem by (auto simp: fieldIDs_eq kids fieldsIDs_def)
      then have ids: "\<forall>i \<in> set (fieldIDs g). lookup i \<noteq> None" using Field.prems(4) by blast
      moreover have "GetStableId g \<in> set (fieldIDs g)" by (cases g) (simp add: fieldIDs_eq)
      ultimately obtain target where target: "lookup (GetStableId g) = Some target" by blast
      obtain x where "projectField lookup (Some g) p target = Inr x" "planFor (Some g) p x"
        using Field.IH [of g p z es target] z mem kids everyField_child [OF Field.prems(2), of g]
          child_numbered [OF mapped kind mem] ids by (auto simp: g)
      then show ?thesis by (auto simp: appendChild_def cp g target)
    qed
    from foldE_collect [where xs = "childPaths path (GetKind t)" and f = "appendChild (projectField lookup) lookup path"
          and P = "\<lambda>(c, p). planFor c p" and acc = "[]", OF child] obtain xs where
      xs: "appendChildren (projectField lookup) lookup path (childPaths path (GetKind t)) = Inr xs"
      "list_all2 (\<lambda>(c, p). planFor c p) (childPaths path (GetKind t)) xs"
      by (auto simp: appendChildren_def)
    from plans_collected [OF xs(2)] show ?thesis
      using Field.prems(1) mapped q xs(1)
      by (simp add: ft planFor_def fieldsIDs_def fieldIDs_eq kids [unfolded ft] map_fst_childPaths)
  qed
qed

lemma projectColumn_ok:
  assumes "ch_mapField (Some f) (GetName f) = Inr (y, ds)" "compiledMember f" "oneofNumbered f"
    and "\<forall>i \<in> set (fieldIDs f). lookup i \<noteq> None"
  shows "\<exists>x. projectColumn lookup acc (Some f) = Inr (acc @ [x]) \<and> planFor (Some f) (GetName f) x"
proof -
  have "GetStableId f \<in> set (fieldIDs f)" by (cases f) (simp add: fieldIDs_eq)
  then obtain target where "lookup (GetStableId f) = Some target" using assms(4) by blast
  moreover obtain x where "projectField lookup (Some f) (GetName f) target = Inr x" "planFor (Some f) (GetName f) x"
    using projectField_ok [OF assms(1) _ assms(3,4)] assms(2) by (auto simp: compiledMember_def)
  ultimately show ?thesis by (simp add: projectColumn_def nilGetStableId_def nilGetName_def)
qed

section \<open>Properties\<close>

text \<open>(C30) The columns of a ClickHouse table: those that are not synthetic are the fields of the dataset, in order
  and with their stable IDs; the synthetic ones are the discriminators of exactly the oneofs of the dataset (or
  the unit column of an empty one); no two columns and no two constraints have the same name.\<close>

theorem clickhouse_columns_complete:
  assumes "ClickHouseSchema (Some ds) = Inr (table, diagnostics)"
  shows "map (\<lambda>c. (cc_Name c, cc_StableID c, cc_Comment c)) (filter (\<lambda>c. \<not> cc_Synthetic c) (ct_Columns table))
      = map (\<lambda>f. (nilGetName f, nilGetStableId f, case f of None \<Rightarrow> [] | Some g \<Rightarrow> GetDescription g)) (ds_fields ds)
    \<and> set (map cc_Name (filter cc_Synthetic (ct_Columns table))) = (if ds_fields ds = [] then {''__invariant_unit''}
        else {oneofCaseName (GetOneof g) | g. Some g \<in> set (ds_fields ds) \<and> GetOneof g \<noteq> []})
    \<and> distinct (map cc_Name (ct_Columns table)) \<and> distinct (map ck_Name (ct_Constraints table))"
  using assms
proof (rule ClickHouseSchema_cases)
  fix st assume st: "ch_mapScope ch_mapField (ds_fields ds) [] True = Inr st"
    and columns: "ct_Columns table = map ch_toColumn (cs_declarations st @ (if cs_declarations st = [] then [ch_unitColumn] else []))"
    and ks: "distinct (map ck_Name (ct_Constraints table))"
  from st show ?thesis
  proof (rule ch_mapScope_cases)
    fix checked groups
    assume fs: "ds_fields ds = map Some checked" and names: "distinct (map GetName checked)" "\<forall>f \<in> set checked. nameOK True (GetName f)"
      and groups: "groupsOK [] checked groups" and decls: "columnsOK groups [] checked st"
    note scope = scope_columns [OF decls groups names]
    show ?thesis
    proof (cases "checked = []")
      case True
      with decls scope(2) have "filter cd_synthetic (cs_declarations st) = []" "filter (\<lambda>d. \<not> cd_synthetic d) (cs_declarations st) = []"
        by (auto simp: columnsOK_def)
      then have "cs_declarations st = []" by (auto simp: filter_empty_conv)
      then show ?thesis using True ks by (simp add: columns fs ch_toColumn_def ch_unitColumn_def)
    next
      case False
      from decls have own: "map (\<lambda>d. (cd_name d, cd_fieldPath d, cd_stableID d, cd_comment d)) (filter (\<lambda>d. \<not> cd_synthetic d) (cs_declarations st))
          = map (\<lambda>f. (GetName f, joinPath [] (GetName f), GetStableId f, GetDescription f)) checked" by (simp only: columnsOK_def)
      with False have "cs_declarations st \<noteq> []" by auto
      then have c: "ct_Columns table = map ch_toColumn (cs_declarations st)" by (simp add: columns)
      have "map (\<lambda>c. (cc_Name c, cc_StableID c, cc_Comment c)) (filter (\<lambda>c. \<not> cc_Synthetic c) (ct_Columns table)) =
          map (\<lambda>(n, _, i, d). (n, i, d)) (map (\<lambda>d. (cd_name d, cd_fieldPath d, cd_stableID d, cd_comment d)) (filter (\<lambda>d. \<not> cd_synthetic d) (cs_declarations st)))"
        by (simp add: c filter_map comp_def ch_toColumn_def)
      moreover have "map cc_Name (filter cc_Synthetic (ct_Columns table)) = map cd_name (filter cd_synthetic (cs_declarations st))"
        by (simp add: c filter_map comp_def ch_toColumn_def)
      moreover have "map cc_Name (ct_Columns table) = map cd_name (cs_declarations st)" by (simp add: c ch_toColumn_def)
      moreover have "oneofCaseName ` (set (map GetOneof checked) - {[]}) = {oneofCaseName (GetOneof g) | g. Some g \<in> set (ds_fields ds) \<and> GetOneof g \<noteq> []}"
        by (auto simp: fs)
      ultimately show ?thesis
        unfolding own using scope ks False by (simp add: fs nilGetName_def nilGetStableId_def comp_def del: set_map)
    qed
  qed
qed

text \<open>(C34) The ClickHouse dialect reports every logical field once, in the order of the walk over the fields.\<close>

theorem clickhouse_diagnostics_complete:
  assumes "ClickHouseSchema (Some ds) = Inr (table, diagnostics)"
  shows "map field_path diagnostics = concat (map (\<lambda>f. fieldPaths f (nilGetName f)) (ds_fields ds)) \<and> list_all fullyTyped (ds_fields ds)"
  using assms
proof (rule ClickHouseSchema_cases)
  fix st assume st: "ch_mapScope ch_mapField (ds_fields ds) [] True = Inr st" "diagnostics = cs_diagnostics st"
  from st(1) have "\<exists>ys. mapMembers (\<lambda>f. ch_mapField f (nilGetName f)) (ds_fields ds) = Inr (ys, diagnostics)"
  proof (rule ch_mapScope_cases)
    fix checked assume "ds_fields ds = map Some checked" "resultsOK ch_mapField [] checked st"
    then show ?thesis using st(2) by (auto simp: resultsOK_def mapMembers_eq comp_def nilGetName_def joinPath_def)
  qed
  then show ?thesis using clickhouse.dataset_diagnostics by blast
qed

text \<open>(C31) No placeholder is left: the table body written for an accepted dataset has no NUL byte, so every check
  speaks about a column and not about the placeholder it was built with.\<close>

theorem clickhouse_checks_placed:
  assumes "ClickHouseSchema (Some ds) = Inr (table, diagnostics)"
  shows "CHR 0x00 \<notin> set (ColumnDeclarations (Some table))"
  using assms
proof (rule ClickHouseSchema_cases)
  fix st checks
  assume st: "ch_mapScope ch_mapField (ds_fields ds) [] True = Inr st"
    and checks: "checks = cs_validations st @ (if cs_declarations st = [] then [ch_unitCheck] else [])"
    and columns: "ct_Columns table = map ch_toColumn (cs_declarations st @ (if cs_declarations st = [] then [ch_unitColumn] else []))"
    and ks: "map (\<lambda>k. (ck_FieldPath k, ck_Expression k)) (ct_Constraints table) = map (\<lambda>v. (cv_fieldPath v, cv_expression v)) checks"
    and names: "map ck_Name (ct_Constraints table) = map ch_constraintName checks"
  have ok: "scopeOK True st"
    using st by (rule ch_mapScope_OK) (simp_all add: joinPath_def ch_mapField_OK del: ch_mapField.simps)
  have "declarationOK ch_unitColumn" by (simp add: declarationOK_def ch_unitColumn_def)
  with ok have d: "declarationOK d" if "d \<in> set (cs_declarations st @ (if cs_declarations st = [] then [ch_unitColumn] else []))" for d
    using that by (auto simp: scopeOK_def split: if_splits)
  have "checkOK ch_unitCheck \<and> nulFree (cv_expression ch_unitCheck)" by (simp add: checkOK_def ch_unitCheck_def template_text)
  with ok have v: "nulFree (ch_constraintName v) \<and> nulFree (cv_expression v)" if "v \<in> set checks" for v
    using that by (auto simp: checks scopeOK_def checkOK_def ch_constraintName_def split: if_splits)
  have "set (map ck_Name (ct_Constraints table)) = set (map ch_constraintName checks)" unfolding names ..
  moreover have "set (map ck_Expression (ct_Constraints table)) = set (map cv_expression checks)"
    using arg_cong [OF ks, of "\<lambda>xs. set (map snd xs)"] by (simp add: comp_def image_image)
  ultimately have k: "nulFree (ck_Name k) \<and> nulFree (ck_Expression k)" if "k \<in> set (ct_Constraints table)" for k
    using that v by (metis (no_types, lifting) image_iff list.set_map)
  have c: "nulFree (cc_Name c) \<and> nulFree (cc_Type c) \<and> nulFree (cc_DefaultExpression c) \<and> nulFree (cc_Comment c)"
    if "c \<in> set (ct_Columns table)" for c
    using that d unfolding columns set_map declarationOK_def by (auto simp: ch_toColumn_def)
  have "nulFree (ColumnDeclarations (Some table))"
    unfolding ColumnDeclarations_def option.case by (rule nulFree_join) (auto simp: c k)
  then show ?thesis by (simp add: nulFree_def)
qed

text \<open>(C33) Reading back: from a quoted identifier or literal ClickHouse reads the text that was quoted, whatever
  bytes stand in it and whatever follows.\<close>

theorem clickhouse_quotes_read_back:
  "readQuoted (ch_quoteIdentifier v @ t) = Some (v, t) \<and> readQuoted (ch_quoteLiteral v @ t) = Some (v, t)"
  using readEscaped_identifier [of v t] readEscaped_literal [of v t]
  by (simp add: readQuoted_def ch_quoteIdentifier_def ch_quoteLiteral_def)

text \<open>(C32) The conversion plan exists: for a compiled dataset that ClickHouse and Iceberg both accept,
  \<^verbatim>\<open>ProjectToIceberg\<close> returns a plan, provided that \<^verbatim>\<open>FindFieldByID\<close> finds the IDs of the schema. The plan has one node per
  logical field, with the stable ID and the path of the field, in the order of the walk.\<close>

theorem clickhouse_projection_returns:
  assumes "CompileMessage E descriptor previous = Inr ds"
    and "ClickHouseSchema (Some ds) = Inr (table, cd)" and "IcebergSchema (Some ds) = Inr (schema, icd)"
    and lookup: "\<forall>i \<in> set (concat (map icebergFieldIDs (iceberg_fields schema))). FindFieldByID schema i \<noteq> None"
  shows "\<exists>plan. ProjectToIceberg FindFieldByID (Some ds) = Inr (plan, cd @ icd)
    \<and> concat (map projectionIDs (pr_Fields plan)) = fieldsIDs (ds_fields ds)
    \<and> concat (map projectionPaths (pr_Fields plan)) = concat (map (\<lambda>f. fieldPaths f (nilGetName f)) (ds_fields ds))"
proof -
  let ?find = "FindFieldByID schema" and ?fs = "ds_fields ds"
  from assms(3) have "mapMembers (\<lambda>f. iceberg_mapField f (nilGetName f)) ?fs = Inr (iceberg_fields schema, icd)"
    by (auto simp: IcebergSchema_def andThen_eq_Inr mapFields_eq)
  from iceberg.dataset_ids [OF this] lookup have ids: "\<forall>i \<in> set (fieldsIDs ?fs). ?find i \<noteq> None" by simp
  have column: "\<exists>x. projectColumn ?find acc c = Inr (acc @ [x]) \<and> planFor c (nilGetName c) x" if c: "c \<in> set ?fs" for acc c
    using assms(2)
  proof (rule ClickHouseSchema_cases)
    fix st assume st: "ch_mapScope ch_mapField ?fs [] True = Inr st"
    obtain f where f: "c = Some f" "compiledMember f" using compiledFields_member [OF compiled_fields [OF assms(1)] c] by blast
    from st show ?thesis
    proof (rule ch_mapScope_cases)
      fix checked assume fs: "?fs = map Some checked" and "resultsOK ch_mapField [] checked st"
      then obtain rs where "map (\<lambda>f. ch_mapField (Some f) (GetName f)) checked = map Inr rs" by (auto simp: resultsOK_def joinPath_def)
      moreover have "f \<in> set checked" using c fs f(1) by auto
      ultimately obtain r where "ch_mapField (Some f) (GetName f) = Inr r" using map_Inr_mem by fast
      moreover have "\<forall>i \<in> set (fieldIDs f). ?find i \<noteq> None" using ids c f(1) by (force simp: fieldsIDs_def)
      ultimately show ?thesis
        using projectColumn_ok [of f "fst r" "snd r" ?find acc] f scope_numbered [OF st, of f] c by (simp add: nilGetName_def)
    qed
  qed
  from foldE_collect [where xs = ?fs and f = "projectColumn ?find" and P = "\<lambda>c. planFor c (nilGetName c)" and acc = "[]", OF column] obtain xs where
    xs: "foldE (projectColumn ?find) [] ?fs = Inr xs" "list_all2 (\<lambda>c. planFor c (nilGetName c)) ?fs xs" by auto
  then have "list_all2 (\<lambda>(c, p). planFor c p) (map (\<lambda>f. (f, nilGetName f)) ?fs) xs" by (simp add: list_all2_map1)
  from plans_collected [OF this] xs(1) assms(2,3) show ?thesis
    by (simp add: ProjectToIceberg_def Let_def comp_def)
qed

section \<open>Witnesses\<close>

lemma clickhouse_V1: "ClickHouseSchema (Some schemaV1) = Inr (fst clickhouseV1, snd clickhouseV1)"
proof -
  have "isl (ClickHouseSchema (Some schemaV1)) = False" by code_simp
  then show ?thesis unfolding clickhouseV1_def by (cases "ClickHouseSchema (Some schemaV1)") auto
qed

theorem clickhouse_columns_complete_witness: "distinct (map cc_Name (ct_Columns (fst clickhouseV1)))"
  using clickhouse_columns_complete [OF clickhouse_V1] by blast

theorem clickhouse_diagnostics_complete_witness:
  "map field_path (snd clickhouseV1) = concat (map (\<lambda>f. fieldPaths f (nilGetName f)) (ds_fields schemaV1))"
  using clickhouse_diagnostics_complete [OF clickhouse_V1] by blast

theorem clickhouse_checks_placed_witness: "CHR 0x00 \<notin> set (ColumnDeclarations (Some (fst clickhouseV1)))"
  by (rule clickhouse_checks_placed [OF clickhouse_V1])

theorem clickhouse_projection_returns_witness:
  "\<exists>plan. ProjectToIceberg findAmong (Some schemaV1) = Inr (plan, snd clickhouseV1 @ snd icebergV1)
    \<and> concat (map projectionIDs (pr_Fields plan)) = fieldsIDs (ds_fields schemaV1)"
proof -
  have "\<forall>i \<in> set (concat (map icebergFieldIDs (iceberg_fields (fst icebergV1)))). findAmong (fst icebergV1) i \<noteq> None"
    by (simp add: findAmong_def)
  from clickhouse_projection_returns [where FindFieldByID = findAmong, OF compile_V1 clickhouse_V1 iceberg_V1 this] show ?thesis by blast
qed

end
