(* ===== verification/Spec2Isabelle.thy ===== *)
theory Spec2Isabelle
  imports Compiler_Properties Compiler_Scopes Bundle_Properties Iceberg_Properties Arrow_Properties Postgres_Properties
    Sqlite_Properties Clickhouse_Properties
begin

text \<open>
  Verification development of the Go implementation of Invariant Protocol. The program turns protobuf
  messages into logical data schemas whose fields keep a stable ID for ever, and projects these schemas
  to storage systems. All paths below are relative to \<^verbatim>\<open>src/\<close>.

  \<^bold>\<open>The parts and how they interact.\<close> \<^verbatim>\<open>CompileDescriptorBytes\<close> (\<^verbatim>\<open>go/data/compiler.go\<close>) decodes a
  descriptor set, guards Invariant's option numbers, finds the annotated messages and calls
  \<^verbatim>\<open>CompileMessage\<close> for each, starting from the dataset of the previous bundle if there is one.
  \<^verbatim>\<open>CompileMessage\<close> allocates stable IDs in the state \<^verbatim>\<open>datasetCompiler\<close>, walks the message and its nested
  messages, and leaves a tombstone for every field that went away. The result is a \<^verbatim>\<open>SchemaBundle\<close>
  (\<^verbatim>\<open>go/data/bundle.go\<close>), which is encoded, parsed and migrated. Every dialect under \<^verbatim>\<open>go/data/\<close> reads one
  dataset of it: Iceberg, Arrow, Parquet (through Arrow), PostgreSQL, SQLite and ClickHouse, and a
  conversion plan leads from the ClickHouse table to the Iceberg schema.

  \<^bold>\<open>Conventions.\<close> A Go string is a HOL string, that is a list of bytes. A pointer or an interface that may
  be nil is an option. A function that returns an error returns a sum, \<open>Inl\<close> the error with the values its
  message is made of, \<open>Inr\<close> the result; where the code returns diagnostics together with the error, so does
  the model. A Go map is an association list. A loop is \<open>foldE\<close> or \<open>mapE\<close> (\<open>Prelude\<close>), so every early return is
  a branch. Field numbers and IDs are \<open>int\<close> with the conversions to 32 bits written out where the code
  converts (\<open>toInt32\<close>, \<open>toUint32\<close>). Generated getters are total on nil, as protobuf's are.

  \<^bold>\<open>Shared theories.\<close>
  \<^item> \<open>Prelude\<close>: sums, loops and lists.
  \<^item> \<open>Go_Strings\<close>, \<open>Utf8\<close>: what is used of \<^verbatim>\<open>strings\<close>, \<^verbatim>\<open>strconv\<close>, \<^verbatim>\<open>unicode/utf8\<close> and the string encoder of
    \<^verbatim>\<open>encoding/json\<close>.
  \<^item> \<open>Schema_IR\<close>: the messages of \<^verbatim>\<open>go/gen/invariant/data/v1/schema.pb.go\<close> as records and datatypes, with the
    tree of fields below a field.
  \<^item> \<open>Descriptors\<close>: what the compiler reads of protobuf descriptors and options, and \<^verbatim>\<open>rejectUnknownFields\<close>.
  \<^item> \<open>Dialects\<close>: the helpers of which every dialect has a private copy (\<^verbatim>\<open>joinPath\<close>, \<^verbatim>\<open>decimalParameters\<close> and
    others), the walk over the logical fields (\<open>fieldPaths\<close>), and the contract of a dialect that maps field by
    field: locale \<open>field_mapping\<close> (every logical field is reported once, parents before children) and its
    extension \<open>field_id_mapping\<close> (the IDs in the result are the stable IDs).
  \<^item> \<open>Sql_Text\<close>: how SQL text is read back into identifiers, literals, comments and the characters between
    (\<open>sqlParts\<close>), with rules for statements put together from pieces.
  \<^item> \<open>Examples\<close>: two versions of an order message on which the witnesses evaluate the model.

  \<^bold>\<open>The compiler.\<close>
  \<^item> \<open>Storage_Name\<close>: \<^verbatim>\<open>storageName\<close>, identities and their grammar.
  \<^item> \<open>Stable_IDs\<close>: locale \<open>stable_ids\<close>, the contract of an allocator; its lemmas are facts on whole runs.
  \<^item> \<open>Compiler_State\<close>: the record \<open>dataset_compiler\<close> and its operations (\<^verbatim>\<open>loadPrevious\<close>, \<^verbatim>\<open>allocate\<close> and the
    indexing of historical names), the invariant \<open>compiler_inv\<close>, and the interpretation of \<open>stable_ids\<close>.
  \<^item> \<open>Compiler\<close>: options, presence, types, evolution checks, tombstones, \<^verbatim>\<open>CompileMessage\<close>. The recursion over
    nested messages runs on fuel, the number of messages the environment knows plus one; C7 shows that it
    never runs out, because the compiler refuses a message inside itself.
  \<^item> \<open>Compiler_Runs\<close>, \<open>Compiler_Ledger\<close>, \<open>Compiler_Properties\<close>: every function is a run of the allocator; IDs are
    unique and in range (C1), a compilation extends the ledger (C2), removed fields are retired (C3), new
    fields get new IDs (C4), and over any sequence of versions no ID changes its owner (C5).
  \<^item> \<open>Compiler_Scopes\<close>, \<open>Compiler_Shape\<close>: storage names are unique in their scope (C6), compilation ends (C7),
    accepted messages have finite depth (C8), and the shape the dialects rely on (C13).
  \<^item> \<open>Bundle\<close>, \<open>Descriptor_Set\<close>, \<open>Bundle_Properties\<close>: dataset roots are append-only (C9), bundles are canonical
    (C10), exactly which legacy bundles migrate (C11), and what the annotation guard accepts (C12).

  \<^bold>\<open>The dialects.\<close> For each one: which compiled schemas it accepts, what stands in its output, and that its
  diagnostics are complete.
  \<^item> \<open>Iceberg\<close>, \<open>Iceberg_Properties\<close> (\<^verbatim>\<open>go/data/iceberg/schema.go\<close>): C14 to C18.
  \<^item> \<open>Arrow\<close>, \<open>Parquet\<close>, \<open>Arrow_Properties\<close> (\<^verbatim>\<open>go/data/arrow/schema.go\<close>, \<^verbatim>\<open>go/data/parquet/schema.go\<close>): C19 to C22.
  \<^item> \<open>Postgres\<close>, \<open>Postgres_Properties\<close> (\<^verbatim>\<open>go/data/postgres/schema.go\<close>): C23 to C26. \<open>pg_spec\<close> specifies the statement
    from the dataset alone, and the text of the code is read back as it.
  \<^item> \<open>Sqlite\<close>, \<open>Sqlite_Statement\<close>, \<open>Sqlite_Properties\<close> (\<^verbatim>\<open>go/data/sqlite/schema.go\<close>): C27 to C29. \<open>sl_spec\<close> specifies the
    statement, with the check of every logical type as an expression (\<open>sl_checkExpr\<close>).
  \<^item> \<open>Clickhouse\<close>, \<open>Clickhouse_Scopes\<close>, \<open>Clickhouse_Projection\<close>, \<open>Clickhouse_Properties\<close>
    (\<^verbatim>\<open>go/data/clickhouse/schema.go\<close>, \<^verbatim>\<open>projection.go\<close>): C30 to C34.

  \<^bold>\<open>Parameters.\<close> Code of other packages is an argument of the model: protobuf descriptors and the validity of
  names (\<open>proto_env\<close>), decoding, linking and hashing of descriptor sets (\<open>descriptor_lib\<close>), the wire codec with
  reflection and \<^verbatim>\<open>proto.Clone\<close> (\<open>bundle_codec\<close>), the JSON extension type, type names and IPC writer of arrow-go
  (\<open>arrow_lib\<close>), the Parquet converter, SHA-256, the JSON encoder of Iceberg types and \<^verbatim>\<open>FindFieldByID\<close>. What
  a property needs of them is a named hypothesis in it (\<open>env_keyed\<close>, \<open>env_int32\<close>, \<open>libSound\<close>, \<open>foundByName\<close>,
  \<open>typedReflection\<close>, \<open>cloneKeeps\<close>, 32 bytes of SHA-256), and its witness has a concrete instance.

  \<^bold>\<open>Not modelled.\<close> The runtime that serves tools over gRPC, HTTP, MCP and a command line
  (\<^verbatim>\<open>go/*.go\<close>), which is concurrency and I/O around grpc-go, net/http and protojson; the OpenAPI importer
  (\<^verbatim>\<open>go/internal/openapiimport\<close>), which walks the document model of a library; the two commands under
  \<^verbatim>\<open>go/cmd\<close>, which are flags and files around the modelled calls; tests, generated code beyond the
  messages of the logical schema, and the sibling runtimes in Python, Rust and TypeScript. Of SQL only the
  reading of text is modelled, not the evaluation of statements by a database.
\<close>

end
